theory Spec2Isabelle
  imports Main "HOL-Library.AList"
begin

section \<open>JSON values and the Python operations the services apply to them\<close>

text \<open>
  Everything the services read comes out of \<^verbatim>\<open>response.json()\<close>, so the data is
  untyped JSON. A Python \<^verbatim>\<open>str\<close> is a \<^typ>\<open>string\<close> whose characters stand for
  code points (below 256); numbers are integers, which is what the provider sends in the
  fields the code compares. A \<^verbatim>\<open>dict\<close> is an association list in insertion order.
  \<^verbatim>\<open>None\<close> is \<open>JNull\<close>.
\<close>

datatype json =
    JNull
  | JBool bool
  | JInt int
  | JStr string
  | JList "json list"
  | JDict "(string \<times> json) list"

text \<open>Every exception the code can meet. \<open>Exception m\<close> is \<^verbatim>\<open>raise Exception(m)\<close>.\<close>

datatype py_error =
    KeyError
  | TypeError
  | AttributeError
  | JSONDecodeError
  | DecodeError
  | ConnectionError
  | Exception json

definition bind_r :: "py_error + 'a \<Rightarrow> ('a \<Rightarrow> py_error + 'b) \<Rightarrow> py_error + 'b" where
  "bind_r m f = (case m of Inl e \<Rightarrow> Inl e | Inr x \<Rightarrow> f x)"

text \<open>A list comprehension whose element expression may raise.\<close>

fun traverse :: "('a \<Rightarrow> py_error + 'b) \<Rightarrow> 'a list \<Rightarrow> py_error + 'b list" where
  "traverse f [] = Inr []"
| "traverse f (x # xs) =
     bind_r (f x) (\<lambda>y. bind_r (traverse f xs) (\<lambda>ys. Inr (y # ys)))"

text \<open>\<^verbatim>\<open>x['k']\<close>: only a dict can be subscripted by a string.\<close>

fun subscript :: "json \<Rightarrow> string \<Rightarrow> py_error + json" where
  "subscript (JDict d) k = (case map_of d k of None \<Rightarrow> Inl KeyError | Some v \<Rightarrow> Inr v)"
| "subscript _ k = Inl TypeError"

text \<open>\<^verbatim>\<open>x.get('k', default)\<close>: only a dict has the method.\<close>

fun get_attr :: "json \<Rightarrow> string \<Rightarrow> json \<Rightarrow> py_error + json" where
  "get_attr (JDict d) k dflt = Inr (case map_of d k of None \<Rightarrow> dflt | Some v \<Rightarrow> v)"
| "get_attr _ k dflt = Inl AttributeError"

fun is_infix :: "string \<Rightarrow> string \<Rightarrow> bool" where
  "is_infix xs [] = (xs = [])"
| "is_infix xs (y # ys) = (take (length xs) (y # ys) = xs \<or> is_infix xs ys)"

text \<open>\<^verbatim>\<open>'k' in x\<close>: a key of a dict, an element of a list, a substring of a str.\<close>

fun contains :: "string \<Rightarrow> json \<Rightarrow> py_error + bool" where
  "contains k (JDict d) = Inr (k \<in> set (map fst d))"
| "contains k (JList xs) = Inr (JStr k \<in> set xs)"
| "contains k (JStr s) = Inr (is_infix k s)"
| "contains k _ = Inl TypeError"

text \<open>Truth value of an object, as \<^verbatim>\<open>if x\<close>, \<^verbatim>\<open>not x\<close> and \<^verbatim>\<open>x or y\<close> take it.\<close>

fun truthy :: "json \<Rightarrow> bool" where
  "truthy JNull = False"
| "truthy (JBool b) = b"
| "truthy (JInt n) = (n \<noteq> 0)"
| "truthy (JStr s) = (s \<noteq> [])"
| "truthy (JList xs) = (xs \<noteq> [])"
| "truthy (JDict d) = (d \<noteq> [])"

definition py_or :: "json \<Rightarrow> json \<Rightarrow> json" where
  "py_or x y = (if truthy x then x else y)"

text \<open>\<^verbatim>\<open>for r in x\<close>: a dict yields its keys, a str its characters.\<close>

fun py_iter :: "json \<Rightarrow> py_error + json list" where
  "py_iter (JList xs) = Inr xs"
| "py_iter (JDict d) = Inr (map (\<lambda>kv. JStr (fst kv)) d)"
| "py_iter (JStr s) = Inr (map (\<lambda>c. JStr [c]) s)"
| "py_iter _ = Inl TypeError"

text \<open>\<^verbatim>\<open>x[:n]\<close>: lists and strs can be sliced, nothing else.\<close>

fun py_slice :: "nat \<Rightarrow> json \<Rightarrow> py_error + json" where
  "py_slice n (JList xs) = Inr (JList (take n xs))"
| "py_slice n (JStr s) = Inr (JStr (take n s))"
| "py_slice n _ = Inl TypeError"

fun is_list :: "json \<Rightarrow> bool" where
  "is_list (JList xs) = True"
| "is_list _ = False"

fun is_dict :: "json \<Rightarrow> bool" where
  "is_dict (JDict d) = True"
| "is_dict _ = False"

fun is_str :: "json \<Rightarrow> bool" where
  "is_str (JStr s) = True"
| "is_str _ = False"

text \<open>\<^verbatim>\<open>x > k\<close> for an int \<open>k\<close>: ints and bools compare, anything else raises.\<close>

fun py_gt :: "json \<Rightarrow> int \<Rightarrow> py_error + bool" where
  "py_gt (JInt n) k = Inr (n > k)"
| "py_gt (JBool b) k = Inr ((if b then 1 else 0) > k)"
| "py_gt _ k = Inl TypeError"

text \<open>\<^verbatim>\<open>s.lower()\<close> on the code points below 256.\<close>

definition lower_char :: "char \<Rightarrow> char" where
  "lower_char c =
     (let n = (of_char c :: nat)
      in if (65 \<le> n \<and> n \<le> 90) \<or> (192 \<le> n \<and> n \<le> 222 \<and> n \<noteq> 215)
         then char_of (n + 32) else c)"

fun py_lower :: "json \<Rightarrow> py_error + string" where
  "py_lower (JStr s) = Inr (map lower_char s)"
| "py_lower _ = Inl AttributeError"

text \<open>\<^verbatim>\<open>", ".join(xs)\<close>: every item must be a str.\<close>

fun as_str :: "json \<Rightarrow> py_error + string" where
  "as_str (JStr s) = Inr s"
| "as_str _ = Inl TypeError"

fun intersperse :: "string \<Rightarrow> string list \<Rightarrow> string" where
  "intersperse sep [] = []"
| "intersperse sep [x] = x"
| "intersperse sep (x # y # ys) = x @ sep @ intersperse sep (y # ys)"

definition py_join :: "string \<Rightarrow> json list \<Rightarrow> py_error + string" where
  "py_join sep xs = bind_r (traverse as_str xs) (\<lambda>ss. Inr (intersperse sep ss))"

text \<open>\<^verbatim>\<open>f"{n}"\<close> for an int.\<close>

fun digits :: "nat \<Rightarrow> string" where
  "digits n = (if n < 10 then [char_of (48 + n)] else digits (n div 10) @ [char_of (48 + n mod 10)])"

definition str_int :: "int \<Rightarrow> string" where
  "str_int i = (if i < 0 then CHR ''-'' # digits (nat (- i)) else digits (nat i))"

text \<open>
  Dict keys are compared after hashing: \<^verbatim>\<open>True\<close> and \<^verbatim>\<open>1\<close> are the same key,
  lists and dicts are unhashable.
\<close>

datatype key = KNone | KNum int | KStr string

fun hash_key :: "json \<Rightarrow> py_error + key" where
  "hash_key JNull = Inr KNone"
| "hash_key (JBool b) = Inr (KNum (if b then 1 else 0))"
| "hash_key (JInt n) = Inr (KNum n)"
| "hash_key (JStr s) = Inr (KStr s)"
| "hash_key _ = Inl TypeError"

text \<open>\<^verbatim>\<open>{**d, k1: v1, ...}\<close> and \<^verbatim>\<open>d.update({...})\<close>: later bindings overwrite in place.\<close>

definition overlay :: "(string \<times> json) list \<Rightarrow> (string \<times> json) list \<Rightarrow> (string \<times> json) list" where
  "overlay d kvs = foldl (\<lambda>acc kv. AList.update (fst kv) (snd kv) acc) d kvs"

section \<open>The network\<close>

text \<open>
  What \<^verbatim>\<open>requests.request\<close> hands back. \<open>ok\<close> is the library's \<^verbatim>\<open>Response.ok\<close>
  attribute, \<open>json_body\<close> what \<^verbatim>\<open>response.json()\<close> returns (\<open>None\<close> when it raises),
  \<open>body_text\<close> is \<^verbatim>\<open>response.text\<close>. Header names are stored in lower case, as the
  library looks them up without regard to case.
\<close>

record response =
  status_code :: int
  ok :: bool
  headers :: "(string \<times> string) list"
  json_body :: "json option"
  body_text :: string

text \<open>
  The library sets \<^verbatim>\<open>Response.ok\<close> from the status: it is false exactly for the
  client and server error statuses, 400 to 599.
\<close>

definition requests_ok :: "int \<Rightarrow> bool" where
  "requests_ok status \<longleftrightarrow> \<not> (400 \<le> status \<and> status < 600)"

definition library_response :: "response \<Rightarrow> bool" where
  "library_response r \<longleftrightarrow> ok r = requests_ok (status_code r)"

datatype outcome = Fails py_error | Responds response

text \<open>
  The URL of a request, by the template that builds it and the values interpolated:
  \<^item> \<open>Pulls repo state\<close>: \<^verbatim>\<open>/repos/{repo}/pulls?state={state}&per_page=100\<close>
  \<^item> \<open>PullDetails repo number\<close>: \<^verbatim>\<open>/repos/{repo}/pulls/{number}\<close>
  \<^item> \<open>PullReviews repo number\<close>: \<^verbatim>\<open>/repos/{repo}/pulls/{number}/reviews\<close>
  \<^item> \<open>CheckRuns repo ref\<close>: \<^verbatim>\<open>/repos/{repo}/commits/{ref}/check-runs\<close>
  \<^item> \<open>Contents repo path\<close>: \<^verbatim>\<open>/repos/{repo}/contents/{path}\<close>
  \<^item> \<open>Sessions None\<close>: \<^verbatim>\<open>sessions\<close>; \<open>Sessions (Some t)\<close>: \<^verbatim>\<open>sessions?pageToken={t}\<close>
\<close>

datatype endpoint =
    Pulls string string
  | PullDetails string json
  | PullReviews string json
  | CheckRuns string json
  | Contents string string
  | Sessions "json option"

record request =
  http_method :: string
  target :: endpoint

text \<open>
  The transport is any stateful function from requests to outcomes. The world carries its
  state and the trace of what the program did: every call with its outcome, every sleep
  with its seconds.
\<close>

datatype event = Call request outcome | Sleep int

record 's world =
  net :: 's
  trace :: "event list"

type_synonym 's transport = "request \<Rightarrow> 's \<Rightarrow> outcome \<times> 's"

definition send :: "'s transport \<Rightarrow> request \<Rightarrow> 's world \<Rightarrow> outcome \<times> 's world" where
  "send tr rq w =
     (case tr rq (net w) of
        (out, s') \<Rightarrow> (out, \<lparr>net = s', trace = trace w @ [Call rq out]\<rparr>))"

definition sleep :: "int \<Rightarrow> 's world \<Rightarrow> 's world" where
  "sleep secs w = w\<lparr>trace := trace w @ [Sleep secs]\<rparr>"

fun is_call :: "event \<Rightarrow> bool" where
  "is_call (Call rq out) = True"
| "is_call (Sleep secs) = False"

definition attempts :: "'s world \<Rightarrow> nat" where
  "attempts w = length (filter is_call (trace w))"

text \<open>A mock transport: it plays a script of outcomes, then fails for good.\<close>

definition scripted :: "outcome list transport" where
  "scripted rq s = (case s of [] \<Rightarrow> (Fails ConnectionError, []) | out # rest \<Rightarrow> (out, rest))"

definition start :: "'s \<Rightarrow> 's world" where
  "start s = \<lparr>net = s, trace = []\<rparr>"

section \<open>Failure classification\<close>

definition rate_limited :: "response \<Rightarrow> bool" where
  "rate_limited r \<longleftrightarrow>
     status_code r = 429 \<or>
     (status_code r = 403 \<and> map_of (headers r) ''x-ratelimit-remaining'' = Some ''0'')"

definition rate_limit_error :: py_error where
  "rate_limit_error = Exception (JStr ''GitHub API Rate Limit Exceeded.'')"

definition generic_message :: "response \<Rightarrow> json" where
  "generic_message r = JStr (''Error: '' @ str_int (status_code r))"

text \<open>
  \<^verbatim>\<open>GithubService._request\<close>, the message of a response that is not ok: the generic
  one unless the body parses, \<^verbatim>\<open>'message' in error_body\<close> holds and the subscript
  succeeds; the bare \<^verbatim>\<open>except\<close> swallows whatever the three steps raise.
\<close>

definition GithubService_error_message :: "response \<Rightarrow> json" where
  "GithubService_error_message r =
     (case json_body r of
        None \<Rightarrow> generic_message r
      | Some error_body \<Rightarrow>
          (case contains ''message'' error_body of
             Inl e \<Rightarrow> generic_message r
           | Inr False \<Rightarrow> generic_message r
           | Inr True \<Rightarrow>
               (case subscript error_body ''message'' of
                  Inl e \<Rightarrow> generic_message r
                | Inr m \<Rightarrow> m)))"

definition GithubService_check :: "response \<Rightarrow> py_error + unit" where
  "GithubService_check r =
     (if rate_limited r then Inl rate_limit_error
      else if \<not> ok r then Inl (Exception (GithubService_error_message r))
      else Inr ())"

text \<open>\<^verbatim>\<open>GitHubClient._request\<close>: \<^verbatim>\<open>error_body.get('message', f'Error: {status}')\<close>.\<close>

definition GitHubClient_error_message :: "response \<Rightarrow> json" where
  "GitHubClient_error_message r =
     (case json_body r of
        None \<Rightarrow> generic_message r
      | Some error_body \<Rightarrow>
          (case get_attr error_body ''message'' (generic_message r) of
             Inl e \<Rightarrow> generic_message r
           | Inr m \<Rightarrow> m))"

definition GitHubClient_check :: "response \<Rightarrow> py_error + unit" where
  "GitHubClient_check r =
     (if rate_limited r then Inl rate_limit_error
      else if \<not> ok r then Inl (Exception (GitHubClient_error_message r))
      else Inr ())"

section \<open>The request functions\<close>

text \<open>\<^verbatim>\<open>GithubService._request\<close>: one call, no retry.\<close>

definition GithubService_decode :: "string \<Rightarrow> bool \<Rightarrow> response \<Rightarrow> py_error + json" where
  "GithubService_decode method is_text r =
     bind_r (GithubService_check r) (\<lambda>u.
       if method \<noteq> ''GET'' \<and> status_code r = 204 then Inr (JDict [])
       else if is_text then Inr (JStr (body_text r))
       else (case json_body r of None \<Rightarrow> Inl JSONDecodeError | Some v \<Rightarrow> Inr v))"

definition GithubService_request ::
  "'s transport \<Rightarrow> endpoint \<Rightarrow> string \<Rightarrow> bool \<Rightarrow> 's world \<Rightarrow> (py_error + json) \<times> 's world" where
  "GithubService_request tr ep method is_text w =
     (case send tr \<lparr>http_method = method, target = ep\<rparr> w of
        (Fails e, w') \<Rightarrow> (Inl e, w')
      | (Responds r, w') \<Rightarrow> (GithubService_decode method is_text r, w'))"

text \<open>
  \<^verbatim>\<open>GitHubClient._request\<close>: what one pass through the \<^verbatim>\<open>try\<close> block makes of the
  transport's outcome, then the loop around it.
\<close>

definition GitHubClient_decode :: "bool \<Rightarrow> response \<Rightarrow> py_error + json" where
  "GitHubClient_decode is_text r =
     bind_r (GitHubClient_check r) (\<lambda>u.
       if status_code r = 204 then Inr (JDict [])
       else if is_text then Inr (JStr (body_text r))
       else (case json_body r of None \<Rightarrow> Inl JSONDecodeError | Some v \<Rightarrow> Inr v))"

fun GitHubClient_attempt :: "bool \<Rightarrow> outcome \<Rightarrow> py_error + json" where
  "GitHubClient_attempt is_text (Fails e) = Inl e"
| "GitHubClient_attempt is_text (Responds r) = GitHubClient_decode is_text r"

function GitHubClient_retry ::
  "'s transport \<Rightarrow> request \<Rightarrow> bool \<Rightarrow> int \<Rightarrow> 's world \<Rightarrow> (py_error + json) \<times> 's world" where
  "GitHubClient_retry tr rq is_text retries w =
     (if retries \<ge> 0 then
        (case send tr rq w of
           (out, w1) \<Rightarrow>
             (case GitHubClient_attempt is_text out of
                Inr v \<Rightarrow> (Inr v, w1)
              | Inl e \<Rightarrow>
                  if retries = 0 then (Inl e, w1)
                  else GitHubClient_retry tr rq is_text (retries - 1) (sleep (2 - (retries - 1)) w1)))
      else (Inr JNull, w))"
  by pat_completeness auto
termination
  by (relation "measure (\<lambda>(tr, rq, is_text, retries, w). nat (retries + 1))") auto

definition GitHubClient_request ::
  "'s transport \<Rightarrow> string \<Rightarrow> endpoint \<Rightarrow> bool \<Rightarrow> 's world \<Rightarrow> (py_error + json) \<times> 's world" where
  "GitHubClient_request tr method ep is_text w =
     GitHubClient_retry tr \<lparr>http_method = method, target = ep\<rparr> is_text 2 w"

text \<open>\<^verbatim>\<open>JulesService._request\<close>.\<close>

definition JulesService_error_message :: "response \<Rightarrow> json" where
  "JulesService_error_message r =
     (let dflt = JStr (''Jules API Error: '' @ str_int (status_code r))
      in case json_body r of
           None \<Rightarrow> dflt
         | Some error_body \<Rightarrow>
             (case contains ''error'' error_body of
                Inr True \<Rightarrow>
                  (case subscript error_body ''error'' of
                     Inl e \<Rightarrow> dflt
                   | Inr err \<Rightarrow>
                       (case contains ''message'' err of
                          Inr True \<Rightarrow> (case subscript err ''message'' of Inl e \<Rightarrow> dflt | Inr m \<Rightarrow> m)
                        | _ \<Rightarrow> dflt))
              | _ \<Rightarrow> dflt))"

definition JulesService_decode :: "string \<Rightarrow> outcome \<Rightarrow> py_error + json" where
  "JulesService_decode method out =
     (case out of
        Fails e \<Rightarrow> Inl e
      | Responds r \<Rightarrow>
          if \<not> ok r then Inl (Exception (JulesService_error_message r))
          else if method \<noteq> ''GET'' \<and> status_code r = 204 then Inr (JDict [])
          else (case json_body r of None \<Rightarrow> Inl JSONDecodeError | Some v \<Rightarrow> Inr v))"

definition JulesService_request ::
  "'s transport \<Rightarrow> endpoint \<Rightarrow> string \<Rightarrow> 's world \<Rightarrow> (py_error + json) \<times> 's world" where
  "JulesService_request tr ep method w =
     (case send tr \<lparr>http_method = method, target = ep\<rparr> w of
        (out, w') \<Rightarrow> (JulesService_decode method out, w'))"

section \<open>Check runs\<close>

text \<open>
  A check-run summary is the dict \<^verbatim>\<open>{'name', 'status', 'conclusion', 'url'}\<close> that
  \<^verbatim>\<open>fetch_check_runs\<close> builds, so its four fields always exist.
\<close>

record check_run =
  run_name :: json
  run_status :: json
  run_conclusion :: json
  run_url :: json

definition check_run_json :: "check_run \<Rightarrow> json" where
  "check_run_json r =
     JDict [(''name'', run_name r), (''status'', run_status r),
            (''conclusion'', run_conclusion r), (''url'', run_url r)]"

text \<open>\<^verbatim>\<open>GithubService.fetch_check_runs\<close>: the body of the \<^verbatim>\<open>try\<close>, then the function.\<close>

definition GithubService_project_run :: "json \<Rightarrow> py_error + check_run" where
  "GithubService_project_run run =
     bind_r (subscript run ''name'') (\<lambda>n.
     bind_r (subscript run ''status'') (\<lambda>s.
     bind_r (subscript run ''conclusion'') (\<lambda>c.
     bind_r (subscript run ''html_url'') (\<lambda>u.
       Inr \<lparr>run_name = n, run_status = s, run_conclusion = c, run_url = u\<rparr>))))"

definition GithubService_check_runs_body :: "py_error + json \<Rightarrow> py_error + check_run list" where
  "GithubService_check_runs_body response =
     bind_r response (\<lambda>data.
     bind_r (subscript data ''check_runs'') (\<lambda>runs.
     bind_r (py_iter runs) (\<lambda>items.
       traverse GithubService_project_run items)))"

definition except_return :: "'a \<Rightarrow> py_error + 'a \<Rightarrow> 'a" where
  "except_return dflt m = (case m of Inl e \<Rightarrow> dflt | Inr v \<Rightarrow> v)"

definition GithubService_fetch_check_runs ::
  "'s transport \<Rightarrow> string \<Rightarrow> json \<Rightarrow> 's world \<Rightarrow> check_run list \<times> 's world" where
  "GithubService_fetch_check_runs tr repo ref w =
     (case GithubService_request tr (CheckRuns repo ref) ''GET'' False w of
        (response, w') \<Rightarrow> (except_return [] (GithubService_check_runs_body response), w'))"

text \<open>\<^verbatim>\<open>GitHubClient.fetch_check_runs\<close>: \<^verbatim>\<open>.get\<close> instead of subscripts.\<close>

definition GitHubClient_project_run :: "json \<Rightarrow> py_error + check_run" where
  "GitHubClient_project_run run =
     bind_r (get_attr run ''name'' JNull) (\<lambda>n.
     bind_r (get_attr run ''status'' JNull) (\<lambda>s.
     bind_r (get_attr run ''conclusion'' JNull) (\<lambda>c.
     bind_r (get_attr run ''html_url'' JNull) (\<lambda>u.
       Inr \<lparr>run_name = n, run_status = s, run_conclusion = c, run_url = u\<rparr>))))"

definition GitHubClient_check_runs_body :: "py_error + json \<Rightarrow> py_error + check_run list" where
  "GitHubClient_check_runs_body response =
     bind_r response (\<lambda>data.
     bind_r (get_attr data ''check_runs'' (JList [])) (\<lambda>runs.
     bind_r (py_iter runs) (\<lambda>items.
       traverse GitHubClient_project_run items)))"

definition GitHubClient_fetch_check_runs ::
  "'s transport \<Rightarrow> string \<Rightarrow> json \<Rightarrow> 's world \<Rightarrow> check_run list \<times> 's world" where
  "GitHubClient_fetch_check_runs tr repo ref w =
     (case GitHubClient_request tr ''GET'' (CheckRuns repo ref) False w of
        (response, w') \<Rightarrow> (except_return [] (GitHubClient_check_runs_body response), w'))"

section \<open>Derivation of the enriched record\<close>

text \<open>The test status, the same statements in both services.\<close>

definition test_status :: "check_run list \<Rightarrow> string" where
  "test_status check_results =
     (let failed_count =
            length (filter (\<lambda>r. run_conclusion r = JStr ''failure'' \<or>
                                run_conclusion r = JStr ''timed_out'') check_results);
          pending_count =
            length (filter (\<lambda>r. run_status r \<noteq> JStr ''completed'') check_results)
      in if failed_count > 0 then ''failed''
         else if pending_count > 0 then ''pending''
         else if length check_results > 0 then ''passed''
         else ''unknown'')"

text \<open>
  The review loop \<^verbatim>\<open>latest_reviews_by_user[r['user']['login']] = r['state']\<close>:
  Python evaluates the right-hand side, then the key, then stores.
\<close>

definition review_entry :: "json \<Rightarrow> py_error + key \<times> json" where
  "review_entry r =
     bind_r (subscript r ''state'') (\<lambda>state.
     bind_r (subscript r ''user'') (\<lambda>user.
     bind_r (subscript user ''login'') (\<lambda>login.
     bind_r (hash_key login) (\<lambda>k. Inr (k, state)))))"

fun latest_reviews_by_user ::
  "(key \<times> json) list \<Rightarrow> json list \<Rightarrow> py_error + (key \<times> json) list" where
  "latest_reviews_by_user acc [] = Inr acc"
| "latest_reviews_by_user acc (r # rs) =
     bind_r (review_entry r) (\<lambda>(k, state). latest_reviews_by_user (AList.update k state acc) rs)"

definition approved_states :: "json list \<Rightarrow> bool" where
  "approved_states review_states \<longleftrightarrow>
     JStr ''APPROVED'' \<in> set review_states \<and> JStr ''CHANGES_REQUESTED'' \<notin> set review_states"

definition is_approved :: "json \<Rightarrow> py_error + bool" where
  "is_approved reviews =
     bind_r (py_iter reviews) (\<lambda>rs.
     bind_r (latest_reviews_by_user [] rs) (\<lambda>latest.
       Inr (approved_states (map snd latest))))"

definition is_leader_branch :: "json \<Rightarrow> py_error + bool" where
  "is_leader_branch details =
     bind_r (subscript details ''base'') (\<lambda>base.
     bind_r (subscript base ''ref'') (\<lambda>ref.
     bind_r (py_lower ref) (\<lambda>l.
       Inr (l \<in> set [''leader'', ''main'', ''master'', ''develop'']))))"

text \<open>\<^verbatim>\<open>(details.get('changed_files', 0) or 0) > 15\<close> in \<^verbatim>\<open>GithubService\<close>.\<close>

definition GithubService_is_big :: "json \<Rightarrow> py_error + bool" where
  "GithubService_is_big details =
     bind_r (get_attr details ''changed_files'' (JInt 0)) (\<lambda>n. py_gt (py_or n (JInt 0)) 15)"

text \<open>\<^verbatim>\<open>details.get('changed_files', 0) > 15\<close> in \<^verbatim>\<open>GitHubClient\<close>.\<close>

definition GitHubClient_is_big :: "json \<Rightarrow> py_error + bool" where
  "GitHubClient_is_big details =
     bind_r (get_attr details ''changed_files'' (JInt 0)) (\<lambda>n. py_gt n 15)"

definition is_ready_to_merge :: "json \<Rightarrow> py_error + bool" where
  "is_ready_to_merge details =
     bind_r (get_attr details ''mergeable'' JNull) (\<lambda>m. Inr (m = JBool True))"

text \<open>
  The statements between the fetches and the \<^verbatim>\<open>except\<close>: the dict display spreads
  \<^verbatim>\<open>**details\<close> first, then evaluates the derived values in order.
\<close>

definition spread :: "json \<Rightarrow> py_error + (string \<times> json) list" where
  "spread v = (case v of JDict d \<Rightarrow> Inr d | _ \<Rightarrow> Inl TypeError)"

definition derive ::
  "(json \<Rightarrow> py_error + bool) \<Rightarrow> json \<Rightarrow> json \<Rightarrow> check_run list \<Rightarrow> py_error + json" where
  "derive is_big details reviews check_results =
     bind_r (is_approved reviews) (\<lambda>approved.
     bind_r (spread details) (\<lambda>d.
     bind_r (is_big details) (\<lambda>big.
     bind_r (is_ready_to_merge details) (\<lambda>ready.
     bind_r (is_leader_branch details) (\<lambda>leader.
       Inr (JDict (overlay d
         [(''testStatus'', JStr (test_status check_results)),
          (''checkResults'', JList (map check_run_json check_results)),
          (''isApproved'', JBool approved),
          (''isBig'', JBool big),
          (''isReadyToMerge'', JBool ready),
          (''isLeaderBranch'', JBool leader)])))))))"

definition GithubService_derive :: "json \<Rightarrow> json \<Rightarrow> check_run list \<Rightarrow> py_error + json" where
  "GithubService_derive = derive GithubService_is_big"

definition GitHubClient_derive :: "json \<Rightarrow> json \<Rightarrow> check_run list \<Rightarrow> py_error + json" where
  "GitHubClient_derive = derive GitHubClient_is_big"

text \<open>The fallback records of the two \<^verbatim>\<open>except\<close> branches.\<close>

definition GithubService_fallback :: "json \<Rightarrow> py_error + json" where
  "GithubService_fallback pr =
     bind_r (spread pr) (\<lambda>d.
       Inr (JDict (overlay d
         [(''testStatus'', JStr ''unknown''),
          (''checkResults'', JList []),
          (''isApproved'', JBool False),
          (''isBig'', JBool False),
          (''isReadyToMerge'', JBool False),
          (''isLeaderBranch'', JBool False)])))"

text \<open>\<^verbatim>\<open>pr.copy()\<close> then \<^verbatim>\<open>pr_copy.update({...})\<close>: only a dict has both methods.\<close>

definition GitHubClient_fallback :: "json \<Rightarrow> py_error + json" where
  "GitHubClient_fallback pr =
     (case pr of
        JDict d \<Rightarrow>
          Inr (JDict (overlay d
            [(''testStatus'', JStr ''unknown''),
             (''isApproved'', JBool False),
             (''isBig'', JBool False),
             (''isReadyToMerge'', JBool False),
             (''isLeaderBranch'', JBool False)]))
      | _ \<Rightarrow> Inl AttributeError)"

section \<open>Enrichment in \<^verbatim>\<open>GithubService\<close>: one PR after the other\<close>

definition GithubService_fetch_pull_requests ::
  "'s transport \<Rightarrow> string \<Rightarrow> string \<Rightarrow> 's world \<Rightarrow> (py_error + json) \<times> 's world" where
  "GithubService_fetch_pull_requests tr repo state w =
     GithubService_request tr (Pulls repo state) ''GET'' False w"

definition GithubService_fetch_pr_details ::
  "'s transport \<Rightarrow> string \<Rightarrow> json \<Rightarrow> 's world \<Rightarrow> (py_error + json) \<times> 's world" where
  "GithubService_fetch_pr_details tr repo number w =
     GithubService_request tr (PullDetails repo number) ''GET'' False w"

definition GithubService_fetch_pr_reviews ::
  "'s transport \<Rightarrow> string \<Rightarrow> json \<Rightarrow> 's world \<Rightarrow> (py_error + json) \<times> 's world" where
  "GithubService_fetch_pr_reviews tr repo number w =
     GithubService_request tr (PullReviews repo number) ''GET'' False w"

definition head_sha :: "json \<Rightarrow> py_error + json" where
  "head_sha pr = bind_r (subscript pr ''head'') (\<lambda>h. subscript h ''sha'')"

text \<open>The body of the \<^verbatim>\<open>try\<close>: the first statement that raises ends it.\<close>

definition GithubService_enrich_try ::
  "'s transport \<Rightarrow> string \<Rightarrow> json \<Rightarrow> 's world \<Rightarrow> (py_error + json) \<times> 's world" where
  "GithubService_enrich_try tr repo pr w =
     (case subscript pr ''number'' of
        Inl e \<Rightarrow> (Inl e, w)
      | Inr number \<Rightarrow>
          (case GithubService_fetch_pr_details tr repo number w of
             (Inl e, w1) \<Rightarrow> (Inl e, w1)
           | (Inr details, w1) \<Rightarrow>
               (case GithubService_fetch_pr_reviews tr repo number w1 of
                  (Inl e, w2) \<Rightarrow> (Inl e, w2)
                | (Inr reviews, w2) \<Rightarrow>
                    (case head_sha pr of
                       Inl e \<Rightarrow> (Inl e, w2)
                     | Inr sha \<Rightarrow>
                         (case GithubService_fetch_check_runs tr repo sha w2 of
                            (check_results, w3) \<Rightarrow>
                              (GithubService_derive details reviews check_results, w3))))))"

text \<open>
  \<^verbatim>\<open>try\<close> and \<^verbatim>\<open>except\<close> together: what is appended to \<^verbatim>\<open>results\<close>, or the
  exception the handler itself raises.
\<close>

definition GithubService_enrich_one ::
  "'s transport \<Rightarrow> string \<Rightarrow> json \<Rightarrow> 's world \<Rightarrow> (py_error + json) \<times> 's world" where
  "GithubService_enrich_one tr repo pr w =
     (case GithubService_enrich_try tr repo pr w of
        (Inr enriched, w') \<Rightarrow> (Inr enriched, w')
      | (Inl e, w') \<Rightarrow> (GithubService_fallback pr, w'))"

fun GithubService_enrich_loop ::
  "'s transport \<Rightarrow> string \<Rightarrow> json list \<Rightarrow> json list \<Rightarrow> 's world
     \<Rightarrow> (py_error + json list) \<times> 's world" where
  "GithubService_enrich_loop tr repo [] results w = (Inr results, w)"
| "GithubService_enrich_loop tr repo (pr # rest) results w =
     (case GithubService_enrich_one tr repo pr w of
        (Inl e, w') \<Rightarrow> (Inl e, w')
      | (Inr enriched, w') \<Rightarrow> GithubService_enrich_loop tr repo rest (results @ [enriched]) w')"

definition GithubService_fetch_enriched_pull_requests ::
  "'s transport \<Rightarrow> string \<Rightarrow> 's world \<Rightarrow> (py_error + json list) \<times> 's world" where
  "GithubService_fetch_enriched_pull_requests tr repo w =
     (case GithubService_fetch_pull_requests tr repo ''open'' w of
        (Inl e, w1) \<Rightarrow> (Inl e, w1)
      | (Inr prs, w1) \<Rightarrow>
          (case bind_r (py_slice 50 prs) py_iter of
             Inl e \<Rightarrow> (Inl e, w1)
           | Inr items \<Rightarrow> GithubService_enrich_loop tr repo items [] w1))"

text \<open>
  The world in which the loop reaches its \<open>i\<close>-th PR, and the records it appends: one per
  PR, each made by \<^verbatim>\<open>try\<close>/\<^verbatim>\<open>except\<close> in the world the earlier PRs have left.
\<close>

fun GithubService_world_before ::
  "'s transport \<Rightarrow> string \<Rightarrow> json list \<Rightarrow> 's world \<Rightarrow> nat \<Rightarrow> 's world" where
  "GithubService_world_before tr repo [] w i = w"
| "GithubService_world_before tr repo (pr # rest) w 0 = w"
| "GithubService_world_before tr repo (pr # rest) w (Suc i) =
     GithubService_world_before tr repo rest (snd (GithubService_enrich_one tr repo pr w)) i"

definition GithubService_records ::
  "'s transport \<Rightarrow> string \<Rightarrow> json list \<Rightarrow> 's world \<Rightarrow> (py_error + json) list" where
  "GithubService_records tr repo items w =
     map (\<lambda>i. fst (GithubService_enrich_one tr repo (items ! i)
                     (GithubService_world_before tr repo items w i)))
       [0..<length items]"

section \<open>Enrichment in \<^verbatim>\<open>GitHubClient\<close>: thread pools\<close>

text \<open>
  The three fetches of a PR run in a pool and are joined by \<^verbatim>\<open>result()\<close>; the
  interleaving of their requests is not fixed. The model takes what the three futures
  deliver: \<^verbatim>\<open>fetch_pr_details\<close> and \<^verbatim>\<open>fetch_pr_reviews\<close> return or raise,
  \<^verbatim>\<open>fetch_check_runs\<close> returns a list.
\<close>

record futures =
  future_details :: "py_error + json"
  future_reviews :: "py_error + json"
  future_checks :: "check_run list"

definition GitHubClient_enrich_try :: "json \<Rightarrow> futures \<Rightarrow> py_error + json" where
  "GitHubClient_enrich_try pr fs =
     bind_r (subscript pr ''number'') (\<lambda>number.
     bind_r (head_sha pr) (\<lambda>sha.
     bind_r (future_details fs) (\<lambda>details.
     bind_r (future_reviews fs) (\<lambda>reviews.
       GitHubClient_derive details reviews (future_checks fs)))))"

definition GitHubClient_enrich_pr :: "json \<Rightarrow> futures \<Rightarrow> py_error + json" where
  "GitHubClient_enrich_pr pr fs =
     (case GitHubClient_enrich_try pr fs of
        Inr enriched \<Rightarrow> Inr enriched
      | Inl e \<Rightarrow> GitHubClient_fallback pr)"

text \<open>
  The pools. \<^verbatim>\<open>fetch_enriched_pull_requests\<close> submits one \<^verbatim>\<open>enrich_pr\<close> per PR of
  the subset, and each \<^verbatim>\<open>enrich_pr\<close> submits its three fetches: \<^verbatim>\<open>pr['number']\<close> is
  evaluated for the first two, \<^verbatim>\<open>pr['head']['sha']\<close> for the third, so a PR without a
  number submits nothing and a PR without a head commit submits two fetches. Every
  fetch is a run of the loop of \<^verbatim>\<open>_request\<close>, and the runs are concurrent: their
  transport calls interleave. A task is such a run, a turn is one pass through the loop,
  and the scheduler is a list of choices that says which unfinished task takes the next
  turn. Any list is a schedule, so a statement for all lists holds for every interleaving.
\<close>

datatype task = Running request bool int | Finished "py_error + json"

fun is_running :: "task \<Rightarrow> bool" where
  "is_running (Running rq is_text retries) = True"
| "is_running (Finished r) = False"

fun answer :: "task \<Rightarrow> py_error + json" where
  "answer (Finished r) = r"
| "answer (Running rq is_text retries) = Inr JNull"

fun GitHubClient_turn :: "'s transport \<Rightarrow> task \<Rightarrow> 's world \<Rightarrow> task \<times> 's world" where
  "GitHubClient_turn tr (Finished r) w = (Finished r, w)"
| "GitHubClient_turn tr (Running rq is_text retries) w =
     (if retries \<ge> 0 then
        (case send tr rq w of
           (out, w1) \<Rightarrow>
             (case GitHubClient_attempt is_text out of
                Inr v \<Rightarrow> (Finished (Inr v), w1)
              | Inl e \<Rightarrow>
                  if retries = 0 then (Finished (Inl e), w1)
                  else (Running rq is_text (retries - 1), sleep (2 - (retries - 1)) w1)))
      else (Finished (Inr JNull), w))"

fun turns_left :: "task \<Rightarrow> nat" where
  "turns_left (Running rq is_text retries) = 1 + nat (retries + 1)"
| "turns_left (Finished r) = 0"

definition running :: "task list \<Rightarrow> nat list" where
  "running tasks = filter (\<lambda>i. is_running (tasks ! i)) [0..<length tasks]"

definition next_choice :: "nat list \<Rightarrow> nat" where
  "next_choice choices = (case choices of [] \<Rightarrow> 0 | k # ks \<Rightarrow> k)"

definition chosen :: "nat list \<Rightarrow> task list \<Rightarrow> nat" where
  "chosen choices tasks = running tasks ! (next_choice choices mod length (running tasks))"

lemma turn_budget:
  assumes "running tasks \<noteq> []"
    and "GitHubClient_turn tr (tasks ! chosen choices tasks) w = (t, w')"
  shows "sum_list (map turns_left (tasks[chosen choices tasks := t])) < sum_list (map turns_left tasks)"
proof -
  let ?i = "chosen choices tasks"
  have "next_choice choices mod length (running tasks) < length (running tasks)"
    using assms(1) by simp
  then have "?i \<in> set (running tasks)" unfolding chosen_def by (rule nth_mem)
  then have i: "?i < length tasks" and r: "is_running (tasks ! ?i)"
    by (simp_all add: running_def)
  from r obtain rq is_text retries where run: "tasks ! ?i = Running rq is_text retries"
    by (cases "tasks ! ?i") simp_all
  have less: "turns_left t < turns_left (tasks ! ?i)"
    using assms(2) run by (auto split: if_splits prod.splits sum.splits)
  have "turns_left (tasks ! ?i) \<le> sum_list (map turns_left tasks)"
    using i by (simp add: member_le_sum_list)
  moreover have "sum_list (map turns_left (tasks[?i := t])) =
        sum_list (map turns_left tasks) + turns_left t - turns_left (tasks ! ?i)"
    using i by (simp add: map_update sum_list_update)
  ultimately show ?thesis using less by simp
qed

function run_pool ::
  "'s transport \<Rightarrow> nat list \<Rightarrow> task list \<Rightarrow> 's world \<Rightarrow> task list \<times> 's world" where
  "run_pool tr choices tasks w =
     (if running tasks = [] then (tasks, w)
      else (case GitHubClient_turn tr (tasks ! chosen choices tasks) w of
              (t, w') \<Rightarrow> run_pool tr (tl choices) (tasks[chosen choices tasks := t]) w'))"
  by pat_completeness auto
termination
  by (relation "measure (\<lambda>(tr, choices, tasks, w). sum_list (map turns_left tasks))")
     (auto intro: turn_budget [OF _ sym])

declare run_pool.simps [simp del]

text \<open>
  Bookkeeping for a pool: the calls a task may still make, the request it sends, and the
  events that only call requests of a given set.
\<close>

fun calls_left :: "task \<Rightarrow> nat" where
  "calls_left (Running rq is_text retries) = nat (retries + 1)"
| "calls_left (Finished r) = 0"

fun request_of :: "task \<Rightarrow> request set" where
  "request_of (Running rq is_text retries) = {rq}"
| "request_of (Finished r) = {}"

definition pool_events :: "request set \<Rightarrow> event list \<Rightarrow> bool" where
  "pool_events rqs evs \<longleftrightarrow>
     (\<forall>ev \<in> set evs. case ev of Call rq out \<Rightarrow> rq \<in> rqs | Sleep secs \<Rightarrow> True)"

text \<open>
  What a PR submits, and the join of its futures: the check-run future is
  \<^verbatim>\<open>fetch_check_runs\<close>, which turns a failed request or a malformed answer into the
  empty list. The futures of a PR that submitted fewer than three fetches are never read.
\<close>

definition GitHubClient_submissions :: "string \<Rightarrow> json \<Rightarrow> endpoint list" where
  "GitHubClient_submissions repo pr =
     (case subscript pr ''number'' of
        Inl e \<Rightarrow> []
      | Inr number \<Rightarrow>
          (case head_sha pr of
             Inl e \<Rightarrow> [PullDetails repo number, PullReviews repo number]
           | Inr sha \<Rightarrow> [PullDetails repo number, PullReviews repo number, CheckRuns repo sha]))"

definition get_task :: "endpoint \<Rightarrow> task" where
  "get_task ep = Running \<lparr>http_method = ''GET'', target = ep\<rparr> False 2"

definition GitHubClient_join :: "(py_error + json) list \<Rightarrow> futures" where
  "GitHubClient_join answers =
     (case answers of
        [details, reviews, checks] \<Rightarrow>
          \<lparr>future_details = details, future_reviews = reviews,
           future_checks = except_return [] (GitHubClient_check_runs_body checks)\<rparr>
      | _ \<Rightarrow> \<lparr>future_details = Inl KeyError, future_reviews = Inl KeyError, future_checks = []\<rparr>)"

fun chop :: "nat list \<Rightarrow> 'a list \<Rightarrow> 'a list list" where
  "chop [] xs = []"
| "chop (n # ns) xs = take n xs # chop ns (drop n xs)"

definition GitHubClient_pool ::
  "'s transport \<Rightarrow> string \<Rightarrow> nat list \<Rightarrow> json list \<Rightarrow> 's world \<Rightarrow> futures list \<times> 's world" where
  "GitHubClient_pool tr repo choices items w =
     (case run_pool tr choices
             (map get_task (concat (map (GitHubClient_submissions repo) items))) w of
        (finished, w') \<Rightarrow>
          (map GitHubClient_join
             (chop (map (\<lambda>pr. length (GitHubClient_submissions repo pr)) items)
                (map answer finished)),
           w'))"

text \<open>
  \<^verbatim>\<open>as_completed\<close> hands the records over in the order in which the futures finish,
  which the timing decides: \<open>order\<close> says where each record lands (position modulo the
  current length), so that every list \<open>order\<close> gives one arrangement and every arrangement
  comes from some list. A record that is an exception ends the collection.
\<close>

fun arrange :: "nat list \<Rightarrow> 'a list \<Rightarrow> 'a list" where
  "arrange ks [] = []"
| "arrange ks (x # xs) =
     (let rest = arrange (tl ks) xs; k = next_choice ks mod (length rest + 1)
      in take k rest @ x # drop k rest)"

definition GitHubClient_records ::
  "'s transport \<Rightarrow> string \<Rightarrow> nat list \<Rightarrow> json list \<Rightarrow> 's world \<Rightarrow> (py_error + json) list" where
  "GitHubClient_records tr repo choices items w =
     map (\<lambda>(pr, fs). GitHubClient_enrich_pr pr fs)
       (zip items (fst (GitHubClient_pool tr repo choices items w)))"

definition GitHubClient_fetch_pull_requests ::
  "'s transport \<Rightarrow> string \<Rightarrow> string \<Rightarrow> 's world \<Rightarrow> (py_error + json) \<times> 's world" where
  "GitHubClient_fetch_pull_requests tr repo state w =
     GitHubClient_request tr ''GET'' (Pulls repo state) False w"

definition GitHubClient_fetch_enriched_pull_requests ::
  "'s transport \<Rightarrow> string \<Rightarrow> nat list \<Rightarrow> nat list \<Rightarrow> 's world
     \<Rightarrow> (py_error + json list) \<times> 's world" where
  "GitHubClient_fetch_enriched_pull_requests tr repo choices order w =
     (case GitHubClient_fetch_pull_requests tr repo ''open'' w of
        (Inl e, w1) \<Rightarrow> (Inl e, w1)
      | (Inr prs, w1) \<Rightarrow>
          (case bind_r (py_slice 50 prs) py_iter of
             Inl e \<Rightarrow> (Inl e, w1)
           | Inr items \<Rightarrow>
               (traverse (\<lambda>r. r) (arrange order (GitHubClient_records tr repo choices items w1)),
                snd (GitHubClient_pool tr repo choices items w1))))"

text \<open>The requests that the PRs of a list submit.\<close>

definition enrichment_requests :: "string \<Rightarrow> json list \<Rightarrow> request set" where
  "enrichment_requests repo items =
     (\<lambda>ep. \<lparr>http_method = ''GET'', target = ep\<rparr>) `
       (\<Union>pr \<in> set items. set (GitHubClient_submissions repo pr))"

section \<open>Repository content and context\<close>

text \<open>
  \<^verbatim>\<open>base64.b64decode(c).decode('utf-8')\<close> is the library's; the model takes it as the
  parameter \<open>decoder\<close>, \<open>None\<close> where either step raises.
\<close>

definition b64_utf8 :: "(string \<Rightarrow> string option) \<Rightarrow> json \<Rightarrow> py_error + json" where
  "b64_utf8 decoder c =
     (case c of
        JStr s \<Rightarrow> (case decoder s of None \<Rightarrow> Inl DecodeError | Some t \<Rightarrow> Inr (JStr t))
      | _ \<Rightarrow> Inl TypeError)"

definition GithubService_content_body ::
  "(string \<Rightarrow> string option) \<Rightarrow> py_error + json \<Rightarrow> py_error + json" where
  "GithubService_content_body decoder response =
     bind_r response (\<lambda>data.
       if is_list data then Inr data
       else bind_r (get_attr data ''content'' JNull) (\<lambda>c.
         if \<not> truthy c then Inr data
         else bind_r (get_attr data ''encoding'' JNull) (\<lambda>enc.
           if enc = JStr ''base64''
           then bind_r (subscript data ''content'') (b64_utf8 decoder)
           else Inr data)))"

definition GithubService_fetch_repo_content ::
  "'s transport \<Rightarrow> (string \<Rightarrow> string option) \<Rightarrow> string \<Rightarrow> string \<Rightarrow> 's world \<Rightarrow> json \<times> 's world" where
  "GithubService_fetch_repo_content tr decoder repo path w =
     (case GithubService_request tr (Contents repo path) ''GET'' False w of
        (response, w') \<Rightarrow> (except_return JNull (GithubService_content_body decoder response), w'))"

definition GitHubClient_content_body ::
  "(string \<Rightarrow> string option) \<Rightarrow> py_error + json \<Rightarrow> py_error + json" where
  "GitHubClient_content_body decoder response =
     bind_r response (\<lambda>data.
       if \<not> is_dict data then Inr data
       else bind_r (contains ''content'' data) (\<lambda>has.
         if \<not> has then Inr data
         else bind_r (get_attr data ''encoding'' JNull) (\<lambda>enc.
           if enc = JStr ''base64''
           then bind_r (subscript data ''content'') (b64_utf8 decoder)
           else Inr data)))"

definition GitHubClient_fetch_repo_content ::
  "'s transport \<Rightarrow> (string \<Rightarrow> string option) \<Rightarrow> string \<Rightarrow> string \<Rightarrow> 's world \<Rightarrow> json \<times> 's world" where
  "GitHubClient_fetch_repo_content tr decoder repo path w =
     (case GitHubClient_request tr ''GET'' (Contents repo path) False w of
        (response, w') \<Rightarrow> (except_return JNull (GitHubClient_content_body decoder response), w'))"

record repo_context =
  fileList :: string
  readmeSnippet :: json
  packageJson :: json
  hasCI :: bool

text \<open>\<^verbatim>\<open>", ".join([f['path'] for f in root]) if isinstance(root, list) else 'unknown'\<close>\<close>

definition joined_paths :: "json \<Rightarrow> py_error + string" where
  "joined_paths root =
     (case root of
        JList fs \<Rightarrow> bind_r (traverse (\<lambda>f. subscript f ''path'') fs) (py_join '', '')
      | _ \<Rightarrow> Inr ''unknown'')"

text \<open>\<^verbatim>\<open>isinstance(ci, list) and len(ci) > 0\<close>\<close>

definition nonempty_list :: "json \<Rightarrow> bool" where
  "nonempty_list ci = (case ci of JList xs \<Rightarrow> length xs > 0 | _ \<Rightarrow> False)"

text \<open>\<^verbatim>\<open>GithubService.fetch_core_repo_context\<close>, statement by statement.\<close>

definition GithubService_file_list :: "py_error + json \<Rightarrow> string" where
  "GithubService_file_list response = except_return ''unknown'' (bind_r response joined_paths)"

definition GithubService_has_ci :: "py_error + json \<Rightarrow> bool" where
  "GithubService_has_ci response =
     except_return False (bind_r response (\<lambda>ci. Inr (nonempty_list ci)))"

definition GithubService_snippet :: "json \<Rightarrow> py_error + json" where
  "GithubService_snippet content = (if truthy content then py_slice 1500 content else Inr (JStr []))"

definition GithubService_fetch_core_repo_context ::
  "'s transport \<Rightarrow> (string \<Rightarrow> string option) \<Rightarrow> string \<Rightarrow> 's world
     \<Rightarrow> (py_error + repo_context) \<times> 's world" where
  "GithubService_fetch_core_repo_context tr decoder repo w =
     (case GithubService_request tr (Contents repo []) ''GET'' False w of
        (root, w1) \<Rightarrow>
     (case GithubService_fetch_repo_content tr decoder repo ''README.md'' w1 of
        (readme_content, w2) \<Rightarrow>
     (case GithubService_fetch_repo_content tr decoder repo ''package.json'' w2 of
        (package_content, w3) \<Rightarrow>
     (case GithubService_request tr (Contents repo ''.github/workflows'') ''GET'' False w3 of
        (ci, w4) \<Rightarrow>
          (bind_r (GithubService_snippet (py_or readme_content (JStr []))) (\<lambda>readme.
           bind_r (GithubService_snippet (py_or package_content (JStr []))) (\<lambda>package_json.
             Inr \<lparr>fileList = GithubService_file_list root,
                  readmeSnippet = readme,
                  packageJson = package_json,
                  hasCI = GithubService_has_ci ci\<rparr>)), w4)))))"

text \<open>
  \<^verbatim>\<open>GitHubClient.fetch_core_repo_context\<close>: four futures, each joined under its own
  \<^verbatim>\<open>try\<close>; the returned dict is built after the four joins, outside any \<^verbatim>\<open>try\<close>.
\<close>

definition GitHubClient_text_or_empty :: "py_error + json \<Rightarrow> json" where
  "GitHubClient_text_or_empty joined =
     except_return (JStr []) (bind_r joined (\<lambda>v. Inr (if is_str v then v else JStr [])))"

definition GitHubClient_snippet :: "json \<Rightarrow> json" where
  "GitHubClient_snippet content = (case content of JStr s \<Rightarrow> JStr (take 1500 s) | _ \<Rightarrow> JStr [])"

definition GitHubClient_fetch_core_repo_context ::
  "py_error + json \<Rightarrow> py_error + json \<Rightarrow> py_error + json \<Rightarrow> py_error + json
     \<Rightarrow> py_error + repo_context" where
  "GitHubClient_fetch_core_repo_context future_root future_readme future_pkg future_ci =
     (let root = except_return (JList []) future_root;
          readme = GitHubClient_text_or_empty future_readme;
          pkg = GitHubClient_text_or_empty future_pkg;
          ci = except_return (JList []) future_ci
      in bind_r (joined_paths root) (\<lambda>file_list.
           Inr \<lparr>fileList = file_list,
                readmeSnippet = GitHubClient_snippet readme,
                packageJson = GitHubClient_snippet pkg,
                hasCI = nonempty_list ci\<rparr>))"

section \<open>Session pages\<close>

text \<open>\<^verbatim>\<open>if 'sessions' in data: all_sessions.extend(data['sessions'])\<close>\<close>

definition extend_sessions :: "json list \<Rightarrow> json \<Rightarrow> py_error + json list" where
  "extend_sessions all_sessions data =
     bind_r (contains ''sessions'' data) (\<lambda>has.
       if has
       then bind_r (subscript data ''sessions'') (\<lambda>ss.
            bind_r (py_iter ss) (\<lambda>items. Inr (all_sessions @ items)))
       else Inr all_sessions)"

definition page_query :: "json \<Rightarrow> json option" where
  "page_query next_token = (if truthy next_token then Some next_token else None)"

text \<open>The \<^verbatim>\<open>while True\<close> loop of \<^verbatim>\<open>JulesService.list_sessions\<close>.\<close>

function list_sessions_loop ::
  "'s transport \<Rightarrow> json list \<Rightarrow> json \<Rightarrow> nat \<Rightarrow> 's world \<Rightarrow> (py_error + json list) \<times> 's world" where
  "list_sessions_loop tr all_sessions next_token pages w =
     (case JulesService_request tr (Sessions (page_query next_token)) ''GET'' w of
        (Inl e, w1) \<Rightarrow> (Inl e, w1)
      | (Inr data, w1) \<Rightarrow>
          (case extend_sessions all_sessions data of
             Inl e \<Rightarrow> (Inl e, w1)
           | Inr all_sessions' \<Rightarrow>
               (case get_attr data ''nextPageToken'' JNull of
                  Inl e \<Rightarrow> (Inl e, w1)
                | Inr next_token' \<Rightarrow>
                    if \<not> truthy next_token' \<or> pages + 1 \<ge> 5 then (Inr all_sessions', w1)
                    else list_sessions_loop tr all_sessions' next_token' (pages + 1) w1)))"
  by pat_completeness auto
termination
  by (relation "measure (\<lambda>(tr, all_sessions, next_token, pages, w). 5 - pages)") auto

declare list_sessions_loop.simps [simp del]

definition JulesService_list_sessions ::
  "'s transport \<Rightarrow> 's world \<Rightarrow> (py_error + json list) \<times> 's world" where
  "JulesService_list_sessions tr w = list_sessions_loop tr [] JNull 0 w"

section \<open>Pages of a run\<close>

text \<open>
  What a run added to the trace, the page a call of the run received, the
  \<^verbatim>\<open>sessions\<close> array of a page (empty when the key is absent) and whether a page
  carries a token that continues the loop.
\<close>

definition since :: "'s world \<Rightarrow> 's world \<Rightarrow> event list" where
  "since w w' = drop (length (trace w)) (trace w')"

definition page_of :: "event \<Rightarrow> json" where
  "page_of ev =
     (case ev of
        Call rq out \<Rightarrow> except_return JNull (JulesService_decode ''GET'' out)
      | Sleep secs \<Rightarrow> JNull)"

definition page_sessions :: "json \<Rightarrow> json list" where
  "page_sessions data = except_return [] (extend_sessions [] data)"

definition has_next :: "json \<Rightarrow> bool" where
  "has_next data = (case get_attr data ''nextPageToken'' JNull of Inl e \<Rightarrow> False | Inr t \<Rightarrow> truthy t)"

text \<open>A well-formed page: an ok response whose body is an object, its sessions a list if present.\<close>

definition session_page :: "response \<Rightarrow> bool" where
  "session_page r \<longleftrightarrow>
     ok r \<and>
     (case json_body r of
        Some (JDict d) \<Rightarrow> (case map_of d ''sessions'' of None \<Rightarrow> True | Some v \<Rightarrow> is_list v)
      | _ \<Rightarrow> False)"

definition pages_ok ::
  "nat \<Rightarrow> json list \<Rightarrow> py_error + json list \<Rightarrow> event list \<Rightarrow> bool" where
  "pages_ok budget acc res evs \<longleftrightarrow>
     evs \<noteq> [] \<and> length evs \<le> budget \<and> (\<forall>ev \<in> set evs. is_call ev) \<and>
     (\<forall>sessions. res = Inr sessions \<longrightarrow>
        sessions = acc @ concat (map (\<lambda>ev. page_sessions (page_of ev)) evs) \<and>
        (\<forall>i. Suc i < length evs \<longrightarrow> has_next (page_of (evs ! i))) \<and>
        (length evs < budget \<longrightarrow> \<not> has_next (page_of (last evs))))"

section \<open>Statements of the specification\<close>

text \<open>
  The test status in the specification's words: failed if any check run failed or timed
  out, else pending if any is not completed, else passed if there is one, else unknown.
\<close>

definition spec_test_status :: "check_run list \<Rightarrow> string" where
  "spec_test_status check_results =
     (if \<exists>r \<in> set check_results.
           run_conclusion r = JStr ''failure'' \<or> run_conclusion r = JStr ''timed_out''
      then ''failed''
      else if \<exists>r \<in> set check_results. run_status r \<noteq> JStr ''completed'' then ''pending''
      else if check_results \<noteq> [] then ''passed''
      else ''unknown'')"

text \<open>
  The message of an error response in the specification's words: the provider's
  \<^verbatim>\<open>message\<close> field when the body parses as a JSON object that has one, else the
  generic string.
\<close>

definition spec_message :: "response \<Rightarrow> json" where
  "spec_message r =
     (case json_body r of
        Some (JDict d) \<Rightarrow> (case map_of d ''message'' of Some m \<Rightarrow> m | None \<Rightarrow> generic_message r)
      | _ \<Rightarrow> generic_message r)"

text \<open>The classification as the specification words it: every status outside 2xx is an error.\<close>

definition claimed_check :: "response \<Rightarrow> py_error + unit" where
  "claimed_check r =
     (if status_code r = 429 \<or>
         (status_code r = 403 \<and> map_of (headers r) ''x-ratelimit-remaining'' = Some ''0'')
      then Inl (Exception (JStr ''GitHub API Rate Limit Exceeded.''))
      else if \<not> (200 \<le> status_code r \<and> status_code r < 300) then Inl (Exception (spec_message r))
      else Inr ())"

text \<open>The same with the error statuses the library reports: 400 to 599.\<close>

definition spec_check :: "response \<Rightarrow> py_error + unit" where
  "spec_check r =
     (if status_code r = 429 \<or>
         (status_code r = 403 \<and> map_of (headers r) ''x-ratelimit-remaining'' = Some ''0'')
      then Inl (Exception (JStr ''GitHub API Rate Limit Exceeded.''))
      else if 400 \<le> status_code r \<and> status_code r < 600 then Inl (Exception (spec_message r))
      else Inr ())"

text \<open>
  Approval in the specification's words: of the reviews of one login only the last in list
  order counts; the PR is approved iff the states that remain contain \<^verbatim>\<open>APPROVED\<close>
  and do not contain \<^verbatim>\<open>CHANGES_REQUESTED\<close>. An entry is a login (as a dict key) with
  the state of one review.
\<close>

definition last_for_login :: "(key \<times> json) list \<Rightarrow> nat \<Rightarrow> bool" where
  "last_for_login entries i \<longleftrightarrow>
     i < length entries \<and>
     (\<forall>j \<in> {i + 1 ..< length entries}. fst (entries ! j) \<noteq> fst (entries ! i))"

definition spec_final_states :: "(key \<times> json) list \<Rightarrow> json set" where
  "spec_final_states entries =
     (\<lambda>i. snd (entries ! i)) ` {i \<in> {0 ..< length entries}. last_for_login entries i}"

definition spec_is_approved :: "(key \<times> json) list \<Rightarrow> bool" where
  "spec_is_approved entries \<longleftrightarrow>
     JStr ''APPROVED'' \<in> spec_final_states entries \<and>
     JStr ''CHANGES_REQUESTED'' \<notin> spec_final_states entries"

text \<open>
  The projection of a provider check run in the specification's words: name, status,
  conclusion and url (the provider's \<^verbatim>\<open>html_url\<close>), null where the provider gives none.
\<close>

definition field :: "json \<Rightarrow> string \<Rightarrow> json" where
  "field run k = except_return JNull (get_attr run k JNull)"

definition spec_projection :: "json \<Rightarrow> check_run" where
  "spec_projection run =
     \<lparr>run_name = field run ''name'', run_status = field run ''status'',
      run_conclusion = field run ''conclusion'', run_url = field run ''html_url''\<rparr>"

definition complete_run :: "json \<Rightarrow> bool" where
  "complete_run run \<longleftrightarrow>
     (\<forall>k \<in> set [''name'', ''status'', ''conclusion'', ''html_url'']. \<exists>v. subscript run k = Inr v)"

text \<open>
  What an enriched record looks like when only the check runs are missing: status unknown,
  no check results, the four flags as in the record \<open>enriched\<close>.
\<close>

definition without_checks :: "json \<Rightarrow> json \<Rightarrow> bool" where
  "without_checks plain enriched \<longleftrightarrow>
     subscript plain ''testStatus'' = Inr (JStr ''unknown'') \<and>
     subscript plain ''checkResults'' = Inr (JList []) \<and>
     (\<forall>k \<in> set [''isApproved'', ''isBig'', ''isReadyToMerge'', ''isLeaderBranch''].
        subscript plain k = subscript enriched k)"

text \<open>
  The context in the specification's words. The text of a content fetch is the decoded
  string, empty when the fetch failed or gave no text; the file list is the paths joined
  by comma and space, a fixed word when the listing is not a list, and \<open>failed\<close> when the
  listing failed; there is CI when the workflow listing is a non-empty list.
\<close>

definition text_of :: "json \<Rightarrow> string" where
  "text_of v = (case v of JStr s \<Rightarrow> s | _ \<Rightarrow> [])"

definition path_text :: "json \<Rightarrow> string" where
  "path_text f = text_of (except_return JNull (subscript f ''path''))"

definition spec_file_list :: "string \<Rightarrow> py_error + json \<Rightarrow> string" where
  "spec_file_list failed root =
     (case root of
        Inl e \<Rightarrow> failed
      | Inr (JList fs) \<Rightarrow> intersperse '', '' (map path_text fs)
      | Inr _ \<Rightarrow> ''unknown'')"

definition spec_has_ci :: "py_error + json \<Rightarrow> bool" where
  "spec_has_ci ci = (case ci of Inr (JList xs) \<Rightarrow> xs \<noteq> [] | _ \<Rightarrow> False)"

text \<open>A listing whose entries all have a string path; a content that is text or nothing.\<close>

definition listing_ok :: "py_error + json \<Rightarrow> bool" where
  "listing_ok root =
     (case root of
        Inr (JList fs) \<Rightarrow> (\<forall>f \<in> set fs. \<exists>p. subscript f ''path'' = Inr (JStr p))
      | _ \<Rightarrow> True)"

definition text_or_none :: "json \<Rightarrow> bool" where
  "text_or_none v \<longleftrightarrow> is_str v \<or> v = JNull"

text \<open>
  A derivation completes when no statement between the fetches and the \<^verbatim>\<open>except\<close>
  raises. Details that let it complete: an object with a base ref that is a string and a
  \<^verbatim>\<open>changed_files\<close> that is an integer or absent.
\<close>

definition completes :: "py_error + 'a \<Rightarrow> bool" where
  "completes m = (case m of Inl e \<Rightarrow> False | Inr v \<Rightarrow> True)"

definition details_ok :: "json \<Rightarrow> bool" where
  "details_ok details \<longleftrightarrow>
     is_dict details \<and>
     (case bind_r (subscript details ''base'') (\<lambda>base. subscript base ''ref'') of
        Inr (JStr ref) \<Rightarrow> True
      | _ \<Rightarrow> False) \<and>
     (case get_attr details ''changed_files'' (JInt 0) of
        Inr (JInt n) \<Rightarrow> True
      | _ \<Rightarrow> False)"

text \<open>
  Approval as the claim words it, for every review list: each review counts with the login
  of its user and its state, read leniently (null where the review has none).
\<close>

definition claimed_entry :: "json \<Rightarrow> key \<times> json" where
  "claimed_entry r =
     (except_return KNone (hash_key (field (field r ''user'') ''login'')), field r ''state'')"

definition claimed_is_approved :: "json list \<Rightarrow> bool" where
  "claimed_is_approved reviews = spec_is_approved (map claimed_entry reviews)"

section \<open>Sample inputs\<close>

definition run_of :: "string \<Rightarrow> string \<Rightarrow> json \<Rightarrow> check_run" where
  "run_of n s c = \<lparr>run_name = JStr n, run_status = JStr s, run_conclusion = c, run_url = JNull\<rparr>"

definition mixed_runs :: "check_run list" where
  "mixed_runs =
     [run_of ''lint'' ''completed'' (JStr ''success''),
      run_of ''build'' ''in_progress'' JNull,
      run_of ''test'' ''completed'' (JStr ''timed_out'')]"

definition pr42 :: json where
  "pr42 = JDict [(''number'', JInt 42), (''head'', JDict [(''sha'', JStr ''abc'')])]"

definition details42 :: json where
  "details42 =
     JDict [(''number'', JInt 42), (''head'', JDict [(''sha'', JStr ''abc'')]),
            (''base'', JDict [(''ref'', JStr ''main'')]),
            (''mergeable'', JBool True), (''changed_files'', JInt 20)]"

definition review :: "string \<Rightarrow> string \<Rightarrow> json" where
  "review login state = JDict [(''user'', JDict [(''login'', JStr login)]), (''state'', JStr state)]"

definition details_null_files :: json where
  "details_null_files =
     JDict [(''number'', JInt 42), (''base'', JDict [(''ref'', JStr ''main'')]),
            (''mergeable'', JBool True), (''changed_files'', JNull)]"

definition server_error :: py_error where
  "server_error = Exception (JStr ''Error: 500'')"

definition redirect_response :: response where
  "redirect_response =
     \<lparr>status_code = 302, ok = True, headers = [], json_body = None, body_text = []\<rparr>"

definition not_found_response :: response where
  "not_found_response =
     \<lparr>status_code = 404, ok = False, headers = [],
      json_body = Some (JDict [(''message'', JStr ''Not Found'')]), body_text = []\<rparr>"

definition bad_gateway_response :: response where
  "bad_gateway_response =
     \<lparr>status_code = 502, ok = False, headers = [], json_body = None, body_text = ''<html>''\<rparr>"

definition out_of_service :: response where
  "out_of_service =
     \<lparr>status_code = 503, ok = False, headers = [], json_body = None, body_text = []\<rparr>"

definition details_response :: response where
  "details_response =
     \<lparr>status_code = 200, ok = True, headers = [],
      json_body = Some (JDict [(''number'', JInt 42)]), body_text = []\<rparr>"

definition get_details :: request where
  "get_details = \<lparr>http_method = ''GET'', target = PullDetails ''o/r'' (JInt 42)\<rparr>"

definition three_reviews :: "json list" where
  "three_reviews =
     [review ''A'' ''APPROVED'', review ''B'' ''APPROVED'', review ''A'' ''CHANGES_REQUESTED'']"

definition listing_response :: "json list \<Rightarrow> response" where
  "listing_response prs =
     \<lparr>status_code = 200, ok = True, headers = [], json_body = Some (JList prs), body_text = []\<rparr>"

text \<open>A transport that serves the PR listing and refuses every other request.\<close>

definition listing_only :: "json list \<Rightarrow> unit transport" where
  "listing_only prs rq s =
     (case target rq of
        Pulls repo state \<Rightarrow> (Responds (listing_response prs), s)
      | _ \<Rightarrow> (Fails ConnectionError, s))"

definition token_page :: response where
  "token_page =
     \<lparr>status_code = 200, ok = True, headers = [],
      json_body = Some (JDict [(''sessions'', JList [JStr ''s1'', JStr ''s2'']),
                               (''nextPageToken'', JStr ''t'')]),
      body_text = []\<rparr>"

definition final_page :: response where
  "final_page =
     \<lparr>status_code = 200, ok = True, headers = [],
      json_body = Some (JDict [(''sessions'', JList [JStr ''s3''])]), body_text = []\<rparr>"

text \<open>A provider that answers every request with a page that carries a token.\<close>

definition endless_pages :: "unit transport" where
  "endless_pages rq s = (Responds token_page, s)"

definition details_response42 :: response where
  "details_response42 =
     \<lparr>status_code = 200, ok = True, headers = [], json_body = Some details42, body_text = []\<rparr>"

definition reviews_response :: response where
  "reviews_response =
     \<lparr>status_code = 200, ok = True, headers = [],
      json_body = Some (JList [review ''bob'' ''APPROVED'']), body_text = []\<rparr>"

text \<open>
  A provider that serves the listing, the details and the reviews and fails on everything
  else, the check runs among it.
\<close>

definition no_check_runs :: "unit transport" where
  "no_check_runs rq s =
     (case target rq of
        Pulls repo state \<Rightarrow> (Responds (listing_response [pr42]), s)
      | PullDetails repo number \<Rightarrow> (Responds details_response42, s)
      | PullReviews repo number \<Rightarrow> (Responds reviews_response, s)
      | _ \<Rightarrow> (Fails ConnectionError, s))"

definition provider_run :: json where
  "provider_run =
     JDict [(''id'', JInt 7), (''name'', JStr ''ci''), (''status'', JStr ''completed''),
            (''conclusion'', JStr ''success''), (''html_url'', JStr ''https://ci/7'')]"

definition check_runs_response :: response where
  "check_runs_response =
     \<lparr>status_code = 200, ok = True, headers = [],
      json_body = Some (JDict [(''total_count'', JInt 1), (''check_runs'', JList [provider_run])]),
      body_text = []\<rparr>"

text \<open>A provider that answers every request with one completed check run.\<close>

definition one_check_run :: "unit transport" where
  "one_check_run rq s = (Responds check_runs_response, s)"

definition readme_response :: response where
  "readme_response =
     \<lparr>status_code = 200, ok = True, headers = [],
      json_body = Some (JDict [(''type'', JStr ''file''), (''encoding'', JStr ''base64''),
                               (''content'', JStr ''YWFh'')]),
      body_text = []\<rparr>"

definition large_file_response :: response where
  "large_file_response =
     \<lparr>status_code = 200, ok = True, headers = [],
      json_body = Some (JDict [(''type'', JStr ''file''), (''encoding'', JStr ''none''),
                               (''content'', JStr [])]),
      body_text = []\<rparr>"

definition workflows_response :: response where
  "workflows_response =
     \<lparr>status_code = 200, ok = True, headers = [],
      json_body = Some (JList [JDict [(''path'', JStr ''.github/workflows/ci.yml'')]]),
      body_text = []\<rparr>"

text \<open>
  A provider whose root listing and package manifest fail, with a README and a workflow;
  and one whose README is too large to be sent inline. A decoder that yields 2000
  characters.
\<close>

definition partial_repo :: "unit transport" where
  "partial_repo rq s =
     (case target rq of
        Contents repo path \<Rightarrow>
          (if path = ''README.md'' then (Responds readme_response, s)
           else if path = ''.github/workflows'' then (Responds workflows_response, s)
           else (Fails ConnectionError, s))
      | _ \<Rightarrow> (Fails ConnectionError, s))"

definition large_readme_repo :: "unit transport" where
  "large_readme_repo rq s =
     (case target rq of
        Contents repo path \<Rightarrow>
          (if path = ''README.md'' then (Responds large_file_response, s)
           else (Fails ConnectionError, s))
      | _ \<Rightarrow> (Fails ConnectionError, s))"

definition long_decoder :: "string \<Rightarrow> string option" where
  "long_decoder c = Some (replicate 2000 (CHR ''a''))"

definition failing_run :: json where
  "failing_run =
     JDict [(''id'', JInt 8), (''name'', JStr ''test''), (''status'', JStr ''completed''),
            (''conclusion'', JStr ''failure''), (''html_url'', JStr ''https://ci/8'')]"

definition failing_checks_response :: response where
  "failing_checks_response =
     \<lparr>status_code = 200, ok = True, headers = [],
      json_body = Some (JDict [(''total_count'', JInt 2),
                               (''check_runs'', JList [provider_run, failing_run])]),
      body_text = []\<rparr>"

definition ghost_review :: json where
  "ghost_review = JDict [(''user'', JNull), (''state'', JStr ''COMMENTED'')]"

definition ghost_reviews_response :: response where
  "ghost_reviews_response =
     \<lparr>status_code = 200, ok = True, headers = [],
      json_body = Some (JList [review ''A'' ''APPROVED'', ghost_review]), body_text = []\<rparr>"

text \<open>
  A provider that answers every request of the enrichment with status 200: one open PR,
  its details, a failed check run beside a successful one, and reviews. In the first the
  reviews are well formed; in the second one review comes from a deleted account, whose
  \<^verbatim>\<open>user\<close> is null.
\<close>

definition healthy_repo :: "unit transport" where
  "healthy_repo rq s =
     (case target rq of
        Pulls repo state \<Rightarrow> (Responds (listing_response [pr42]), s)
      | PullDetails repo number \<Rightarrow> (Responds details_response42, s)
      | PullReviews repo number \<Rightarrow> (Responds reviews_response, s)
      | CheckRuns repo ref \<Rightarrow> (Responds failing_checks_response, s)
      | _ \<Rightarrow> (Fails ConnectionError, s))"

definition ghost_repo :: "unit transport" where
  "ghost_repo rq s =
     (case target rq of
        Pulls repo state \<Rightarrow> (Responds (listing_response [pr42]), s)
      | PullDetails repo number \<Rightarrow> (Responds details_response42, s)
      | PullReviews repo number \<Rightarrow> (Responds ghost_reviews_response, s)
      | CheckRuns repo ref \<Rightarrow> (Responds failing_checks_response, s)
      | _ \<Rightarrow> (Fails ConnectionError, s))"

text \<open>Sixty open PRs, numbered from 1, all at the same commit.\<close>

definition numbered_pr :: "nat \<Rightarrow> json" where
  "numbered_pr n = JDict [(''number'', JInt (int n)), (''head'', JDict [(''sha'', JStr ''abc'')])]"

definition sixty_prs :: "json list" where
  "sixty_prs = map numbered_pr [1..<61]"

section \<open>Basic facts\<close>

lemma bind_r_Inl [simp]: "bind_r (Inl e) f = Inl e"
  by (simp add: bind_r_def)

lemma bind_r_Inr [simp]: "bind_r (Inr x) f = f x"
  by (simp add: bind_r_def)

lemma bind_r_eq_Inr: "bind_r m f = Inr y \<longleftrightarrow> (\<exists>x. m = Inr x \<and> f x = Inr y)"
  by (cases m) simp_all

lemma except_return_Inl [simp]: "except_return dflt (Inl e) = dflt"
  by (simp add: except_return_def)

lemma except_return_Inr [simp]: "except_return dflt (Inr v) = v"
  by (simp add: except_return_def)

lemma filter_nonempty: "0 < length (filter P xs) \<longleftrightarrow> (\<exists>x \<in> set xs. P x)"
  by (simp add: filter_empty_conv)

section \<open>The test status\<close>

lemma test_status_spec: "test_status check_results = spec_test_status check_results"
  unfolding test_status_def spec_test_status_def Let_def filter_nonempty by simp

lemma derive_test_status:
  assumes "derive big details reviews check_results = Inr enriched"
  shows "subscript enriched ''testStatus'' = Inr (JStr (test_status check_results))"
  using assms by (auto simp: derive_def bind_r_eq_Inr overlay_def update_conv')

section \<open>The degraded record\<close>

lemma GithubService_fallback_fields:
  "GithubService_fallback (JDict d) = Inr enriched \<Longrightarrow>
     subscript enriched ''testStatus'' = Inr (JStr ''unknown'') \<and>
     subscript enriched ''checkResults'' = Inr (JList []) \<and>
     subscript enriched ''isApproved'' = Inr (JBool False) \<and>
     subscript enriched ''isBig'' = Inr (JBool False) \<and>
     subscript enriched ''isReadyToMerge'' = Inr (JBool False) \<and>
     subscript enriched ''isLeaderBranch'' = Inr (JBool False)"
  by (auto simp: GithubService_fallback_def spread_def overlay_def update_conv')

text \<open>
  C2. At a PR whose detail fetch raises, \<^verbatim>\<open>GitHubClient.fetch_enriched_pull_requests\<close>
  returns the PR's fields with five defaults and no \<^verbatim>\<open>checkResults\<close> key at all,
  where the claim (and the \<^verbatim>\<open>except\<close> branch of \<^verbatim>\<open>GithubService\<close>) has
  \<^verbatim>\<open>checkResults = []\<close>.
\<close>

theorem GitHubClient_fallback_lacks_checkResults:
  "GitHubClient_enrich_pr pr42
     \<lparr>future_details = Inl server_error, future_reviews = Inr (JList []), future_checks = []\<rparr> =
     Inr (JDict
       [(''number'', JInt 42), (''head'', JDict [(''sha'', JStr ''abc'')]),
        (''testStatus'', JStr ''unknown''), (''isApproved'', JBool False),
        (''isBig'', JBool False), (''isReadyToMerge'', JBool False),
        (''isLeaderBranch'', JBool False)]) \<and>
   subscript (JDict
       [(''number'', JInt 42), (''head'', JDict [(''sha'', JStr ''abc'')]),
        (''testStatus'', JStr ''unknown''), (''isApproved'', JBool False),
        (''isBig'', JBool False), (''isReadyToMerge'', JBool False),
        (''isLeaderBranch'', JBool False)]) ''checkResults'' = Inl KeyError \<and>
   GithubService_fallback pr42 =
     Inr (JDict
       [(''number'', JInt 42), (''head'', JDict [(''sha'', JStr ''abc'')]),
        (''testStatus'', JStr ''unknown''), (''checkResults'', JList []),
        (''isApproved'', JBool False), (''isBig'', JBool False),
        (''isReadyToMerge'', JBool False), (''isLeaderBranch'', JBool False)])"
  by (simp add: GitHubClient_enrich_pr_def GitHubClient_enrich_try_def pr42_def head_sha_def
      GitHubClient_fallback_def GithubService_fallback_def spread_def overlay_def)

section \<open>Big pull requests\<close>

lemma GithubService_is_big_missing:
  "map_of d ''changed_files'' = None \<or> map_of d ''changed_files'' = Some JNull \<Longrightarrow>
     GithubService_is_big (JDict d) = Inr False"
  by (auto simp: GithubService_is_big_def py_or_def)

lemma GithubService_is_big_int:
  "map_of d ''changed_files'' = Some (JInt n) \<Longrightarrow> GithubService_is_big (JDict d) = Inr (15 < n)"
  by (auto simp: GithubService_is_big_def py_or_def)

lemma GitHubClient_is_big_missing:
  "map_of d ''changed_files'' = None \<Longrightarrow> GitHubClient_is_big (JDict d) = Inr False"
  by (simp add: GitHubClient_is_big_def)

lemma GitHubClient_is_big_int:
  "map_of d ''changed_files'' = Some (JInt n) \<Longrightarrow> GitHubClient_is_big (JDict d) = Inr (15 < n)"
  by (simp add: GitHubClient_is_big_def)

text \<open>
  C5. On a fetched detail record whose \<^verbatim>\<open>changed_files\<close> is null,
  \<^verbatim>\<open>GitHubClient\<close> compares \<^verbatim>\<open>None > 15\<close>, which raises: the PR gets the degraded
  record (not ready to merge, not on a leader branch) although its details say otherwise.
  \<^verbatim>\<open>GithubService\<close>, with \<^verbatim>\<open>or 0\<close>, enriches the same input and reports it not big.
\<close>

theorem GitHubClient_null_changed_files_degrades:
  "GitHubClient_is_big details_null_files = Inl TypeError \<and>
   GitHubClient_enrich_pr pr42
     \<lparr>future_details = Inr details_null_files, future_reviews = Inr (JList []),
      future_checks = []\<rparr> =
     Inr (JDict
       [(''number'', JInt 42), (''head'', JDict [(''sha'', JStr ''abc'')]),
        (''testStatus'', JStr ''unknown''), (''isApproved'', JBool False),
        (''isBig'', JBool False), (''isReadyToMerge'', JBool False),
        (''isLeaderBranch'', JBool False)]) \<and>
   GithubService_derive details_null_files (JList []) [] =
     Inr (JDict
       [(''number'', JInt 42), (''base'', JDict [(''ref'', JStr ''main'')]),
        (''mergeable'', JBool True), (''changed_files'', JNull),
        (''testStatus'', JStr ''unknown''), (''checkResults'', JList []),
        (''isApproved'', JBool False), (''isBig'', JBool False),
        (''isReadyToMerge'', JBool True), (''isLeaderBranch'', JBool True)])"
  by (simp add: GitHubClient_enrich_pr_def GitHubClient_enrich_try_def pr42_def head_sha_def
      GitHubClient_fallback_def GitHubClient_derive_def GithubService_derive_def derive_def
      details_null_files_def is_approved_def approved_states_def spread_def
      GitHubClient_is_big_def GithubService_is_big_def py_or_def is_ready_to_merge_def
      is_leader_branch_def lower_char_def test_status_def overlay_def)

section \<open>Failure classification of a response\<close>

lemma in_keys_map_of: "k \<in> fst ` set d \<longleftrightarrow> map_of d k \<noteq> None"
  by (simp add: map_of_eq_None_iff)

lemma GithubService_error_message_spec: "GithubService_error_message r = spec_message r"
proof (cases "json_body r")
  case None
  then show ?thesis by (simp add: GithubService_error_message_def spec_message_def)
next
  case (Some error_body)
  then show ?thesis
    by (cases error_body)
       (auto simp: GithubService_error_message_def spec_message_def in_keys_map_of
             split: option.splits bool.splits)
qed

lemma GitHubClient_error_message_spec: "GitHubClient_error_message r = spec_message r"
proof (cases "json_body r")
  case None
  then show ?thesis by (simp add: GitHubClient_error_message_def spec_message_def)
next
  case (Some error_body)
  then show ?thesis
    by (cases error_body)
       (auto simp: GitHubClient_error_message_def spec_message_def split: option.splits)
qed

lemma str_int_302: "str_int 302 = ''302''"
  by code_simp

lemma str_int_502: "str_int 502 = ''502''"
  by code_simp

text \<open>
  C6, as stated, fails at a 302 response: the library reports it as ok, so neither
  service raises, while the claim has every status outside 2xx raise.
\<close>

theorem redirect_is_not_an_error:
  "library_response redirect_response \<and>
   GithubService_check redirect_response = Inr () \<and>
   GitHubClient_check redirect_response = Inr () \<and>
   claimed_check redirect_response = Inl (Exception (JStr ''Error: 302''))"
  by (simp add: library_response_def requests_ok_def redirect_response_def rate_limited_def
      GithubService_check_def GitHubClient_check_def claimed_check_def spec_message_def
      generic_message_def str_int_302)

text \<open>
  C6, amended. For every response as the library builds it, both services classify
  before anything else: status 429, or 403 with the header
  \<^verbatim>\<open>x-ratelimit-remaining\<close> equal to \<^verbatim>\<open>0\<close>, raises the fixed rate-limit error;
  every other status from 400 to 599 raises an error carrying the \<^verbatim>\<open>message\<close> field
  of the body when the body parses as a JSON object with that field, and
  \<^verbatim>\<open>Error: <status>\<close> otherwise; every other status (2xx, and 1xx and 3xx as well)
  raises nothing.
\<close>

theorem failure_classification:
  assumes "library_response r"
  shows "GithubService_check r = spec_check r \<and> GitHubClient_check r = spec_check r"
  using assms
  by (auto simp: GithubService_check_def GitHubClient_check_def spec_check_def rate_limited_def
      rate_limit_error_def library_response_def requests_ok_def
      GithubService_error_message_spec GitHubClient_error_message_spec)

theorem failure_classification_witness:
  "library_response not_found_response \<and>
   GithubService_check not_found_response = Inl (Exception (JStr ''Not Found'')) \<and>
   GitHubClient_check not_found_response = Inl (Exception (JStr ''Not Found'')) \<and>
   library_response bad_gateway_response \<and>
   GithubService_check bad_gateway_response = Inl (Exception (JStr ''Error: 502'')) \<and>
   GitHubClient_check bad_gateway_response = Inl (Exception (JStr ''Error: 502''))"
proof -
  have a: "library_response not_found_response"
    by (simp add: library_response_def requests_ok_def not_found_response_def)
  have b: "library_response bad_gateway_response"
    by (simp add: library_response_def requests_ok_def bad_gateway_response_def)
  have sa: "spec_check not_found_response = Inl (Exception (JStr ''Not Found''))"
    by (simp add: spec_check_def spec_message_def not_found_response_def)
  have sb: "spec_check bad_gateway_response = Inl (Exception (JStr ''Error: 502''))"
    by (simp add: spec_check_def spec_message_def bad_gateway_response_def generic_message_def
        str_int_502)
  from failure_classification [OF a] failure_classification [OF b] a b sa sb
  show ?thesis by simp
qed

section \<open>The retry loop\<close>

lemma attempts_send:
  "send tr rq w = (out, w') \<Longrightarrow> attempts w' = Suc (attempts w)"
  by (auto simp: send_def attempts_def split: prod.splits)

lemma trace_send:
  "send tr rq w = (out, w') \<Longrightarrow> trace w' = trace w @ [Call rq out]"
  by (auto simp: send_def split: prod.splits)

lemma attempts_sleep [simp]: "attempts (sleep secs w) = attempts w"
  by (simp add: sleep_def attempts_def)

lemma trace_sleep [simp]: "trace (sleep secs w) = trace w @ [Sleep secs]"
  by (simp add: sleep_def)

lemma retry_attempts:
  "- 1 \<le> retries \<Longrightarrow>
     attempts (snd (GitHubClient_retry tr rq is_text retries w)) \<le> attempts w + nat (retries + 1)"
proof (induction tr rq is_text retries w rule: GitHubClient_retry.induct)
  case (1 tr rq is_text retries w)
  show ?case
  proof (cases "retries \<ge> 0")
    case False
    then show ?thesis by simp
  next
    case True
    obtain out w1 where s: "send tr rq w = (out, w1)" by (cases "send tr rq w")
    have a1: "attempts w1 = Suc (attempts w)" using attempts_send [OF s] .
    show ?thesis
    proof (cases "GitHubClient_attempt is_text out")
      case (Inr v)
      with True s a1 show ?thesis by simp
    next
      case (Inl e)
      show ?thesis
      proof (cases "retries = 0")
        case True
        with s a1 Inl show ?thesis by simp
      next
        case False
        with True have "- 1 \<le> retries - 1" by simp
        from "1.IH" [OF True s [symmetric] Inl False this]
        have "attempts (snd (GitHubClient_retry tr rq is_text (retries - 1) (sleep (2 - (retries - 1)) w1)))
                \<le> attempts w1 + nat (retries - 1 + 1)"
          by simp
        with True False s a1 Inl show ?thesis
          by (simp add: nat_diff_distrib)
      qed
    qed
  qed
qed

text \<open>
  C3. \<^verbatim>\<open>GitHubClient._request\<close> calls the transport at most three times. When the
  first two attempts fail (the transport raises, the response is classified as an error,
  or its body does not parse), the outcome of the third attempt is the outcome of the
  request, its value or its error; the program has then slept 1 second before the second
  attempt and 2 seconds before the third, and nothing follows the third call.
\<close>

theorem retry_policy:
  "attempts (snd (GitHubClient_request tr method ep is_text w)) \<le> attempts w + 3 \<and>
   (\<forall>o1 w1 e1 o2 w2 e2 o3 w3.
      send tr \<lparr>http_method = method, target = ep\<rparr> w = (o1, w1) \<and>
      GitHubClient_attempt is_text o1 = Inl e1 \<and>
      send tr \<lparr>http_method = method, target = ep\<rparr> (sleep 1 w1) = (o2, w2) \<and>
      GitHubClient_attempt is_text o2 = Inl e2 \<and>
      send tr \<lparr>http_method = method, target = ep\<rparr> (sleep 2 w2) = (o3, w3) \<longrightarrow>
      GitHubClient_request tr method ep is_text w = (GitHubClient_attempt is_text o3, w3) \<and>
      trace w3 =
        trace w @ [Call \<lparr>http_method = method, target = ep\<rparr> o1, Sleep 1,
                   Call \<lparr>http_method = method, target = ep\<rparr> o2, Sleep 2,
                   Call \<lparr>http_method = method, target = ep\<rparr> o3])"
proof (intro conjI allI impI)
  show "attempts (snd (GitHubClient_request tr method ep is_text w)) \<le> attempts w + 3"
    using retry_attempts [of 2 tr "\<lparr>http_method = method, target = ep\<rparr>" is_text w]
    by (simp add: GitHubClient_request_def)
next
  fix o1 w1 e1 o2 w2 e2 o3 w3
  assume h: "send tr \<lparr>http_method = method, target = ep\<rparr> w = (o1, w1) \<and>
      GitHubClient_attempt is_text o1 = Inl e1 \<and>
      send tr \<lparr>http_method = method, target = ep\<rparr> (sleep 1 w1) = (o2, w2) \<and>
      GitHubClient_attempt is_text o2 = Inl e2 \<and>
      send tr \<lparr>http_method = method, target = ep\<rparr> (sleep 2 w2) = (o3, w3)"
  have third: "GitHubClient_retry tr \<lparr>http_method = method, target = ep\<rparr> is_text 0 (sleep 2 w2)
          = (GitHubClient_attempt is_text o3, w3)"
    using h by (cases "GitHubClient_attempt is_text o3") simp_all
  have second: "GitHubClient_retry tr \<lparr>http_method = method, target = ep\<rparr> is_text 1 (sleep 1 w1)
          = (GitHubClient_attempt is_text o3, w3)"
    using h third by (subst GitHubClient_retry.simps) simp
  show "GitHubClient_request tr method ep is_text w = (GitHubClient_attempt is_text o3, w3)"
    unfolding GitHubClient_request_def
    using h second by (subst GitHubClient_retry.simps) simp
  show "trace w3 =
        trace w @ [Call \<lparr>http_method = method, target = ep\<rparr> o1, Sleep 1,
                   Call \<lparr>http_method = method, target = ep\<rparr> o2, Sleep 2,
                   Call \<lparr>http_method = method, target = ep\<rparr> o3]"
    using h by (auto dest!: trace_send)
qed

lemma send_scripted:
  "send scripted rq \<lparr>net = out # rest, trace = t\<rparr> = (out, \<lparr>net = rest, trace = t @ [Call rq out]\<rparr>)"
  by (simp add: send_def scripted_def)

lemma sleep_world: "sleep secs \<lparr>net = s, trace = t\<rparr> = \<lparr>net = s, trace = t @ [Sleep secs]\<rparr>"
  by (simp add: sleep_def)

theorem retry_policy_witness:
  "GitHubClient_request scripted ''GET'' (PullDetails ''o/r'' (JInt 42)) False
     (start [Fails ConnectionError, Responds out_of_service, Responds details_response]) =
     (Inr (JDict [(''number'', JInt 42)]),
      \<lparr>net = [],
       trace = [Call get_details (Fails ConnectionError), Sleep 1,
                Call get_details (Responds out_of_service), Sleep 2,
                Call get_details (Responds details_response)]\<rparr>) \<and>
   GitHubClient_request scripted ''GET'' (PullDetails ''o/r'' (JInt 42)) False
     (start [Fails ConnectionError, Responds out_of_service, Responds out_of_service,
             Responds details_response]) =
     (Inl (Exception (JStr ''Error: 503'')),
      \<lparr>net = [Responds details_response],
       trace = [Call get_details (Fails ConnectionError), Sleep 1,
                Call get_details (Responds out_of_service), Sleep 2,
                Call get_details (Responds out_of_service)]\<rparr>)"
proof -
  have e503: "GitHubClient_decode False out_of_service = Inl (Exception (JStr ''Error: 503''))"
    by code_simp
  have v200: "GitHubClient_decode False details_response = Inr (JDict [(''number'', JInt 42)])"
    by code_simp
  note ev = start_def send_scripted sleep_world get_details_def [symmetric] e503 v200
  from retry_policy [of scripted "''GET''" "PullDetails ''o/r'' (JInt 42)" False
      "start [Fails ConnectionError, Responds out_of_service, Responds details_response]"]
  have a: "GitHubClient_request scripted ''GET'' (PullDetails ''o/r'' (JInt 42)) False
     (start [Fails ConnectionError, Responds out_of_service, Responds details_response]) =
     (Inr (JDict [(''number'', JInt 42)]),
      \<lparr>net = [],
       trace = [Call get_details (Fails ConnectionError), Sleep 1,
                Call get_details (Responds out_of_service), Sleep 2,
                Call get_details (Responds details_response)]\<rparr>)"
    by (simp add: ev)
  from retry_policy [of scripted "''GET''" "PullDetails ''o/r'' (JInt 42)" False
      "start [Fails ConnectionError, Responds out_of_service, Responds out_of_service,
             Responds details_response]"]
  have b: "GitHubClient_request scripted ''GET'' (PullDetails ''o/r'' (JInt 42)) False
     (start [Fails ConnectionError, Responds out_of_service, Responds out_of_service,
             Responds details_response]) =
     (Inl (Exception (JStr ''Error: 503'')),
      \<lparr>net = [Responds details_response],
       trace = [Call get_details (Fails ConnectionError), Sleep 1,
                Call get_details (Responds out_of_service), Sleep 2,
                Call get_details (Responds out_of_service)]\<rparr>)"
    by (simp add: ev)
  from a b show ?thesis by simp
qed

section \<open>Approval\<close>

lemma latest_reviews_foldl:
  "traverse review_entry rs = Inr es \<Longrightarrow>
     latest_reviews_by_user acc rs = Inr (foldl (\<lambda>a e. AList.update (fst e) (snd e) a) acc es)"
proof (induction rs arbitrary: acc es)
  case Nil
  then show ?case by simp
next
  case (Cons r rs)
  then show ?case
    by (auto simp: bind_r_eq_Inr)
qed

lemma foldl_update_distinct:
  "distinct (map fst acc) \<Longrightarrow>
     distinct (map fst (foldl (\<lambda>a e. AList.update (fst e) (snd e) a) acc es))"
  by (induction es arbitrary: acc) (simp_all add: distinct_update)

lemma foldl_update_map_of:
  "map_of (foldl (\<lambda>a e. AList.update (fst e) (snd e) a) acc es) = map_of acc ++ map_of (rev es)"
proof (induction es arbitrary: acc)
  case Nil
  then show ?case by simp
next
  case (Cons e es)
  have "map_of (AList.update (fst e) (snd e) acc) ++ map_of (rev es)
          = map_of acc ++ (map_of [e] ++ map_of (rev es))"
    by (cases e) (simp add: update_conv' fun_eq_iff map_add_def split: option.splits)
  with Cons show ?case by simp
qed

lemma map_of_rev_last:
  "map_of (rev es) k = Some v \<longleftrightarrow>
     (\<exists>i<length es. es ! i = (k, v) \<and> (\<forall>j. i < j \<and> j < length es \<longrightarrow> fst (es ! j) \<noteq> k))"
proof (induction es rule: rev_induct)
  case Nil
  then show ?case by simp
next
  case (snoc e es)
  show ?case
  proof (cases "fst e = k")
    case True
    have "(\<exists>i<length (es @ [e]). (es @ [e]) ! i = (k, v) \<and>
            (\<forall>j. i < j \<and> j < length (es @ [e]) \<longrightarrow> fst ((es @ [e]) ! j) \<noteq> k))
          \<longleftrightarrow> e = (k, v)"
    proof
      assume "\<exists>i<length (es @ [e]). (es @ [e]) ! i = (k, v) \<and>
            (\<forall>j. i < j \<and> j < length (es @ [e]) \<longrightarrow> fst ((es @ [e]) ! j) \<noteq> k)"
      then obtain i where i: "i < length (es @ [e])" "(es @ [e]) ! i = (k, v)"
        "\<forall>j. i < j \<and> j < length (es @ [e]) \<longrightarrow> fst ((es @ [e]) ! j) \<noteq> k" by blast
      have "i = length es"
      proof (rule ccontr)
        assume "i \<noteq> length es"
        with i(1) have "i < length es" by simp
        with i(3) [rule_format, of "length es"] have "fst ((es @ [e]) ! length es) \<noteq> k" by simp
        with True show False by simp
      qed
      with i(2) show "e = (k, v)" by simp
    next
      assume "e = (k, v)"
      then show "\<exists>i<length (es @ [e]). (es @ [e]) ! i = (k, v) \<and>
            (\<forall>j. i < j \<and> j < length (es @ [e]) \<longrightarrow> fst ((es @ [e]) ! j) \<noteq> k)"
        by (intro exI [of _ "length es"]) auto
    qed
    with True show ?thesis by (cases e) auto
  next
    case False
    have "(\<exists>i<length (es @ [e]). (es @ [e]) ! i = (k, v) \<and>
            (\<forall>j. i < j \<and> j < length (es @ [e]) \<longrightarrow> fst ((es @ [e]) ! j) \<noteq> k))
          \<longleftrightarrow> (\<exists>i<length es. es ! i = (k, v) \<and>
            (\<forall>j. i < j \<and> j < length es \<longrightarrow> fst (es ! j) \<noteq> k))"
      (is "?L \<longleftrightarrow> ?R")
    proof
      assume ?L
      then obtain i where i: "i < length (es @ [e])" "(es @ [e]) ! i = (k, v)"
        "\<forall>j. i < j \<and> j < length (es @ [e]) \<longrightarrow> fst ((es @ [e]) ! j) \<noteq> k" by blast
      have "i \<noteq> length es" using i(2) False by auto
      with i(1) have il: "i < length es" by simp
      with i(2) have "es ! i = (k, v)" by (simp add: nth_append)
      moreover have "\<forall>j. i < j \<and> j < length es \<longrightarrow> fst (es ! j) \<noteq> k"
      proof (intro allI impI)
        fix j assume j: "i < j \<and> j < length es"
        with i(3) have "fst ((es @ [e]) ! j) \<noteq> k" by simp
        with j show "fst (es ! j) \<noteq> k" by (simp add: nth_append)
      qed
      ultimately show ?R using il by blast
    next
      assume ?R
      then obtain i where i: "i < length es" "es ! i = (k, v)"
        "\<forall>j. i < j \<and> j < length es \<longrightarrow> fst (es ! j) \<noteq> k" by blast
      have "\<forall>j. i < j \<and> j < length (es @ [e]) \<longrightarrow> fst ((es @ [e]) ! j) \<noteq> k"
      proof (intro allI impI)
        fix j assume j: "i < j \<and> j < length (es @ [e])"
        show "fst ((es @ [e]) ! j) \<noteq> k"
        proof (cases "j = length es")
          case True
          with False show ?thesis by simp
        next
          case False
          with j have "j < length es" by simp
          with i(3) j show ?thesis by (simp add: nth_append)
        qed
      qed
      with i(1,2) show ?L by (intro exI [of _ i]) (simp add: nth_append)
    qed
    with False snoc show ?thesis by (cases e) auto
  qed
qed

lemma ran_rev_final_states: "ran (map_of (rev es)) = spec_final_states es"
proof (rule set_eqI)
  fix v
  have "v \<in> ran (map_of (rev es)) \<longleftrightarrow> (\<exists>k. map_of (rev es) k = Some v)"
    by (simp add: ran_def)
  also have "\<dots> \<longleftrightarrow> (\<exists>k. \<exists>i<length es. es ! i = (k, v) \<and>
      (\<forall>j. i < j \<and> j < length es \<longrightarrow> fst (es ! j) \<noteq> k))"
    by (simp add: map_of_rev_last)
  also have "\<dots> \<longleftrightarrow> (\<exists>i. last_for_login es i \<and> snd (es ! i) = v)"
    unfolding last_for_login_def
    by (auto simp: prod_eq_iff)
  also have "\<dots> \<longleftrightarrow> v \<in> spec_final_states es"
    by (auto simp: spec_final_states_def last_for_login_def)
  finally show "v \<in> ran (map_of (rev es)) \<longleftrightarrow> v \<in> spec_final_states es" .
qed

lemma latest_states:
  "set (map snd (foldl (\<lambda>a e. AList.update (fst e) (snd e) a) [] es)) = spec_final_states es"
proof -
  let ?al = "foldl (\<lambda>a e. AList.update (fst e) (snd e) a) [] es"
  have d: "distinct (map fst ?al)" by (rule foldl_update_distinct) simp
  have "set (map snd ?al) = ran (map_of ?al)" using ran_distinct [OF d] by simp
  also have "\<dots> = ran (map_of (rev es))" by (simp add: foldl_update_map_of)
  finally show ?thesis by (simp add: ran_rev_final_states)
qed


lemma is_approved_spec:
  assumes "traverse review_entry reviews = Inr entries"
  shows "is_approved (JList reviews) = Inr (spec_is_approved entries)"
proof -
  have "latest_reviews_by_user [] reviews =
          Inr (foldl (\<lambda>a e. AList.update (fst e) (snd e) a) [] entries)"
    by (rule latest_reviews_foldl [OF assms])
  then show ?thesis
    unfolding is_approved_def approved_states_def spec_is_approved_def
    by (simp only: py_iter.simps bind_r_Inr latest_states)
qed

lemma derive_is_approved:
  assumes "derive big details reviews check_results = Inr enriched"
  shows "\<exists>b. is_approved reviews = Inr b \<and> subscript enriched ''isApproved'' = Inr (JBool b)"
  using assms by (auto simp: derive_def bind_r_eq_Inr overlay_def update_conv')

section \<open>The cap on the fan-out\<close>

lemma GithubService_request_attempts:
  "GithubService_request tr ep method is_text w = (res, w') \<Longrightarrow> attempts w' = Suc (attempts w)"
  by (auto simp: GithubService_request_def split: prod.splits outcome.splits dest: attempts_send)

lemma GithubService_fetch_check_runs_attempts:
  "GithubService_fetch_check_runs tr repo ref w = (crs, w') \<Longrightarrow> attempts w' = Suc (attempts w)"
  by (auto simp: GithubService_fetch_check_runs_def split: prod.splits
      dest: GithubService_request_attempts)

lemma GithubService_enrich_try_attempts:
  "GithubService_enrich_try tr repo pr w = (res, w') \<Longrightarrow> attempts w' \<le> attempts w + 3"
  by (auto simp: GithubService_enrich_try_def GithubService_fetch_pr_details_def
      GithubService_fetch_pr_reviews_def
      split: sum.splits prod.splits
      dest!: GithubService_request_attempts GithubService_fetch_check_runs_attempts)

lemma GithubService_enrich_one_dict:
  assumes "is_dict pr"
  shows "\<exists>enriched w'. GithubService_enrich_one tr repo pr w = (Inr enriched, w') \<and>
           attempts w' \<le> attempts w + 3"
proof -
  obtain res w' where t: "GithubService_enrich_try tr repo pr w = (res, w')"
    by (cases "GithubService_enrich_try tr repo pr w")
  obtain d where d: "pr = JDict d" using assms by (cases pr) simp_all
  from t d GithubService_enrich_try_attempts [OF t] show ?thesis
    by (cases res) (simp_all add: GithubService_enrich_one_def GithubService_fallback_def spread_def)
qed

lemma GithubService_enrich_loop_dicts:
  assumes "\<forall>pr \<in> set prs. is_dict pr"
  shows "\<exists>out w'. GithubService_enrich_loop tr repo prs results w = (Inr out, w') \<and>
           length out = length results + length prs \<and>
           attempts w' \<le> attempts w + 3 * length prs"
  using assms
proof (induction prs arbitrary: results w)
  case Nil
  then show ?case by simp
next
  case (Cons pr prs)
  from Cons.prems have "is_dict pr" by simp
  from GithubService_enrich_one_dict [OF this, of tr repo w]
  obtain enriched w1 where one: "GithubService_enrich_one tr repo pr w = (Inr enriched, w1)"
    and a1: "attempts w1 \<le> attempts w + 3" by blast
  from Cons.prems have "\<forall>pr \<in> set prs. is_dict pr" by simp
  from Cons.IH [OF this, of "results @ [enriched]" w1]
  obtain out w' where
    l: "GithubService_enrich_loop tr repo prs (results @ [enriched]) w1 = (Inr out, w')"
    and n: "length out = length (results @ [enriched]) + length prs"
    and a: "attempts w' \<le> attempts w1 + 3 * length prs" by blast
  from one l n a a1 show ?case by simp
qed

lemma traverse_total:
  assumes "\<forall>x \<in> set xs. \<exists>y. f x = Inr y"
  shows "\<exists>ys. traverse f xs = Inr ys \<and> length ys = length xs"
  using assms by (induction xs) auto

lemma GitHubClient_enrich_pr_dict: "is_dict pr \<Longrightarrow> \<exists>enriched. GitHubClient_enrich_pr pr fs = Inr enriched"
  by (cases pr) (auto simp: GitHubClient_enrich_pr_def GitHubClient_fallback_def split: sum.splits)

section \<open>Listing the sessions\<close>

lemma JulesService_request_trace:
  assumes "JulesService_request tr ep method w = (res, w')"
  shows "\<exists>rq out. trace w' = trace w @ [Call rq out] \<and> res = JulesService_decode method out"
  using assms
  by (auto simp: JulesService_request_def send_def split: prod.splits)

lemma extend_sessions_append:
  "extend_sessions acc data = Inr all' \<Longrightarrow> all' = acc @ page_sessions data"
  by (auto simp: extend_sessions_def page_sessions_def bind_r_eq_Inr split: if_splits)

lemma list_sessions_loop_pages:
  assumes "pages < 5"
  shows "\<exists>evs. trace (snd (list_sessions_loop tr acc tok pages w)) = trace w @ evs \<and>
           pages_ok (5 - pages) acc (fst (list_sessions_loop tr acc tok pages w)) evs"
  using assms
proof (induction tr acc tok pages w rule: list_sessions_loop.induct)
  case (1 tr acc tok pages w)
  obtain res w1 where rq: "JulesService_request tr (Sessions (page_query tok)) ''GET'' w = (res, w1)"
    by (cases "JulesService_request tr (Sessions (page_query tok)) ''GET'' w")
  from JulesService_request_trace [OF rq] obtain rq0 out
    where tr1: "trace w1 = trace w @ [Call rq0 out]" and res: "res = JulesService_decode ''GET'' out"
    by blast
  let ?ev = "Call rq0 out"
  have budget: "1 \<le> 5 - pages" using "1.prems" by simp
  show ?case
  proof (cases res)
    case (Inl e)
    with rq tr1 budget show ?thesis
      by (subst (1 2) list_sessions_loop.simps) (simp add: pages_ok_def)
  next
    case (Inr data)
    have "JulesService_decode ''GET'' out = Inr data" using res Inr by simp
    then have page: "page_of ?ev = data" by (simp add: page_of_def)
    show ?thesis
    proof (cases "extend_sessions acc data")
      case (Inl e)
      with rq tr1 budget Inr show ?thesis
        by (subst (1 2) list_sessions_loop.simps) (simp add: pages_ok_def)
    next
      case ext: (Inr all')
      have all': "all' = acc @ page_sessions data" by (rule extend_sessions_append [OF ext])
      show ?thesis
      proof (cases "get_attr data ''nextPageToken'' JNull")
        case (Inl e)
        with rq tr1 budget Inr ext show ?thesis
          by (subst (1 2) list_sessions_loop.simps) (simp add: pages_ok_def)
      next
        case tok': (Inr tok')
        show ?thesis
        proof (cases "\<not> truthy tok' \<or> 5 \<le> pages + 1")
          case True
          have "1 < 5 - pages \<longrightarrow> \<not> has_next data"
            using True tok' by (auto simp: has_next_def)
          with rq tr1 budget Inr ext tok' True all' page show ?thesis
            by (subst (1 2) list_sessions_loop.simps) (simp add: pages_ok_def)
        next
          case False
          then have lt: "pages + 1 < 5" and more: "has_next data"
            using tok' by (auto simp: has_next_def)
          from "1.IH" [OF rq [symmetric] Inr ext tok' False lt]
          obtain evs where
            t: "trace (snd (list_sessions_loop tr all' tok' (pages + 1) w1)) = trace w1 @ evs"
            and ok: "pages_ok (5 - (pages + 1)) all'
                       (fst (list_sessions_loop tr all' tok' (pages + 1) w1)) evs"
            by blast
          have unfold: "list_sessions_loop tr acc tok pages w =
                  list_sessions_loop tr all' tok' (pages + 1) w1"
            using rq Inr ext tok' False by (subst list_sessions_loop.simps) simp
          have "pages_ok (5 - pages) acc
                  (fst (list_sessions_loop tr all' tok' (pages + 1) w1)) (?ev # evs)"
            unfolding pages_ok_def
          proof (intro conjI allI impI)
            show "?ev # evs \<noteq> []" by simp
            have "length evs \<le> 5 - (pages + 1)" using ok by (simp add: pages_ok_def)
            with lt show "length (?ev # evs) \<le> 5 - pages" by simp
            show "\<forall>ev \<in> set (?ev # evs). is_call ev" using ok by (simp add: pages_ok_def)
          next
            fix sessions
            assume r: "fst (list_sessions_loop tr all' tok' (pages + 1) w1) = Inr sessions"
            with ok have s: "sessions = all' @ concat (map (\<lambda>ev. page_sessions (page_of ev)) evs)"
              and n: "\<forall>i. Suc i < length evs \<longrightarrow> has_next (page_of (evs ! i))"
              and l: "length evs < 5 - (pages + 1) \<longrightarrow> \<not> has_next (page_of (last evs))"
              and ne: "evs \<noteq> []"
              by (simp_all add: pages_ok_def)
            show "sessions = acc @ concat (map (\<lambda>ev. page_sessions (page_of ev)) (?ev # evs))"
              using s all' page by simp
            show "length (?ev # evs) < 5 - pages \<Longrightarrow> \<not> has_next (page_of (last (?ev # evs)))"
              using l ne by simp
            fix i
            assume "Suc i < length (?ev # evs)"
            then show "has_next (page_of ((?ev # evs) ! i))"
              using n more page by (cases i) simp_all
          qed
          with t tr1 unfold show ?thesis by simp
        qed
      qed
    qed
  qed
qed

lemma session_page_decodes:
  assumes "session_page r"
  shows "\<exists>d. JulesService_decode ''GET'' (Responds r) = Inr (JDict d) \<and>
           (\<exists>all'. extend_sessions acc (JDict d) = Inr all')"
proof -
  from assms obtain d where b: "json_body r = Some (JDict d)" and o: "ok r"
    and s: "case map_of d ''sessions'' of None \<Rightarrow> True | Some v \<Rightarrow> is_list v"
    by (auto simp: session_page_def split: option.splits json.splits)
  have "\<exists>all'. extend_sessions acc (JDict d) = Inr all'"
  proof (cases "map_of d ''sessions''")
    case None
    then have "''sessions'' \<notin> fst ` set d" by (simp add: map_of_eq_None_iff)
    then show ?thesis by (simp add: extend_sessions_def)
  next
    case (Some v)
    with s obtain xs where "v = JList xs" by (cases v) simp_all
    with Some show ?thesis by (auto simp: extend_sessions_def)
  qed
  with b o show ?thesis by (simp add: JulesService_decode_def)
qed

lemma list_sessions_loop_returns:
  assumes "\<forall>rq s. \<exists>r. fst (tr rq s) = Responds r \<and> session_page r"
  shows "\<exists>sessions. fst (list_sessions_loop tr acc tok pages w) = Inr sessions"
  using assms
proof (induction tr acc tok pages w rule: list_sessions_loop.induct)
  case (1 tr acc tok pages w)
  obtain res w1 where rq: "JulesService_request tr (Sessions (page_query tok)) ''GET'' w = (res, w1)"
    by (cases "JulesService_request tr (Sessions (page_query tok)) ''GET'' w")
  from "1.prems" obtain r where
    r: "fst (tr \<lparr>http_method = ''GET'', target = Sessions (page_query tok)\<rparr> (net w)) = Responds r"
    and sp: "session_page r" by blast
  from rq r have res: "res = JulesService_decode ''GET'' (Responds r)"
    by (auto simp: JulesService_request_def send_def split: prod.splits)
  from session_page_decodes [OF sp, of acc] res obtain d all' where
    d: "res = Inr (JDict d)" and ext: "extend_sessions acc (JDict d) = Inr all'" by auto
  obtain tok' where tok': "get_attr (JDict d) ''nextPageToken'' JNull = Inr tok'" by simp
  show ?case
  proof (cases "\<not> truthy tok' \<or> 5 \<le> pages + 1")
    case True
    with rq d ext tok' show ?thesis
      by (subst list_sessions_loop.simps) (simp del: get_attr.simps)
  next
    case False
    from "1.IH" [OF rq [symmetric] d ext tok' False "1.prems"]
    obtain sessions where "fst (list_sessions_loop tr all' tok' (pages + 1) w1) = Inr sessions"
      by blast
    with rq d ext tok' False show ?thesis
      by (subst list_sessions_loop.simps) (simp del: get_attr.simps)
  qed
qed

text \<open>
  C9. \<^verbatim>\<open>list_sessions\<close> always ends, after at most 5 calls of the transport, whatever
  the provider answers. When it returns, it has fetched between 1 and 5 pages and returns
  the concatenation, in page order, of their \<^verbatim>\<open>sessions\<close> arrays; every page but the
  last carried a \<^verbatim>\<open>nextPageToken\<close>, and if fewer than 5 pages were fetched the last
  one carried none (or an empty one). It does return whenever every answer is a
  well-formed page, also when every page carries a token.
\<close>

theorem list_sessions_pages:
  "attempts (snd (JulesService_list_sessions tr w)) \<le> attempts w + 5 \<and>
   (\<forall>sessions. fst (JulesService_list_sessions tr w) = Inr sessions \<longrightarrow>
      (let pages = map page_of (since w (snd (JulesService_list_sessions tr w)))
       in 1 \<le> length pages \<and> length pages \<le> 5 \<and>
          sessions = concat (map page_sessions pages) \<and>
          (\<forall>i. Suc i < length pages \<longrightarrow> has_next (pages ! i)) \<and>
          (length pages < 5 \<longrightarrow> \<not> has_next (last pages)))) \<and>
   ((\<forall>rq s. \<exists>r. fst (tr rq s) = Responds r \<and> session_page r) \<longrightarrow>
      (\<exists>sessions. fst (JulesService_list_sessions tr w) = Inr sessions))"
proof -
  from list_sessions_loop_pages [of 0 tr "[]" JNull w]
  obtain evs where t: "trace (snd (JulesService_list_sessions tr w)) = trace w @ evs"
    and ok: "pages_ok 5 [] (fst (JulesService_list_sessions tr w)) evs"
    by (auto simp: JulesService_list_sessions_def)
  have s: "since w (snd (JulesService_list_sessions tr w)) = evs"
    using t by (simp add: since_def)
  have "filter is_call evs = evs" using ok by (simp add: pages_ok_def)
  then have a: "attempts (snd (JulesService_list_sessions tr w)) \<le> attempts w + 5"
    using t ok by (simp add: attempts_def pages_ok_def)
  have b: "\<forall>sessions. fst (JulesService_list_sessions tr w) = Inr sessions \<longrightarrow>
      (let pages = map page_of (since w (snd (JulesService_list_sessions tr w)))
       in 1 \<le> length pages \<and> length pages \<le> 5 \<and>
          sessions = concat (map page_sessions pages) \<and>
          (\<forall>i. Suc i < length pages \<longrightarrow> has_next (pages ! i)) \<and>
          (length pages < 5 \<longrightarrow> \<not> has_next (last pages)))"
    using ok unfolding s Let_def pages_ok_def
    by (auto simp: map_concat comp_def last_map Suc_le_eq)
  have c: "(\<forall>rq s. \<exists>r. fst (tr rq s) = Responds r \<and> session_page r) \<longrightarrow>
      (\<exists>sessions. fst (JulesService_list_sessions tr w) = Inr sessions)"
    using list_sessions_loop_returns [of tr "[]" JNull 0 w]
    by (simp add: JulesService_list_sessions_def)
  from a b c show ?thesis by blast
qed

theorem list_sessions_pages_witness:
  "(\<forall>rq s. \<exists>r. fst (endless_pages rq s) = Responds r \<and> session_page r) \<and>
   (\<exists>sessions. fst (JulesService_list_sessions endless_pages (start ())) = Inr sessions) \<and>
   attempts (snd (JulesService_list_sessions endless_pages (start ()))) \<le> 5 \<and>
   fst (JulesService_list_sessions endless_pages (start ())) =
     Inr [JStr ''s1'', JStr ''s2'', JStr ''s1'', JStr ''s2'', JStr ''s1'', JStr ''s2'',
          JStr ''s1'', JStr ''s2'', JStr ''s1'', JStr ''s2''] \<and>
   JulesService_list_sessions scripted
       (start [Responds token_page, Responds final_page, Responds token_page]) =
     (Inr [JStr ''s1'', JStr ''s2'', JStr ''s3''],
      \<lparr>net = [Responds token_page],
       trace = [Call \<lparr>http_method = ''GET'', target = Sessions None\<rparr> (Responds token_page),
                Call \<lparr>http_method = ''GET'', target = Sessions (Some (JStr ''t''))\<rparr>
                  (Responds final_page)]\<rparr>)"
proof -
  have h: "\<forall>rq s. \<exists>r. fst (endless_pages rq s) = Responds r \<and> session_page r"
    by (simp add: endless_pages_def session_page_def token_page_def)
  note main = list_sessions_pages [of endless_pages "start ()"]
  from main h have r: "\<exists>sessions. fst (JulesService_list_sessions endless_pages (start ())) = Inr sessions"
    by blast
  from main have a: "attempts (snd (JulesService_list_sessions endless_pages (start ()))) \<le> 5"
    by (simp add: attempts_def start_def)
  have e: "fst (JulesService_list_sessions endless_pages (start ())) =
     Inr [JStr ''s1'', JStr ''s2'', JStr ''s1'', JStr ''s2'', JStr ''s1'', JStr ''s2'',
          JStr ''s1'', JStr ''s2'', JStr ''s1'', JStr ''s2'']"
    by code_simp
  have s: "JulesService_list_sessions scripted
       (start [Responds token_page, Responds final_page, Responds token_page]) =
     (Inr [JStr ''s1'', JStr ''s2'', JStr ''s3''],
      \<lparr>net = [Responds token_page],
       trace = [Call \<lparr>http_method = ''GET'', target = Sessions None\<rparr> (Responds token_page),
                Call \<lparr>http_method = ''GET'', target = Sessions (Some (JStr ''t''))\<rparr>
                  (Responds final_page)]\<rparr>)"
    by code_simp
  show ?thesis by (rule conjI [OF h conjI [OF r conjI [OF a conjI [OF e s]]]])
qed

section \<open>Fetching the check runs\<close>

lemma traverse_map:
  "\<forall>x \<in> set xs. f x = Inr (g x) \<Longrightarrow> traverse f xs = Inr (map g xs)"
  by (induction xs) simp_all

lemma GithubService_project_complete:
  "complete_run run \<Longrightarrow> GithubService_project_run run = Inr (spec_projection run)"
  by (cases run)
     (auto simp: complete_run_def GithubService_project_run_def spec_projection_def field_def
           split: option.splits)

lemma GitHubClient_project_dict:
  "is_dict run \<Longrightarrow> GitHubClient_project_run run = Inr (spec_projection run)"
  by (cases run) (auto simp: GitHubClient_project_run_def spec_projection_def field_def)

lemma GithubService_check_runs_failure:
  "fst (GithubService_request tr (CheckRuns repo ref) ''GET'' False w) = Inl e \<Longrightarrow>
     fst (GithubService_fetch_check_runs tr repo ref w) = []"
  by (auto simp: GithubService_fetch_check_runs_def GithubService_check_runs_body_def
      split: prod.splits)

lemma GitHubClient_check_runs_failure:
  "fst (GitHubClient_request tr ''GET'' (CheckRuns repo ref) False w) = Inl e \<Longrightarrow>
     fst (GitHubClient_fetch_check_runs tr repo ref w) = []"
  by (auto simp: GitHubClient_fetch_check_runs_def GitHubClient_check_runs_body_def
      split: prod.splits)

lemma GithubService_check_runs_success:
  assumes "fst (GithubService_request tr (CheckRuns repo ref) ''GET'' False w) = Inr (JDict d)"
      and "map_of d ''check_runs'' = Some (JList runs)"
      and "\<forall>run \<in> set runs. complete_run run"
  shows "fst (GithubService_fetch_check_runs tr repo ref w) = map spec_projection runs"
proof -
  have "traverse GithubService_project_run runs = Inr (map spec_projection runs)"
    using assms(3) by (intro traverse_map) (simp add: GithubService_project_complete)
  with assms(1,2) show ?thesis
    by (auto simp: GithubService_fetch_check_runs_def GithubService_check_runs_body_def
        split: prod.splits)
qed

lemma GitHubClient_check_runs_success:
  assumes "fst (GitHubClient_request tr ''GET'' (CheckRuns repo ref) False w) = Inr (JDict d)"
      and "map_of d ''check_runs'' = Some (JList runs)"
      and "\<forall>run \<in> set runs. is_dict run"
  shows "fst (GitHubClient_fetch_check_runs tr repo ref w) = map spec_projection runs"
proof -
  have "traverse GitHubClient_project_run runs = Inr (map spec_projection runs)"
    using assms(3) by (intro traverse_map) (simp add: GitHubClient_project_dict)
  with assms(1,2) show ?thesis
    by (auto simp: GitHubClient_fetch_check_runs_def GitHubClient_check_runs_body_def
        split: prod.splits)
qed

lemma derive_without_checks:
  assumes "derive big details reviews check_results = Inr enriched"
  shows "\<exists>plain. derive big details reviews [] = Inr plain \<and> without_checks plain enriched"
  using assms
  by (auto simp: derive_def bind_r_eq_Inr overlay_def update_conv' test_status_def
      without_checks_def)

lemma GithubService_enrich_without_checks:
  assumes "subscript pr ''number'' = Inr number"
      and "head_sha pr = Inr sha"
      and "GithubService_fetch_pr_details tr repo number w = (Inr details, w1)"
      and "GithubService_fetch_pr_reviews tr repo number w1 = (Inr reviews, w2)"
      and "fst (GithubService_request tr (CheckRuns repo sha) ''GET'' False w2) = Inl e"
  shows "fst (GithubService_enrich_try tr repo pr w) = GithubService_derive details reviews []"
  using assms GithubService_check_runs_failure [OF assms(5)]
  by (auto simp: GithubService_enrich_try_def split: prod.splits)

lemma GitHubClient_enrich_without_checks:
  assumes "subscript pr ''number'' = Inr number"
      and "head_sha pr = Inr sha"
  shows "GitHubClient_enrich_try pr
           \<lparr>future_details = Inr details, future_reviews = Inr reviews, future_checks = []\<rparr> =
         GitHubClient_derive details reviews []"
  using assms by (simp add: GitHubClient_enrich_try_def)

lemma GithubService_check_runs_not_object:
  "fst (GithubService_request tr (CheckRuns repo ref) ''GET'' False w) = Inr data \<Longrightarrow>
     \<not> is_dict data \<Longrightarrow> fst (GithubService_fetch_check_runs tr repo ref w) = []"
  by (cases data)
     (auto simp: GithubService_fetch_check_runs_def GithubService_check_runs_body_def
           split: prod.splits)

lemma GitHubClient_check_runs_not_object:
  "fst (GitHubClient_request tr ''GET'' (CheckRuns repo ref) False w) = Inr data \<Longrightarrow>
     \<not> is_dict data \<Longrightarrow> fst (GitHubClient_fetch_check_runs tr repo ref w) = []"
  by (cases data)
     (auto simp: GitHubClient_fetch_check_runs_def GitHubClient_check_runs_body_def
           split: prod.splits)

section \<open>The repository context\<close>

lemma joined_paths_ok:
  assumes "\<forall>f \<in> set fs. \<exists>p. subscript f ''path'' = Inr (JStr p)"
  shows "joined_paths (JList fs) = Inr (intersperse '', '' (map path_text fs))"
proof -
  have "\<forall>f \<in> set fs. subscript f ''path'' = Inr (JStr (path_text f))"
    using assms by (auto simp: path_text_def text_of_def)
  then have a: "traverse (\<lambda>f. subscript f ''path'') fs = Inr (map (\<lambda>f. JStr (path_text f)) fs)"
    by (rule traverse_map)
  have b: "traverse as_str (map (\<lambda>f. JStr (path_text f)) fs) = Inr (map path_text fs)"
    by (induction fs) simp_all
  show ?thesis by (simp add: joined_paths_def a py_join_def b)
qed

lemma joined_paths_not_list: "\<not> is_list root \<Longrightarrow> joined_paths root = Inr ''unknown''"
  by (cases root) (simp_all add: joined_paths_def)

lemma GithubService_file_list_spec:
  "listing_ok root \<Longrightarrow> GithubService_file_list root = spec_file_list ''unknown'' root"
proof (cases root)
  case (Inl e)
  then show ?thesis by (simp add: GithubService_file_list_def spec_file_list_def)
next
  case (Inr v)
  assume "listing_ok root"
  with Inr show ?thesis
    by (cases v)
       (simp_all add: GithubService_file_list_def spec_file_list_def listing_ok_def
          joined_paths_ok joined_paths_not_list)
qed

lemma has_ci_spec: "GithubService_has_ci ci = spec_has_ci ci"
proof (cases ci)
  case (Inl e)
  then show ?thesis by (simp add: GithubService_has_ci_def spec_has_ci_def)
next
  case (Inr v)
  then show ?thesis
    by (cases v) (simp_all add: GithubService_has_ci_def spec_has_ci_def nonempty_list_def)
qed

lemma nonempty_list_spec: "nonempty_list (except_return (JList []) ci) = spec_has_ci ci"
proof (cases ci)
  case (Inl e)
  then show ?thesis by (simp add: spec_has_ci_def nonempty_list_def)
next
  case (Inr v)
  then show ?thesis
    by (cases v) (simp_all add: spec_has_ci_def nonempty_list_def)
qed

lemma GithubService_snippet_text:
  "text_or_none v \<Longrightarrow>
     GithubService_snippet (py_or v (JStr [])) = Inr (JStr (take 1500 (text_of v)))"
  by (cases v) (auto simp: text_or_none_def GithubService_snippet_def py_or_def text_of_def)

lemma GitHubClient_snippet_text:
  "GitHubClient_snippet (GitHubClient_text_or_empty fm) =
     JStr (take 1500 (text_of (except_return JNull fm)))"
proof (cases fm)
  case (Inl e)
  then show ?thesis
    by (simp add: GitHubClient_snippet_def GitHubClient_text_or_empty_def text_of_def)
next
  case (Inr v)
  then show ?thesis
    by (cases v)
       (simp_all add: GitHubClient_snippet_def GitHubClient_text_or_empty_def text_of_def)
qed

lemma GitHubClient_file_list_spec:
  "listing_ok fr \<Longrightarrow> joined_paths (except_return (JList []) fr) = Inr (spec_file_list [] fr)"
proof (cases fr)
  case (Inl e)
  then show ?thesis by (simp add: spec_file_list_def joined_paths_def py_join_def)
next
  case (Inr v)
  assume "listing_ok fr"
  with Inr show ?thesis
    by (cases v)
       (simp_all add: spec_file_list_def listing_ok_def joined_paths_ok joined_paths_not_list)
qed

lemma GithubService_context:
  assumes "GithubService_request tr (Contents repo []) ''GET'' False w = (root, w1)"
      and "GithubService_fetch_repo_content tr decoder repo ''README.md'' w1 = (readme, w2)"
      and "GithubService_fetch_repo_content tr decoder repo ''package.json'' w2 = (pkg, w3)"
      and "GithubService_request tr (Contents repo ''.github/workflows'') ''GET'' False w3 = (ci, w4)"
      and "listing_ok root" and "text_or_none readme" and "text_or_none pkg"
  shows "GithubService_fetch_core_repo_context tr decoder repo w =
           (Inr \<lparr>fileList = spec_file_list ''unknown'' root,
                 readmeSnippet = JStr (take 1500 (text_of readme)),
                 packageJson = JStr (take 1500 (text_of pkg)),
                 hasCI = spec_has_ci ci\<rparr>, w4)"
  using assms
  by (simp add: GithubService_fetch_core_repo_context_def GithubService_snippet_text
      GithubService_file_list_spec has_ci_spec)

lemma GitHubClient_context:
  assumes "listing_ok fr"
  shows "GitHubClient_fetch_core_repo_context fr fm fp fc =
           Inr \<lparr>fileList = spec_file_list [] fr,
                readmeSnippet = JStr (take 1500 (text_of (except_return JNull fm))),
                packageJson = JStr (take 1500 (text_of (except_return JNull fp))),
                hasCI = spec_has_ci fc\<rparr>"
  using assms
  by (simp add: GitHubClient_fetch_core_repo_context_def Let_def GitHubClient_snippet_text
      GitHubClient_file_list_spec nonempty_list_spec)

lemma GithubService_content_failure:
  "fst (GithubService_request tr (Contents repo path) ''GET'' False w) = Inl e \<Longrightarrow>
     fst (GithubService_fetch_repo_content tr decoder repo path w) = JNull"
  by (auto simp: GithubService_fetch_repo_content_def GithubService_content_body_def
      split: prod.splits)

lemma GitHubClient_content_failure:
  "fst (GitHubClient_request tr ''GET'' (Contents repo path) False w) = Inl e \<Longrightarrow>
     fst (GitHubClient_fetch_repo_content tr decoder repo path w) = JNull"
  by (auto simp: GitHubClient_fetch_repo_content_def GitHubClient_content_body_def
      split: prod.splits)

lemma GithubService_content_decoded:
  assumes "fst (GithubService_request tr (Contents repo path) ''GET'' False w) = Inr (JDict d)"
    and "map_of d ''content'' = Some (JStr c)" and "c \<noteq> []"
    and "map_of d ''encoding'' = Some (JStr ''base64'')" and "decoder c = Some t"
  shows "fst (GithubService_fetch_repo_content tr decoder repo path w) = JStr t"
  using assms
  by (auto simp: GithubService_fetch_repo_content_def GithubService_content_body_def b64_utf8_def
      split: prod.splits)

lemma GitHubClient_content_decoded:
  assumes "fst (GitHubClient_request tr ''GET'' (Contents repo path) False w) = Inr (JDict d)"
    and "map_of d ''content'' = Some (JStr c)"
    and "map_of d ''encoding'' = Some (JStr ''base64'')" and "decoder c = Some t"
  shows "fst (GitHubClient_fetch_repo_content tr decoder repo path w) = JStr t"
  using assms
  by (auto simp: GitHubClient_fetch_repo_content_def GitHubClient_content_body_def b64_utf8_def
      in_keys_map_of split: prod.splits)


text \<open>
  Outside the amended claim: \<^verbatim>\<open>GithubService\<close> slices whatever the README fetch
  returned, so a README too large to be sent inline (an object with empty content) makes
  the collector raise; \<^verbatim>\<open>GitHubClient\<close> joins the paths outside any \<^verbatim>\<open>try\<close>, so a
  listing entry without a path makes it raise.
\<close>

lemma GithubService_large_readme_raises:
  "fst (GithubService_fetch_core_repo_context large_readme_repo long_decoder ''o/r'' (start ())) =
     Inl TypeError"
  by (simp add: GithubService_fetch_core_repo_context_def GithubService_request_def send_def
      large_readme_repo_def GithubService_decode_def GithubService_check_def rate_limited_def
      large_file_response_def GithubService_fetch_repo_content_def GithubService_content_body_def
      GithubService_snippet_def py_or_def start_def)

lemma GitHubClient_entry_without_path_raises:
  "GitHubClient_fetch_core_repo_context (Inr (JList [JDict [(''name'', JStr ''src'')]]))
     (Inr JNull) (Inr JNull) (Inr (JList [])) = Inl KeyError"
  by (simp add: GitHubClient_fetch_core_repo_context_def joined_paths_def)

section \<open>Facts about the pools\<close>

lemma turn_events:
  assumes "GitHubClient_turn tr t w = (t', w')"
  shows "\<exists>evs. trace w' = trace w @ evs \<and> pool_events (request_of t) evs \<and>
           length (filter is_call evs) + calls_left t' \<le> calls_left t \<and>
           request_of t' \<subseteq> request_of t"
proof (cases t)
  case (Finished r)
  with assms show ?thesis by (auto simp: pool_events_def)
next
  case (Running rq is_text retries)
  show ?thesis
  proof (cases "retries \<ge> 0")
    case False
    with assms Running show ?thesis by (auto simp: pool_events_def)
  next
    case True
    obtain out w1 where s: "send tr rq w = (out, w1)" by (cases "send tr rq w")
    have t1: "trace w1 = trace w @ [Call rq out]" by (rule trace_send [OF s])
    show ?thesis
    proof (cases "GitHubClient_attempt is_text out")
      case (Inr v)
      with assms Running True s t1 show ?thesis by (auto simp: pool_events_def)
    next
      case (Inl e)
      with assms Running True s t1 show ?thesis
        by (cases "retries = 0") (auto simp: pool_events_def)
    qed
  qed
qed

lemma sum_list_map_update:
  fixes f :: "'a \<Rightarrow> nat"
  assumes "i < length xs" and "n + f y \<le> f (xs ! i)"
  shows "n + sum_list (map f (xs[i := y])) \<le> sum_list (map f xs)"
proof -
  have "f (xs ! i) \<le> sum_list (map f xs)" using assms(1) by (simp add: member_le_sum_list)
  moreover have "sum_list (map f (xs[i := y])) = sum_list (map f xs) + f y - f (xs ! i)"
    using assms(1) by (simp add: map_update sum_list_update)
  ultimately show ?thesis using assms(2) by simp
qed

lemma chosen_running:
  assumes "running tasks \<noteq> []"
  shows "chosen choices tasks < length tasks \<and> is_running (tasks ! chosen choices tasks)"
proof -
  have "next_choice choices mod length (running tasks) < length (running tasks)"
    using assms by simp
  then have "chosen choices tasks \<in> set (running tasks)" unfolding chosen_def by (rule nth_mem)
  then show ?thesis by (simp add: running_def)
qed

lemma request_of_update:
  assumes "i < length tasks" and "request_of t \<subseteq> request_of (tasks ! i)"
  shows "\<Union> (request_of ` set (tasks[i := t])) \<subseteq> \<Union> (request_of ` set tasks)"
proof
  fix rq assume "rq \<in> \<Union> (request_of ` set (tasks[i := t]))"
  then obtain u where u: "u \<in> set (tasks[i := t])" and rq: "rq \<in> request_of u" by blast
  from u have "u = t \<or> u \<in> set tasks" by (auto dest: set_update_subset_insert [THEN subsetD])
  then show "rq \<in> \<Union> (request_of ` set tasks)"
  proof
    assume "u = t"
    with rq assms(2) have "rq \<in> request_of (tasks ! i)" by blast
    with assms(1) show ?thesis by (auto intro: nth_mem)
  next
    assume "u \<in> set tasks"
    with rq show ?thesis by blast
  qed
qed

lemma pool_events_mono: "pool_events A evs \<Longrightarrow> A \<subseteq> B \<Longrightarrow> pool_events A evs \<and> pool_events B evs"
  by (auto simp: pool_events_def split: event.splits)

lemma pool_events_append: "pool_events A (xs @ ys) \<longleftrightarrow> pool_events A xs \<and> pool_events A ys"
  by (auto simp: pool_events_def)

lemma run_pool_events:
  "\<exists>evs. trace (snd (run_pool tr choices tasks w)) = trace w @ evs \<and>
         pool_events (\<Union> (request_of ` set tasks)) evs \<and>
         length (filter is_call evs) \<le> sum_list (map calls_left tasks) \<and>
         length (fst (run_pool tr choices tasks w)) = length tasks \<and>
         running (fst (run_pool tr choices tasks w)) = []"
proof (induction tr choices tasks w rule: run_pool.induct)
  case (1 tr choices tasks w)
  show ?case
  proof (cases "running tasks = []")
    case True
    then show ?thesis
      by (subst (1 2 3) run_pool.simps) (simp add: pool_events_def)
  next
    case False
    let ?i = "chosen choices tasks"
    obtain t w' where turn: "GitHubClient_turn tr (tasks ! ?i) w = (t, w')"
      by (cases "GitHubClient_turn tr (tasks ! ?i) w")
    from chosen_running [OF False] have i: "?i < length tasks" by simp
    from turn_events [OF turn] obtain evs1 where
      t1: "trace w' = trace w @ evs1" and p1: "pool_events (request_of (tasks ! ?i)) evs1"
      and c1: "length (filter is_call evs1) + calls_left t \<le> calls_left (tasks ! ?i)"
      and r1: "request_of t \<subseteq> request_of (tasks ! ?i)" by blast
    from "1.IH" [OF False turn [symmetric]] obtain evs2 where
      t2: "trace (snd (run_pool tr (tl choices) (tasks[?i := t]) w')) = trace w' @ evs2"
      and p2: "pool_events (\<Union> (request_of ` set (tasks[?i := t]))) evs2"
      and c2: "length (filter is_call evs2) \<le> sum_list (map calls_left (tasks[?i := t]))"
      and l2: "length (fst (run_pool tr (tl choices) (tasks[?i := t]) w')) = length (tasks[?i := t])"
      and f2: "running (fst (run_pool tr (tl choices) (tasks[?i := t]) w')) = []"
      by blast
    have unfold: "run_pool tr choices tasks w = run_pool tr (tl choices) (tasks[?i := t]) w'"
      using False turn by (subst run_pool.simps) simp
    have "request_of (tasks ! ?i) \<subseteq> \<Union> (request_of ` set tasks)"
      using i by (auto intro: nth_mem)
    with p1 have p1': "pool_events (\<Union> (request_of ` set tasks)) evs1"
      using pool_events_mono by blast
    have p2': "pool_events (\<Union> (request_of ` set tasks)) evs2"
      using p2 request_of_update [OF i r1] pool_events_mono by blast
    have "length (filter is_call evs1) + sum_list (map calls_left (tasks[?i := t]))
            \<le> sum_list (map calls_left tasks)"
      using i c1 by (rule sum_list_map_update)
    with c2 have c: "length (filter is_call (evs1 @ evs2)) \<le> sum_list (map calls_left tasks)"
      by simp
    from t1 t2 p1' p2' c l2 f2 show ?thesis
      unfolding unfold by (intro exI [of _ "evs1 @ evs2"]) (simp add: pool_events_append)
  qed
qed


lemma run_pool_alone:
  "run_pool tr choices [Running rq is_text retries] w =
     ([Finished (fst (GitHubClient_retry tr rq is_text retries w))],
      snd (GitHubClient_retry tr rq is_text retries w))"
proof (induction tr rq is_text retries w arbitrary: choices rule: GitHubClient_retry.induct)
  case (1 tr rq is_text retries w)
  have r: "\<And>n. running [Running rq is_text n] = [0]" by (simp add: running_def)
  have c: "\<And>n. chosen choices [Running rq is_text n] = 0" by (simp add: chosen_def r)
  have fin: "\<And>ks x v. run_pool tr ks [Finished x] v = ([Finished x], v)"
    by (subst run_pool.simps) (simp add: running_def)
  show ?case
  proof (cases "retries \<ge> 0")
    case False
    then show ?thesis
      by (subst run_pool.simps) (simp add: r c fin)
  next
    case True
    obtain out w1 where s: "send tr rq w = (out, w1)" by (cases "send tr rq w")
    show ?thesis
    proof (cases "GitHubClient_attempt is_text out")
      case (Inr v)
      with True s show ?thesis
        by (subst run_pool.simps) (simp add: r c fin)
    next
      case (Inl e)
      show ?thesis
      proof (cases "retries = 0")
        case True
        with s Inl show ?thesis
          by (subst run_pool.simps) (simp add: r c fin)
      next
        case False
        from "1.IH" [OF True s [symmetric] Inl False]
        have "run_pool tr (tl choices) [Running rq is_text (retries - 1)] (sleep (2 - (retries - 1)) w1) =
           ([Finished (fst (GitHubClient_retry tr rq is_text (retries - 1) (sleep (2 - (retries - 1)) w1)))],
            snd (GitHubClient_retry tr rq is_text (retries - 1) (sleep (2 - (retries - 1)) w1)))" .
        with True False s Inl show ?thesis
          by (subst run_pool.simps) (simp add: r c)
      qed
    qed
  qed
qed

lemma length_chop [simp]: "length (chop ns xs) = length ns"
  by (induction ns arbitrary: xs) simp_all

lemma length_arrange [simp]: "length (arrange ks xs) = length xs"
  by (induction xs arbitrary: ks) (simp_all add: Let_def)

lemma set_arrange [simp]: "set (arrange ks xs) = set xs"
proof (induction xs arbitrary: ks)
  case Nil
  then show ?case by simp
next
  case (Cons x xs)
  let ?rest = "arrange (tl ks) xs"
  let ?k = "next_choice ks mod (length ?rest + 1)"
  have "set (take ?k ?rest) \<union> set (drop ?k ?rest) = set ?rest"
    by (metis append_take_drop_id set_append)
  then have "set (take ?k ?rest @ x # drop ?k ?rest) = insert x (set ?rest)"
    by simp
  then show ?case using Cons.IH by (simp add: Let_def)
qed

lemma arrange_map: "arrange ks (map f xs) = map f (arrange ks xs)"
  by (induction xs arbitrary: ks) (simp_all add: Let_def take_map drop_map)

lemma traverse_Inr: "traverse (\<lambda>r. r) (map Inr xs) = Inr xs"
  by (induction xs) simp_all

section \<open>The records of a run\<close>

lemma GithubService_records_Nil [simp]: "GithubService_records tr repo [] w = []"
  by (simp add: GithubService_records_def)

lemma GithubService_records_Cons:
  "GithubService_records tr repo (pr # rest) w =
     fst (GithubService_enrich_one tr repo pr w) #
     GithubService_records tr repo rest (snd (GithubService_enrich_one tr repo pr w))"
proof -
  have "[0..<length (pr # rest)] = 0 # map Suc [0..<length rest]"
    by (simp add: upt_conv_Cons map_Suc_upt del: upt_Suc)
  then show ?thesis
    by (simp add: GithubService_records_def comp_def del: upt_Suc)
qed

lemma GithubService_loop_records:
  "fst (GithubService_enrich_loop tr repo items results w) =
     bind_r (traverse (\<lambda>r. r) (GithubService_records tr repo items w)) (\<lambda>out. Inr (results @ out))"
proof (induction items arbitrary: results w)
  case Nil
  then show ?case by simp
next
  case (Cons pr rest)
  obtain r w' where one: "GithubService_enrich_one tr repo pr w = (r, w')"
    by (cases "GithubService_enrich_one tr repo pr w")
  show ?case
  proof (cases r)
    case (Inl e)
    with one show ?thesis by (simp add: GithubService_records_Cons)
  next
    case (Inr enriched)
    with one Cons.IH [of "results @ [enriched]" w'] show ?thesis
      by (cases "traverse (\<lambda>r. r) (GithubService_records tr repo rest w')")
         (simp_all add: GithubService_records_Cons)
  qed
qed

lemma GithubService_top_records:
  assumes "GithubService_fetch_pull_requests tr repo ''open'' w = (Inr (JList prs), w1)"
  shows "fst (GithubService_fetch_enriched_pull_requests tr repo w) =
           traverse (\<lambda>r. r) (GithubService_records tr repo (take 50 prs) w1)"
proof -
  have "fst (GithubService_enrich_loop tr repo (take 50 prs) [] w1) =
          traverse (\<lambda>r. r) (GithubService_records tr repo (take 50 prs) w1)"
    unfolding GithubService_loop_records
    by (cases "traverse (\<lambda>r. r) (GithubService_records tr repo (take 50 prs) w1)") simp_all
  with assms show ?thesis
    by (simp add: GithubService_fetch_enriched_pull_requests_def)
qed

lemma GitHubClient_top_records:
  assumes "GitHubClient_fetch_pull_requests tr repo ''open'' w = (Inr (JList prs), w1)"
  shows "GitHubClient_fetch_enriched_pull_requests tr repo choices order w =
           (traverse (\<lambda>r. r) (arrange order (GitHubClient_records tr repo choices (take 50 prs) w1)),
            snd (GitHubClient_pool tr repo choices (take 50 prs) w1))"
  using assms by (simp add: GitHubClient_fetch_enriched_pull_requests_def)

lemma length_GitHubClient_pool [simp]:
  "length (fst (GitHubClient_pool tr repo choices items w)) = length items"
  by (simp add: GitHubClient_pool_def split: prod.splits)

lemma map_all_Inr:
  assumes "\<forall>x \<in> set xs. \<exists>y. f x = Inr y"
  shows "\<exists>ys. map f xs = map Inr ys \<and> length ys = length xs"
  using assms
proof (induction xs)
  case Nil
  then show ?case by simp
next
  case (Cons x xs)
  then obtain y ys where "f x = Inr y" and "map f xs = map Inr ys" and "length ys = length xs"
    by auto
  then have "map f (x # xs) = map Inr (y # ys) \<and> length (y # ys) = length (x # xs)" by simp
  then show ?case by blast
qed

lemma GitHubClient_records_dicts:
  assumes "\<forall>pr \<in> set items. is_dict pr"
  shows "\<exists>recs. GitHubClient_records tr repo choices items w = map Inr recs \<and>
           length recs = length items"
proof -
  let ?fs = "fst (GitHubClient_pool tr repo choices items w)"
  have "\<forall>p \<in> set (zip items ?fs). \<exists>y. (\<lambda>(pr, fs). GitHubClient_enrich_pr pr fs) p = Inr y"
    using assms GitHubClient_enrich_pr_dict by (auto dest: set_zip_leftD)
  from map_all_Inr [OF this] show ?thesis
    by (simp add: GitHubClient_records_def)
qed

lemma sum_list_calls_left: "sum_list (map calls_left (map get_task eps)) = 3 * length eps"
  by (induction eps) (simp_all add: get_task_def)

lemma request_of_get_tasks:
  "\<Union> (request_of ` set (map get_task eps)) = (\<lambda>ep. \<lparr>http_method = ''GET'', target = ep\<rparr>) ` set eps"
  by (auto simp: get_task_def)

lemma length_submissions: "length (GitHubClient_submissions repo pr) \<le> 3"
  by (simp add: GitHubClient_submissions_def split: sum.splits)

lemma length_concat_submissions:
  "length (concat (map (GitHubClient_submissions repo) items)) \<le> 3 * length items"
proof (induction items)
  case Nil
  then show ?case by simp
next
  case (Cons pr items)
  with length_submissions [of repo pr] show ?case by simp
qed

lemma GitHubClient_pool_events:
  "\<exists>evs. trace (snd (GitHubClient_pool tr repo choices items w)) = trace w @ evs \<and>
         pool_events (enrichment_requests repo items) evs \<and>
         length (filter is_call evs) \<le> 9 * length items"
proof -
  let ?eps = "concat (map (GitHubClient_submissions repo) items)"
  from run_pool_events [of tr choices "map get_task ?eps" w] obtain evs where
    t: "trace (snd (run_pool tr choices (map get_task ?eps) w)) = trace w @ evs"
    and p: "pool_events (\<Union> (request_of ` set (map get_task ?eps))) evs"
    and c: "length (filter is_call evs) \<le> sum_list (map calls_left (map get_task ?eps))"
    by blast
  have "(\<lambda>ep. \<lparr>http_method = ''GET'', target = ep\<rparr>) ` set ?eps = enrichment_requests repo items"
    by (auto simp: enrichment_requests_def)
  with p have p': "pool_events (enrichment_requests repo items) evs"
    by (simp only: request_of_get_tasks)
  from c have "length (filter is_call evs) \<le> 3 * length ?eps"
    by (simp only: sum_list_calls_left)
  with length_concat_submissions [of repo items]
  have c': "length (filter is_call evs) \<le> 9 * length items"
    by simp
  from t p' c' show ?thesis
    by (auto simp: GitHubClient_pool_def split: prod.splits)
qed

lemma GithubService_enrich_one_fetched:
  assumes "subscript pr ''number'' = Inr number" and "head_sha pr = Inr sha"
    and "GithubService_fetch_pr_details tr repo number w = (Inr details, w1)"
    and "GithubService_fetch_pr_reviews tr repo number w1 = (Inr reviews, w2)"
    and "GithubService_fetch_check_runs tr repo sha w2 = (checks, w3)"
  shows "GithubService_enrich_one tr repo pr w =
           ((case GithubService_derive details reviews checks of
               Inr enriched \<Rightarrow> Inr enriched
             | Inl e \<Rightarrow> GithubService_fallback pr), w3)"
  using assms
  by (simp add: GithubService_enrich_one_def GithubService_enrich_try_def split: sum.splits)

lemma GitHubClient_enrich_pr_joined:
  assumes "subscript pr ''number'' = Inr number" and "head_sha pr = Inr sha"
    and "future_details fs = Inr details" and "future_reviews fs = Inr reviews"
  shows "GitHubClient_enrich_pr pr fs =
           (case GitHubClient_derive details reviews (future_checks fs) of
              Inr enriched \<Rightarrow> Inr enriched
            | Inl e \<Rightarrow> GitHubClient_fallback pr)"
  using assms
  by (simp add: GitHubClient_enrich_pr_def GitHubClient_enrich_try_def split: sum.splits)

lemma subscript_dict: "subscript pr k = Inr v \<Longrightarrow> \<exists>d. pr = JDict d"
  by (cases pr) simp_all

lemma GithubService_fallback_status:
  "\<exists>degraded. GithubService_fallback (JDict d) = Inr degraded \<and>
     subscript degraded ''testStatus'' = Inr (JStr ''unknown'') \<and>
     subscript degraded ''isApproved'' = Inr (JBool False)"
  by (simp add: GithubService_fallback_def spread_def overlay_def update_conv')

lemma GitHubClient_fallback_status:
  "\<exists>degraded. GitHubClient_fallback (JDict d) = Inr degraded \<and>
     subscript degraded ''testStatus'' = Inr (JStr ''unknown'') \<and>
     subscript degraded ''isApproved'' = Inr (JBool False)"
  by (simp add: GitHubClient_fallback_def overlay_def update_conv')

lemma details_ok_dict: "details_ok details \<Longrightarrow> \<exists>d. details = JDict d"
  by (cases details) (simp_all add: details_ok_def)

lemma details_ok_big:
  assumes "details_ok details"
  shows "(\<exists>x. GithubService_is_big details = Inr x) \<and> (\<exists>x. GitHubClient_is_big details = Inr x)"
proof -
  from assms obtain n where "get_attr details ''changed_files'' (JInt 0) = Inr (JInt n)"
    unfolding details_ok_def
    by (cases "get_attr details ''changed_files'' (JInt 0)")
       (simp_all split: json.splits)
  then show ?thesis
    by (auto simp: GithubService_is_big_def GitHubClient_is_big_def py_or_def)
qed

lemma details_ok_leader:
  assumes "details_ok details"
  shows "\<exists>x. is_leader_branch details = Inr x"
proof -
  from assms obtain ref where
    "bind_r (subscript details ''base'') (\<lambda>base. subscript base ''ref'') = Inr (JStr ref)"
    unfolding details_ok_def
    by (cases "bind_r (subscript details ''base'') (\<lambda>base. subscript base ''ref'')")
       (simp_all split: json.splits)
  then obtain base where "subscript details ''base'' = Inr base"
    and "subscript base ''ref'' = Inr (JStr ref)"
    by (auto simp: bind_r_eq_Inr)
  then show ?thesis by (simp add: is_leader_branch_def)
qed

lemma derive_completes:
  assumes "details_ok details" and "traverse review_entry rs = Inr entries"
  shows "completes (GithubService_derive details (JList rs) checks) \<and>
         completes (GitHubClient_derive details (JList rs) checks)"
proof -
  from details_ok_dict [OF assms(1)] obtain d where d: "details = JDict d" by blast
  have a: "is_approved (JList rs) = Inr (spec_is_approved entries)"
    by (rule is_approved_spec [OF assms(2)])
  from details_ok_big [OF assms(1)] obtain x y where
    x: "GithubService_is_big details = Inr x" and y: "GitHubClient_is_big details = Inr y"
    by blast
  from details_ok_leader [OF assms(1)] obtain l where l: "is_leader_branch details = Inr l"
    by blast
  have s: "spread details = Inr d" and m: "\<exists>b. is_ready_to_merge details = Inr b"
    using d by (simp_all add: spread_def is_ready_to_merge_def)
  from m obtain b where b: "is_ready_to_merge details = Inr b" by blast
  show ?thesis
    by (simp add: completes_def GithubService_derive_def GitHubClient_derive_def derive_def
        a x y l s b)
qed

section \<open>The test status of a record\<close>

text \<open>
  Whatever the derivation returns, the record of a pull request is the derived record or,
  when a statement of the derivation raised, the degraded copy of the pull request.
\<close>

lemma record_status:
  assumes "pr = JDict d"
  shows "(case derive big details reviews check_results of
            Inr enriched \<Rightarrow> Inr enriched
          | Inl e \<Rightarrow> GithubService_fallback pr) = Inr enriched \<Longrightarrow>
         subscript enriched ''testStatus'' =
           Inr (JStr (if completes (derive big details reviews check_results)
                      then spec_test_status check_results else ''unknown''))"
    and "(case derive big details reviews check_results of
            Inr enriched \<Rightarrow> Inr enriched
          | Inl e \<Rightarrow> GitHubClient_fallback pr) = Inr enriched \<Longrightarrow>
         subscript enriched ''testStatus'' =
           Inr (JStr (if completes (derive big details reviews check_results)
                      then spec_test_status check_results else ''unknown''))"
  using assms derive_test_status [of big details reviews check_results]
    GithubService_fallback_status [of d] GitHubClient_fallback_status [of d]
  by (auto simp: completes_def test_status_spec split: sum.splits)

lemma record_exists:
  assumes "pr = JDict d"
  shows "\<exists>enriched. (case m of Inr enriched \<Rightarrow> Inr enriched | Inl e \<Rightarrow> GithubService_fallback pr) = Inr enriched"
    and "\<exists>enriched. (case m of Inr enriched \<Rightarrow> Inr enriched | Inl e \<Rightarrow> GitHubClient_fallback pr) = Inr enriched"
  using assms GithubService_fallback_status [of d] GitHubClient_fallback_status [of d]
  by (auto split: sum.splits)

text \<open>
  C1, a run that contradicts the claim as it is written. All four requests are answered
  with status 200; one check run has the conclusion \<^verbatim>\<open>failure\<close>; one of
  the two reviews has \<^verbatim>\<open>user: null\<close> (a review of a deleted account).
  The three fetches succeed, the specification's cases give \<^verbatim>\<open>failed\<close>,
  and both services return the degraded record, whose \<^verbatim>\<open>testStatus\<close> is
  \<^verbatim>\<open>unknown\<close>: the subscript \<^verbatim>\<open>r['user']['login']\<close> raises in
  the statements that follow the fetches, inside the same \<^verbatim>\<open>try\<close>.
\<close>

theorem failed_check_run_reported_unknown:
  "fst (GithubService_fetch_pr_details ghost_repo ''o/r'' (JInt 42) (start ())) = Inr details42 \<and>
   fst (GithubService_fetch_pr_reviews ghost_repo ''o/r'' (JInt 42) (start ())) =
     Inr (JList [review ''A'' ''APPROVED'', ghost_review]) \<and>
   spec_test_status (fst (GithubService_fetch_check_runs ghost_repo ''o/r'' (JStr ''abc'') (start ())))
     = ''failed'' \<and>
   fst (GithubService_fetch_enriched_pull_requests ghost_repo ''o/r'' (start ())) =
     Inr [JDict
       [(''number'', JInt 42), (''head'', JDict [(''sha'', JStr ''abc'')]),
        (''testStatus'', JStr ''unknown''), (''checkResults'', JList []),
        (''isApproved'', JBool False), (''isBig'', JBool False),
        (''isReadyToMerge'', JBool False), (''isLeaderBranch'', JBool False)]] \<and>
   fst (GitHubClient_fetch_enriched_pull_requests ghost_repo ''o/r'' [] [] (start ())) =
     Inr [JDict
       [(''number'', JInt 42), (''head'', JDict [(''sha'', JStr ''abc'')]),
        (''testStatus'', JStr ''unknown''), (''isApproved'', JBool False),
        (''isBig'', JBool False), (''isReadyToMerge'', JBool False),
        (''isLeaderBranch'', JBool False)]]"
  by code_simp

text \<open>
  C1, amended. The statements that compute \<^verbatim>\<open>test_status\<close> (the same in both
  services) yield the specification's four cases in their order of precedence, whatever
  the number of check runs in each class. The result of either
  \<^verbatim>\<open>fetch_enriched_pull_requests\<close> is made of the records of the first fifty
  listed pull requests. When the three fetches of a pull request succeed, its record exists
  and carries under \<^verbatim>\<open>testStatus\<close> the value of the four cases if the
  statements after the fetches complete, and \<^verbatim>\<open>unknown\<close> if one of them
  raises. They complete whenever the details are an object with a string
  \<^verbatim>\<open>base.ref\<close> and an integer or absent \<^verbatim>\<open>changed_files\<close>, and
  every review is an object with a \<^verbatim>\<open>state\<close> and a user object whose
  \<^verbatim>\<open>login\<close> is hashable.
\<close>

theorem test_status_of_record:
  "test_status check_results = spec_test_status check_results \<and>
   (\<forall>prs w1.
      GithubService_fetch_pull_requests tr repo ''open'' w = (Inr (JList prs), w1) \<longrightarrow>
      fst (GithubService_fetch_enriched_pull_requests tr repo w) =
        traverse (\<lambda>r. r) (GithubService_records tr repo (take 50 prs) w1)) \<and>
   (\<forall>prs w1.
      GitHubClient_fetch_pull_requests tr repo ''open'' w = (Inr (JList prs), w1) \<longrightarrow>
      fst (GitHubClient_fetch_enriched_pull_requests tr repo choices order w) =
        traverse (\<lambda>r. r) (arrange order (GitHubClient_records tr repo choices (take 50 prs) w1))) \<and>
   (\<forall>pr number sha details reviews w0 w1 w2 w3.
      subscript pr ''number'' = Inr number \<and> head_sha pr = Inr sha \<and>
      GithubService_fetch_pr_details tr repo number w0 = (Inr details, w1) \<and>
      GithubService_fetch_pr_reviews tr repo number w1 = (Inr reviews, w2) \<and>
      GithubService_fetch_check_runs tr repo sha w2 = (check_results, w3) \<longrightarrow>
      (\<exists>enriched.
         GithubService_enrich_one tr repo pr w0 = (Inr enriched, w3) \<and>
         subscript enriched ''testStatus'' =
           Inr (JStr (if completes (GithubService_derive details reviews check_results)
                      then spec_test_status check_results else ''unknown'')))) \<and>
   (\<forall>pr fs number sha details reviews.
      subscript pr ''number'' = Inr number \<and> head_sha pr = Inr sha \<and>
      future_details fs = Inr details \<and> future_reviews fs = Inr reviews \<and>
      future_checks fs = check_results \<longrightarrow>
      (\<exists>enriched.
         GitHubClient_enrich_pr pr fs = Inr enriched \<and>
         subscript enriched ''testStatus'' =
           Inr (JStr (if completes (GitHubClient_derive details reviews check_results)
                      then spec_test_status check_results else ''unknown'')))) \<and>
   (\<forall>details rs entries.
      details_ok details \<and> traverse review_entry rs = Inr entries \<longrightarrow>
      completes (GithubService_derive details (JList rs) check_results) \<and>
      completes (GitHubClient_derive details (JList rs) check_results))"
proof (intro conjI allI impI)
  show "test_status check_results = spec_test_status check_results"
    by (rule test_status_spec)
next
  fix prs w1
  assume "GithubService_fetch_pull_requests tr repo ''open'' w = (Inr (JList prs), w1)"
  then show "fst (GithubService_fetch_enriched_pull_requests tr repo w) =
        traverse (\<lambda>r. r) (GithubService_records tr repo (take 50 prs) w1)"
    by (rule GithubService_top_records)
next
  fix prs w1
  assume "GitHubClient_fetch_pull_requests tr repo ''open'' w = (Inr (JList prs), w1)"
  then show "fst (GitHubClient_fetch_enriched_pull_requests tr repo choices order w) =
        traverse (\<lambda>r. r) (arrange order (GitHubClient_records tr repo choices (take 50 prs) w1))"
    by (simp add: GitHubClient_top_records)
next
  fix pr number sha details reviews w0 w1 w2 w3
  assume h: "subscript pr ''number'' = Inr number \<and> head_sha pr = Inr sha \<and>
      GithubService_fetch_pr_details tr repo number w0 = (Inr details, w1) \<and>
      GithubService_fetch_pr_reviews tr repo number w1 = (Inr reviews, w2) \<and>
      GithubService_fetch_check_runs tr repo sha w2 = (check_results, w3)"
  then obtain d where d: "pr = JDict d" using subscript_dict by blast
  from h have one: "GithubService_enrich_one tr repo pr w0 =
           ((case GithubService_derive details reviews check_results of
               Inr enriched \<Rightarrow> Inr enriched
             | Inl e \<Rightarrow> GithubService_fallback pr), w3)"
    using GithubService_enrich_one_fetched [of pr number sha tr repo w0 details w1 reviews w2 check_results w3]
    by simp
  from record_exists(1) [OF d] obtain enriched where
    e: "(case GithubService_derive details reviews check_results of
               Inr enriched \<Rightarrow> Inr enriched
             | Inl e \<Rightarrow> GithubService_fallback pr) = Inr enriched" by blast
  from record_status(1) [OF d, of GithubService_is_big details reviews check_results enriched] e
  have "subscript enriched ''testStatus'' =
           Inr (JStr (if completes (GithubService_derive details reviews check_results)
                      then spec_test_status check_results else ''unknown''))"
    by (simp add: GithubService_derive_def)
  with one e show "\<exists>enriched.
         GithubService_enrich_one tr repo pr w0 = (Inr enriched, w3) \<and>
         subscript enriched ''testStatus'' =
           Inr (JStr (if completes (GithubService_derive details reviews check_results)
                      then spec_test_status check_results else ''unknown''))"
    by auto
next
  fix pr number sha details reviews and fs :: futures
  assume h: "subscript pr ''number'' = Inr number \<and> head_sha pr = Inr sha \<and>
      future_details fs = Inr details \<and> future_reviews fs = Inr reviews \<and>
      future_checks fs = check_results"
  then obtain d where d: "pr = JDict d" using subscript_dict by blast
  from h have one: "GitHubClient_enrich_pr pr fs =
           (case GitHubClient_derive details reviews check_results of
              Inr enriched \<Rightarrow> Inr enriched
            | Inl e \<Rightarrow> GitHubClient_fallback pr)"
    using GitHubClient_enrich_pr_joined [of pr number sha fs details reviews] by simp
  from record_exists(2) [OF d] obtain enriched where
    e: "(case GitHubClient_derive details reviews check_results of
               Inr enriched \<Rightarrow> Inr enriched
             | Inl e \<Rightarrow> GitHubClient_fallback pr) = Inr enriched" by blast
  from record_status(2) [OF d, of GitHubClient_is_big details reviews check_results enriched] e
  have "subscript enriched ''testStatus'' =
           Inr (JStr (if completes (GitHubClient_derive details reviews check_results)
                      then spec_test_status check_results else ''unknown''))"
    by (simp add: GitHubClient_derive_def)
  with one e show "\<exists>enriched.
         GitHubClient_enrich_pr pr fs = Inr enriched \<and>
         subscript enriched ''testStatus'' =
           Inr (JStr (if completes (GitHubClient_derive details reviews check_results)
                      then spec_test_status check_results else ''unknown''))"
    by auto
next
  fix details rs entries
  assume "details_ok details \<and> traverse review_entry rs = Inr entries"
  then have "completes (GithubService_derive details (JList rs) check_results) \<and>
      completes (GitHubClient_derive details (JList rs) check_results)"
    using derive_completes [of details rs entries check_results] by simp
  then show "completes (GithubService_derive details (JList rs) check_results)"
    and "completes (GitHubClient_derive details (JList rs) check_results)" by simp_all
qed

text \<open>
  The amended claim on a provider that answers every request: the record of pull request 42
  carries \<^verbatim>\<open>failed\<close>.
\<close>

theorem test_status_of_record_witness:
  "\<exists>enriched w3.
     GithubService_enrich_one healthy_repo ''o/r'' pr42 (start ()) = (Inr enriched, w3) \<and>
     subscript enriched ''testStatus'' = Inr (JStr ''failed'')"
proof -
  define w1 where "w1 = snd (GithubService_fetch_pr_details healthy_repo ''o/r'' (JInt 42) (start ()))"
  define w2 where "w2 = snd (GithubService_fetch_pr_reviews healthy_repo ''o/r'' (JInt 42) w1)"
  define checks where "checks = fst (GithubService_fetch_check_runs healthy_repo ''o/r'' (JStr ''abc'') w2)"
  define w3 where "w3 = snd (GithubService_fetch_check_runs healthy_repo ''o/r'' (JStr ''abc'') w2)"
  have n: "subscript pr42 ''number'' = Inr (JInt 42)" by code_simp
  have s: "head_sha pr42 = Inr (JStr ''abc'')" by code_simp
  have d: "GithubService_fetch_pr_details healthy_repo ''o/r'' (JInt 42) (start ()) = (Inr details42, w1)"
    unfolding w1_def by code_simp
  have r: "GithubService_fetch_pr_reviews healthy_repo ''o/r'' (JInt 42) w1 =
             (Inr (JList [review ''bob'' ''APPROVED'']), w2)"
    unfolding w2_def w1_def by code_simp
  have c: "GithubService_fetch_check_runs healthy_repo ''o/r'' (JStr ''abc'') w2 = (checks, w3)"
    unfolding checks_def w3_def by simp
  have st: "spec_test_status checks = ''failed''"
    unfolding checks_def w2_def w1_def by code_simp
  have ok: "details_ok details42" by code_simp
  have rv: "traverse review_entry [review ''bob'' ''APPROVED''] = Inr [(KStr ''bob'', JStr ''APPROVED'')]"
    by code_simp
  note main = test_status_of_record [of checks healthy_repo "''o/r''" "start ()" "[]" "[]"]
  from main ok rv have
    "completes (GithubService_derive details42 (JList [review ''bob'' ''APPROVED'']) checks)"
    by blast
  moreover from main n s d r c have "\<exists>enriched.
         GithubService_enrich_one healthy_repo ''o/r'' pr42 (start ()) = (Inr enriched, w3) \<and>
         subscript enriched ''testStatus'' =
           Inr (JStr (if completes (GithubService_derive details42 (JList [review ''bob'' ''APPROVED'']) checks)
                      then spec_test_status checks else ''unknown''))"
    by blast
  ultimately show ?thesis using st by auto
qed

section \<open>The approval of a record\<close>

text \<open>
  Where the code reads a review without raising, it reads what the lenient reading gives.
\<close>

lemma review_entry_claimed:
  assumes "review_entry r = Inr e"
  shows "claimed_entry r = e"
proof -
  from assms obtain state user login k where
    s: "subscript r ''state'' = Inr state" and u: "subscript r ''user'' = Inr user" and
    l: "subscript user ''login'' = Inr login" and k: "hash_key login = Inr k" and
    e: "e = (k, state)"
    by (auto simp: review_entry_def bind_r_eq_Inr)
  from s obtain d where d: "r = JDict d" using subscript_dict by blast
  from l obtain d' where d': "user = JDict d'" using subscript_dict by blast
  from s u l k e d d' show ?thesis
    by (auto simp: claimed_entry_def field_def except_return_def split: option.splits)
qed

lemma traverse_claimed:
  "traverse review_entry rs = Inr entries \<Longrightarrow> entries = map claimed_entry rs"
proof (induction rs arbitrary: entries)
  case Nil then show ?case by simp
next
  case (Cons r rs)
  then show ?case by (auto simp: bind_r_eq_Inr dest: review_entry_claimed)
qed

text \<open>
  When the body of the \<^verbatim>\<open>try\<close> raises, the record is the degraded copy; when the
  details and the reviews are well formed, it is the derived record.
\<close>

lemma GithubService_enrich_one_degraded:
  assumes "is_dict pr" and "GithubService_enrich_try tr repo pr w0 = (Inl e, w')"
  shows "\<exists>degraded. GithubService_enrich_one tr repo pr w0 = (Inr degraded, w') \<and>
           subscript degraded ''testStatus'' = Inr (JStr ''unknown'') \<and>
           subscript degraded ''isApproved'' = Inr (JBool False)"
proof -
  from assms(1) obtain d where d: "pr = JDict d" by (cases pr) simp_all
  from GithubService_fallback_status [of d] assms(2) d show ?thesis
    by (auto simp: GithubService_enrich_one_def)
qed

lemma GitHubClient_enrich_pr_degraded:
  assumes "is_dict pr" and "GitHubClient_enrich_try pr fs = Inl e"
  shows "\<exists>degraded. GitHubClient_enrich_pr pr fs = Inr degraded \<and>
           subscript degraded ''testStatus'' = Inr (JStr ''unknown'') \<and>
           subscript degraded ''isApproved'' = Inr (JBool False)"
proof -
  from assms(1) obtain d where d: "pr = JDict d" by (cases pr) simp_all
  from GitHubClient_fallback_status [of d] assms(2) d show ?thesis
    by (auto simp: GitHubClient_enrich_pr_def)
qed

lemma record_approval:
  assumes "details_ok details" and "traverse review_entry rs = Inr entries"
  shows "\<exists>enriched. GithubService_derive details (JList rs) checks = Inr enriched \<and>
           subscript enriched ''isApproved'' = Inr (JBool (spec_is_approved entries))"
    and "\<exists>enriched. GitHubClient_derive details (JList rs) checks = Inr enriched \<and>
           subscript enriched ''isApproved'' = Inr (JBool (spec_is_approved entries))"
proof -
  from derive_completes [OF assms, of checks] obtain a b where
    a: "GithubService_derive details (JList rs) checks = Inr a" and
    b: "GitHubClient_derive details (JList rs) checks = Inr b"
    by (auto simp: completes_def split: sum.splits)
  from a derive_is_approved [of GithubService_is_big details "JList rs" checks a]
    is_approved_spec [OF assms(2)]
  show "\<exists>enriched. GithubService_derive details (JList rs) checks = Inr enriched \<and>
           subscript enriched ''isApproved'' = Inr (JBool (spec_is_approved entries))"
    by (auto simp: GithubService_derive_def)
  from b derive_is_approved [of GitHubClient_is_big details "JList rs" checks b]
    is_approved_spec [OF assms(2)]
  show "\<exists>enriched. GitHubClient_derive details (JList rs) checks = Inr enriched \<and>
           subscript enriched ''isApproved'' = Inr (JBool (spec_is_approved entries))"
    by (auto simp: GitHubClient_derive_def)
qed

text \<open>
  C4, a run that contradicts the claim as it is written. The provider answers the reviews
  request with an approving review of \<^verbatim>\<open>A\<close> and a comment whose
  \<^verbatim>\<open>user\<close> is null. One state per login, the last winning, leaves
  \<^verbatim>\<open>APPROVED\<close> and \<^verbatim>\<open>COMMENTED\<close>: approved, as the claim has it. The code
  raises \<^verbatim>\<open>TypeError\<close> at \<^verbatim>\<open>r['user']['login']\<close>, and the record both
  services return has \<^verbatim>\<open>isApproved\<close> false.
\<close>

theorem approving_review_beside_ghost_review:
  "fst (GithubService_fetch_pr_reviews ghost_repo ''o/r'' (JInt 42) (start ())) =
     Inr (JList [review ''A'' ''APPROVED'', ghost_review]) \<and>
   map claimed_entry [review ''A'' ''APPROVED'', ghost_review] =
     [(KStr ''A'', JStr ''APPROVED''), (KNone, JStr ''COMMENTED'')] \<and>
   claimed_is_approved [review ''A'' ''APPROVED'', ghost_review] \<and>
   is_approved (JList [review ''A'' ''APPROVED'', ghost_review]) = Inl TypeError \<and>
   (\<exists>degraded.
      fst (GithubService_fetch_enriched_pull_requests ghost_repo ''o/r'' (start ())) = Inr [degraded] \<and>
      subscript degraded ''isApproved'' = Inr (JBool False)) \<and>
   (\<exists>degraded.
      fst (GitHubClient_fetch_enriched_pull_requests ghost_repo ''o/r'' [] [] (start ())) = Inr [degraded] \<and>
      subscript degraded ''isApproved'' = Inr (JBool False))"
proof -
  have a: "fst (GithubService_fetch_pr_reviews ghost_repo ''o/r'' (JInt 42) (start ())) =
     Inr (JList [review ''A'' ''APPROVED'', ghost_review])" by code_simp
  have b: "map claimed_entry [review ''A'' ''APPROVED'', ghost_review] =
     [(KStr ''A'', JStr ''APPROVED''), (KNone, JStr ''COMMENTED'')]" by code_simp
  have c: "claimed_is_approved [review ''A'' ''APPROVED'', ghost_review]" by code_simp
  have d: "is_approved (JList [review ''A'' ''APPROVED'', ghost_review]) = Inl TypeError"
    by code_simp
  have e: "fst (GithubService_fetch_enriched_pull_requests ghost_repo ''o/r'' (start ())) =
     Inr [JDict
       [(''number'', JInt 42), (''head'', JDict [(''sha'', JStr ''abc'')]),
        (''testStatus'', JStr ''unknown''), (''checkResults'', JList []),
        (''isApproved'', JBool False), (''isBig'', JBool False),
        (''isReadyToMerge'', JBool False), (''isLeaderBranch'', JBool False)]]" by code_simp
  have f: "fst (GitHubClient_fetch_enriched_pull_requests ghost_repo ''o/r'' [] [] (start ())) =
     Inr [JDict
       [(''number'', JInt 42), (''head'', JDict [(''sha'', JStr ''abc'')]),
        (''testStatus'', JStr ''unknown''), (''isApproved'', JBool False),
        (''isBig'', JBool False), (''isReadyToMerge'', JBool False),
        (''isLeaderBranch'', JBool False)]]" by code_simp
  from a b c d e f show ?thesis by simp
qed

text \<open>
  C4, amended. For every fetched review list whose reviews each carry a state and a user
  with a hashable login, \<^verbatim>\<open>isApproved\<close> is the specification's approval of the
  (login, state) entries in list order: one state per login, the last occurrence winning,
  approved iff those states contain \<^verbatim>\<open>APPROVED\<close> and not
  \<^verbatim>\<open>CHANGES_REQUESTED\<close>; when moreover the details are well formed, the record of
  the pull request in either service carries that value. Whenever the body of the
  \<^verbatim>\<open>try\<close> raises, the record carries \<^verbatim>\<open>isApproved\<close> false whatever the
  reviews. The result of either \<^verbatim>\<open>fetch_enriched_pull_requests\<close> is made of
  these records. Approved then changes-requested by the same login is not approved, the
  reverse order is.
\<close>

theorem approval_of_record:
  "(\<forall>entries.
      traverse review_entry reviews = Inr entries \<longrightarrow>
      entries = map claimed_entry reviews \<and>
      is_approved (JList reviews) = Inr (spec_is_approved entries) \<and>
      (\<forall>pr number sha details check_results w0 w1 w2 w3.
         subscript pr ''number'' = Inr number \<and> head_sha pr = Inr sha \<and>
         GithubService_fetch_pr_details tr repo number w0 = (Inr details, w1) \<and>
         GithubService_fetch_pr_reviews tr repo number w1 = (Inr (JList reviews), w2) \<and>
         GithubService_fetch_check_runs tr repo sha w2 = (check_results, w3) \<and>
         details_ok details \<longrightarrow>
         (\<exists>enriched.
            GithubService_enrich_one tr repo pr w0 = (Inr enriched, w3) \<and>
            subscript enriched ''isApproved'' = Inr (JBool (spec_is_approved entries)))) \<and>
      (\<forall>pr fs number sha details.
         subscript pr ''number'' = Inr number \<and> head_sha pr = Inr sha \<and>
         future_details fs = Inr details \<and> future_reviews fs = Inr (JList reviews) \<and>
         details_ok details \<longrightarrow>
         (\<exists>enriched.
            GitHubClient_enrich_pr pr fs = Inr enriched \<and>
            subscript enriched ''isApproved'' = Inr (JBool (spec_is_approved entries))))) \<and>
   (\<forall>pr e w0 w'.
      is_dict pr \<and> GithubService_enrich_try tr repo pr w0 = (Inl e, w') \<longrightarrow>
      (\<exists>degraded.
         GithubService_enrich_one tr repo pr w0 = (Inr degraded, w') \<and>
         subscript degraded ''isApproved'' = Inr (JBool False))) \<and>
   (\<forall>pr fs e.
      is_dict pr \<and> GitHubClient_enrich_try pr fs = Inl e \<longrightarrow>
      (\<exists>degraded.
         GitHubClient_enrich_pr pr fs = Inr degraded \<and>
         subscript degraded ''isApproved'' = Inr (JBool False))) \<and>
   (\<forall>prs w1.
      GithubService_fetch_pull_requests tr repo ''open'' w = (Inr (JList prs), w1) \<longrightarrow>
      fst (GithubService_fetch_enriched_pull_requests tr repo w) =
        traverse (\<lambda>r. r) (GithubService_records tr repo (take 50 prs) w1)) \<and>
   (\<forall>prs w1.
      GitHubClient_fetch_pull_requests tr repo ''open'' w = (Inr (JList prs), w1) \<longrightarrow>
      fst (GitHubClient_fetch_enriched_pull_requests tr repo choices order w) =
        traverse (\<lambda>r. r) (arrange order (GitHubClient_records tr repo choices (take 50 prs) w1))) \<and>
   is_approved (JList [review ''A'' ''APPROVED'', review ''A'' ''CHANGES_REQUESTED'']) = Inr False \<and>
   is_approved (JList [review ''A'' ''CHANGES_REQUESTED'', review ''A'' ''APPROVED'']) = Inr True"
proof (intro conjI allI impI)
  fix entries
  assume t: "traverse review_entry reviews = Inr entries"
  show "entries = map claimed_entry reviews" by (rule traverse_claimed [OF t])
  show "is_approved (JList reviews) = Inr (spec_is_approved entries)"
    by (rule is_approved_spec [OF t])
  {
    fix pr number sha details check_results w0 w1 w2 w3
    assume h: "subscript pr ''number'' = Inr number \<and> head_sha pr = Inr sha \<and>
         GithubService_fetch_pr_details tr repo number w0 = (Inr details, w1) \<and>
         GithubService_fetch_pr_reviews tr repo number w1 = (Inr (JList reviews), w2) \<and>
         GithubService_fetch_check_runs tr repo sha w2 = (check_results, w3) \<and>
         details_ok details"
    then have one: "GithubService_enrich_one tr repo pr w0 =
           ((case GithubService_derive details (JList reviews) check_results of
               Inr enriched \<Rightarrow> Inr enriched
             | Inl e \<Rightarrow> GithubService_fallback pr), w3)"
      using GithubService_enrich_one_fetched
        [of pr number sha tr repo w0 details w1 "JList reviews" w2 check_results w3]
      by simp
    from h have ok: "details_ok details" by simp
    from record_approval(1) [OF ok t, of check_results] one
    show "\<exists>enriched.
            GithubService_enrich_one tr repo pr w0 = (Inr enriched, w3) \<and>
            subscript enriched ''isApproved'' = Inr (JBool (spec_is_approved entries))"
      by auto
  }
  {
    fix pr number sha details and fs :: futures
    assume h: "subscript pr ''number'' = Inr number \<and> head_sha pr = Inr sha \<and>
         future_details fs = Inr details \<and> future_reviews fs = Inr (JList reviews) \<and>
         details_ok details"
    then have one: "GitHubClient_enrich_pr pr fs =
           (case GitHubClient_derive details (JList reviews) (future_checks fs) of
              Inr enriched \<Rightarrow> Inr enriched
            | Inl e \<Rightarrow> GitHubClient_fallback pr)"
      using GitHubClient_enrich_pr_joined [of pr number sha fs details "JList reviews"] by simp
    from h have ok: "details_ok details" by simp
    from record_approval(2) [OF ok t, of "future_checks fs"] one
    show "\<exists>enriched.
            GitHubClient_enrich_pr pr fs = Inr enriched \<and>
            subscript enriched ''isApproved'' = Inr (JBool (spec_is_approved entries))"
      by auto
  }
next
  fix pr e w0 w'
  assume "is_dict pr \<and> GithubService_enrich_try tr repo pr w0 = (Inl e, w')"
  then show "\<exists>degraded.
         GithubService_enrich_one tr repo pr w0 = (Inr degraded, w') \<and>
         subscript degraded ''isApproved'' = Inr (JBool False)"
    using GithubService_enrich_one_degraded [of pr tr repo w0 e w'] by auto
next
  fix pr e and fs :: futures
  assume "is_dict pr \<and> GitHubClient_enrich_try pr fs = Inl e"
  then show "\<exists>degraded.
         GitHubClient_enrich_pr pr fs = Inr degraded \<and>
         subscript degraded ''isApproved'' = Inr (JBool False)"
    using GitHubClient_enrich_pr_degraded [of pr fs e] by auto
next
  fix prs w1
  assume "GithubService_fetch_pull_requests tr repo ''open'' w = (Inr (JList prs), w1)"
  then show "fst (GithubService_fetch_enriched_pull_requests tr repo w) =
        traverse (\<lambda>r. r) (GithubService_records tr repo (take 50 prs) w1)"
    by (rule GithubService_top_records)
next
  fix prs w1
  assume "GitHubClient_fetch_pull_requests tr repo ''open'' w = (Inr (JList prs), w1)"
  then show "fst (GitHubClient_fetch_enriched_pull_requests tr repo choices order w) =
        traverse (\<lambda>r. r) (arrange order (GitHubClient_records tr repo choices (take 50 prs) w1))"
    by (simp add: GitHubClient_top_records)
next
  show "is_approved (JList [review ''A'' ''APPROVED'', review ''A'' ''CHANGES_REQUESTED'']) = Inr False"
    by (simp add: is_approved_def review_def review_entry_def approved_states_def)
next
  show "is_approved (JList [review ''A'' ''CHANGES_REQUESTED'', review ''A'' ''APPROVED'']) = Inr True"
    by (simp add: is_approved_def review_def review_entry_def approved_states_def)
qed

text \<open>
  The amended claim on a provider that answers every request, and on a pull request
  without a number, whose record is the degraded one.
\<close>

theorem approval_of_record_witness:
  "is_approved (JList [review ''bob'' ''APPROVED'']) = Inr True \<and>
   (\<exists>enriched w3.
      GithubService_enrich_one healthy_repo ''o/r'' pr42 (start ()) = (Inr enriched, w3) \<and>
      subscript enriched ''isApproved'' = Inr (JBool True)) \<and>
   (\<exists>enriched.
      GitHubClient_enrich_pr pr42
        \<lparr>future_details = Inr details42, future_reviews = Inr (JList [review ''bob'' ''APPROVED'']),
         future_checks = []\<rparr> = Inr enriched \<and>
      subscript enriched ''isApproved'' = Inr (JBool True)) \<and>
   (\<exists>degraded.
      GithubService_enrich_one healthy_repo ''o/r'' (JDict []) (start ()) = (Inr degraded, start ()) \<and>
      subscript degraded ''isApproved'' = Inr (JBool False)) \<and>
   (\<exists>degraded.
      GitHubClient_enrich_pr (JDict [])
        \<lparr>future_details = Inr details42, future_reviews = Inr (JList [review ''bob'' ''APPROVED'']),
         future_checks = []\<rparr> = Inr degraded \<and>
      subscript degraded ''isApproved'' = Inr (JBool False)) \<and>
   (\<exists>w1. fst (GithubService_fetch_enriched_pull_requests healthy_repo ''o/r'' (start ())) =
        traverse (\<lambda>r. r) (GithubService_records healthy_repo ''o/r'' [pr42] w1)) \<and>
   (\<exists>w1. fst (GitHubClient_fetch_enriched_pull_requests healthy_repo ''o/r'' [] [] (start ())) =
        traverse (\<lambda>r. r) (arrange [] (GitHubClient_records healthy_repo ''o/r'' [] [pr42] w1)))"
proof -
  define fs where "fs = \<lparr>future_details = Inr details42,
    future_reviews = Inr (JList [review ''bob'' ''APPROVED'']), future_checks = []\<rparr>"
  define w1 where "w1 = snd (GithubService_fetch_pr_details healthy_repo ''o/r'' (JInt 42) (start ()))"
  define w2 where "w2 = snd (GithubService_fetch_pr_reviews healthy_repo ''o/r'' (JInt 42) w1)"
  define checks where "checks = fst (GithubService_fetch_check_runs healthy_repo ''o/r'' (JStr ''abc'') w2)"
  define w3 where "w3 = snd (GithubService_fetch_check_runs healthy_repo ''o/r'' (JStr ''abc'') w2)"
  define ws where "ws = snd (GithubService_fetch_pull_requests healthy_repo ''o/r'' ''open'' (start ()))"
  define wc where "wc = snd (GitHubClient_fetch_pull_requests healthy_repo ''o/r'' ''open'' (start ()))"
  have n: "subscript pr42 ''number'' = Inr (JInt 42)" by code_simp
  have s: "head_sha pr42 = Inr (JStr ''abc'')" by code_simp
  have d: "GithubService_fetch_pr_details healthy_repo ''o/r'' (JInt 42) (start ()) = (Inr details42, w1)"
    unfolding w1_def by code_simp
  have r: "GithubService_fetch_pr_reviews healthy_repo ''o/r'' (JInt 42) w1 =
             (Inr (JList [review ''bob'' ''APPROVED'']), w2)"
    unfolding w2_def w1_def by code_simp
  have c: "GithubService_fetch_check_runs healthy_repo ''o/r'' (JStr ''abc'') w2 = (checks, w3)"
    unfolding checks_def w3_def by simp
  have ok: "details_ok details42" by code_simp
  have rv: "traverse review_entry [review ''bob'' ''APPROVED''] = Inr [(KStr ''bob'', JStr ''APPROVED'')]"
    by code_simp
  have sp: "spec_is_approved [(KStr ''bob'', JStr ''APPROVED'')]" by code_simp
  have fd: "future_details fs = Inr details42"
    and fr: "future_reviews fs = Inr (JList [review ''bob'' ''APPROVED''])"
    by (simp_all add: fs_def)
  have e: "is_dict (JDict [])" by simp
  have ts: "GithubService_enrich_try healthy_repo ''o/r'' (JDict []) (start ()) = (Inl KeyError, start ())"
    by (simp add: GithubService_enrich_try_def)
  have tc: "GitHubClient_enrich_try (JDict []) fs = Inl KeyError"
    by (simp add: GitHubClient_enrich_try_def)
  have ls: "GithubService_fetch_pull_requests healthy_repo ''o/r'' ''open'' (start ()) = (Inr (JList [pr42]), ws)"
    unfolding ws_def by code_simp
  have lc: "GitHubClient_fetch_pull_requests healthy_repo ''o/r'' ''open'' (start ()) = (Inr (JList [pr42]), wc)"
    unfolding wc_def by code_simp
  note main = approval_of_record
    [of "[review ''bob'' ''APPROVED'']" healthy_repo "''o/r''" "start ()" "[]" "[]"]
  note reviews = main [THEN conjunct1, rule_format, OF rv]
  note rest = main [THEN conjunct2]
  from reviews have a1: "is_approved (JList [review ''bob'' ''APPROVED'']) =
      Inr (spec_is_approved [(KStr ''bob'', JStr ''APPROVED'')])"
    by simp
  from reviews [THEN conjunct2, THEN conjunct2, THEN conjunct1, rule_format,
      OF conjI [OF n conjI [OF s conjI [OF d conjI [OF r conjI [OF c ok]]]]]]
  have a2: "\<exists>enriched.
      GithubService_enrich_one healthy_repo ''o/r'' pr42 (start ()) = (Inr enriched, w3) \<and>
      subscript enriched ''isApproved'' = Inr (JBool (spec_is_approved [(KStr ''bob'', JStr ''APPROVED'')]))"
    by simp
  from reviews [THEN conjunct2, THEN conjunct2, THEN conjunct2, rule_format,
      OF conjI [OF n conjI [OF s conjI [OF fd conjI [OF fr ok]]]]]
  have a3: "\<exists>enriched.
      GitHubClient_enrich_pr pr42 fs = Inr enriched \<and>
      subscript enriched ''isApproved'' = Inr (JBool (spec_is_approved [(KStr ''bob'', JStr ''APPROVED'')]))"
    by simp
  from rest [THEN conjunct1, rule_format, OF conjI [OF e ts]]
  have a4: "\<exists>degraded.
      GithubService_enrich_one healthy_repo ''o/r'' (JDict []) (start ()) = (Inr degraded, start ()) \<and>
      subscript degraded ''isApproved'' = Inr (JBool False)"
    by simp
  from rest [THEN conjunct2, THEN conjunct1, rule_format, OF conjI [OF e tc]]
  have a5: "\<exists>degraded.
      GitHubClient_enrich_pr (JDict []) fs = Inr degraded \<and>
      subscript degraded ''isApproved'' = Inr (JBool False)"
    by simp
  from rest [THEN conjunct2, THEN conjunct2, THEN conjunct1, rule_format, OF ls]
  have a6: "fst (GithubService_fetch_enriched_pull_requests healthy_repo ''o/r'' (start ())) =
        traverse (\<lambda>r. r) (GithubService_records healthy_repo ''o/r'' [pr42] ws)"
    by simp
  from rest [THEN conjunct2, THEN conjunct2, THEN conjunct2, THEN conjunct1, rule_format, OF lc]
  have a7: "fst (GitHubClient_fetch_enriched_pull_requests healthy_repo ''o/r'' [] [] (start ())) =
        traverse (\<lambda>r. r) (arrange [] (GitHubClient_records healthy_repo ''o/r'' [] [pr42] wc))"
    by simp
  from a1 sp have b1: "is_approved (JList [review ''bob'' ''APPROVED'']) = Inr True" by simp
  from a2 sp have b2: "\<exists>enriched w3.
      GithubService_enrich_one healthy_repo ''o/r'' pr42 (start ()) = (Inr enriched, w3) \<and>
      subscript enriched ''isApproved'' = Inr (JBool True)" by auto
  from a3 sp have b3: "\<exists>enriched.
      GitHubClient_enrich_pr pr42 fs = Inr enriched \<and>
      subscript enriched ''isApproved'' = Inr (JBool True)" by auto
  from a6 have b6: "\<exists>w1. fst (GithubService_fetch_enriched_pull_requests healthy_repo ''o/r'' (start ())) =
        traverse (\<lambda>r. r) (GithubService_records healthy_repo ''o/r'' [pr42] w1)" by blast
  from a7 have b7: "\<exists>w1. fst (GitHubClient_fetch_enriched_pull_requests healthy_repo ''o/r'' [] [] (start ())) =
        traverse (\<lambda>r. r) (arrange [] (GitHubClient_records healthy_repo ''o/r'' [] [pr42] w1))" by blast
  from b1 b2 b3 a4 a5 b6 b7 show ?thesis
    unfolding fs_def by blast
qed

section \<open>The first fifty\<close>

text \<open>
  The events of the loop of \<^verbatim>\<open>GithubService\<close>: every call is a request of the PR at
  hand, at most three per PR.
\<close>

lemma GithubService_request_trace:
  "GithubService_request tr ep method is_text w = (res, w') \<Longrightarrow>
     \<exists>out. trace w' = trace w @ [Call \<lparr>http_method = method, target = ep\<rparr> out]"
  by (auto simp: GithubService_request_def split: prod.splits outcome.splits dest: trace_send)

lemma pool_events_call:
  "pool_events A [Call rq out] \<longleftrightarrow> rq \<in> A"
  by (simp add: pool_events_def)

lemma pool_events_Nil [simp]: "pool_events A []"
  by (simp add: pool_events_def)

lemma GithubService_enrich_try_events:
  assumes "GithubService_enrich_try tr repo pr w = (res, w')"
  shows "\<exists>evs. trace w' = trace w @ evs \<and> pool_events (enrichment_requests repo [pr]) evs \<and>
           length (filter is_call evs) \<le> 3"
proof (cases "subscript pr ''number''")
  case (Inl e)
  with assms show ?thesis by (simp add: GithubService_enrich_try_def)
next
  case (Inr number)
  obtain rd w1 where d: "GithubService_fetch_pr_details tr repo number w = (rd, w1)"
    by (cases "GithubService_fetch_pr_details tr repo number w")
  obtain rr w2 where r: "GithubService_fetch_pr_reviews tr repo number w1 = (rr, w2)"
    by (cases "GithubService_fetch_pr_reviews tr repo number w1")
  from d obtain o1 where
    t1: "trace w1 = trace w @ [Call \<lparr>http_method = ''GET'', target = PullDetails repo number\<rparr> o1]"
    unfolding GithubService_fetch_pr_details_def by (auto dest: GithubService_request_trace)
  from r obtain o2 where
    t2: "trace w2 = trace w1 @ [Call \<lparr>http_method = ''GET'', target = PullReviews repo number\<rparr> o2]"
    unfolding GithubService_fetch_pr_reviews_def by (auto dest: GithubService_request_trace)
  have m1: "\<lparr>http_method = ''GET'', target = PullDetails repo number\<rparr> \<in> enrichment_requests repo [pr]"
    and m2: "\<lparr>http_method = ''GET'', target = PullReviews repo number\<rparr> \<in> enrichment_requests repo [pr]"
    using Inr by (auto simp: enrichment_requests_def GitHubClient_submissions_def split: sum.splits)
  show ?thesis
  proof (cases rd)
    case (Inl e)
    with assms Inr d have "w' = w1" by (simp add: GithubService_enrich_try_def)
    with t1 m1 show ?thesis by (simp add: pool_events_call)
  next
    case rd: (Inr details)
    show ?thesis
    proof (cases rr)
      case (Inl e)
      with assms Inr d r rd have "w' = w2" by (simp add: GithubService_enrich_try_def)
      with t1 t2 m1 m2 show ?thesis by (simp add: pool_events_def)
    next
      case rr: (Inr reviews)
      show ?thesis
      proof (cases "head_sha pr")
        case (Inl e)
        with assms Inr d r rd rr have "w' = w2" by (simp add: GithubService_enrich_try_def)
        with t1 t2 m1 m2 show ?thesis by (simp add: pool_events_def)
      next
        case sha: (Inr sha)
        obtain crs w3 where c: "GithubService_fetch_check_runs tr repo sha w2 = (crs, w3)"
          by (cases "GithubService_fetch_check_runs tr repo sha w2")
        from c obtain o3 where
          t3: "trace w3 = trace w2 @ [Call \<lparr>http_method = ''GET'', target = CheckRuns repo sha\<rparr> o3]"
          unfolding GithubService_fetch_check_runs_def
          by (auto split: prod.splits dest: GithubService_request_trace)
        have m3: "\<lparr>http_method = ''GET'', target = CheckRuns repo sha\<rparr> \<in> enrichment_requests repo [pr]"
          using Inr sha by (auto simp: enrichment_requests_def GitHubClient_submissions_def)
        from assms Inr d r rd rr sha c have "w' = w3" by (simp add: GithubService_enrich_try_def)
        with t1 t2 t3 m1 m2 m3 show ?thesis by (simp add: pool_events_def)
      qed
    qed
  qed
qed

lemma GithubService_enrich_one_events:
  assumes "GithubService_enrich_one tr repo pr w = (res, w')"
  shows "\<exists>evs. trace w' = trace w @ evs \<and> pool_events (enrichment_requests repo [pr]) evs \<and>
           length (filter is_call evs) \<le> 3"
proof -
  obtain r w1 where t: "GithubService_enrich_try tr repo pr w = (r, w1)"
    by (cases "GithubService_enrich_try tr repo pr w")
  with assms have "w' = w1" by (cases r) (simp_all add: GithubService_enrich_one_def)
  with GithubService_enrich_try_events [OF t] show ?thesis by simp
qed

lemma enrichment_requests_Cons:
  "enrichment_requests repo [pr] \<subseteq> enrichment_requests repo (pr # prs)"
  "enrichment_requests repo prs \<subseteq> enrichment_requests repo (pr # prs)"
  by (auto simp: enrichment_requests_def)

lemma GithubService_enrich_loop_events:
  assumes "GithubService_enrich_loop tr repo prs results w = (res, w')"
  shows "\<exists>evs. trace w' = trace w @ evs \<and> pool_events (enrichment_requests repo prs) evs \<and>
           length (filter is_call evs) \<le> 3 * length prs"
  using assms
proof (induction prs arbitrary: results w)
  case Nil
  then show ?case by simp
next
  case (Cons pr prs)
  obtain r w1 where one: "GithubService_enrich_one tr repo pr w = (r, w1)"
    by (cases "GithubService_enrich_one tr repo pr w")
  from GithubService_enrich_one_events [OF one] obtain evs1 where
    t1: "trace w1 = trace w @ evs1" and p1: "pool_events (enrichment_requests repo [pr]) evs1"
    and c1: "length (filter is_call evs1) \<le> 3"
    by blast
  from pool_events_mono [OF p1 enrichment_requests_Cons(1)]
  have p1': "pool_events (enrichment_requests repo (pr # prs)) evs1"
    by simp
  show ?case
  proof (cases r)
    case (Inl e)
    with Cons.prems one have "w' = w1" by simp
    with t1 p1' c1 show ?thesis by simp
  next
    case (Inr enriched)
    with Cons.prems one have
      "GithubService_enrich_loop tr repo prs (results @ [enriched]) w1 = (res, w')" by simp
    from Cons.IH [OF this] obtain evs2 where
      t2: "trace w' = trace w1 @ evs2" and p2: "pool_events (enrichment_requests repo prs) evs2"
      and c2: "length (filter is_call evs2) \<le> 3 * length prs"
      by blast
    from pool_events_mono [OF p2 enrichment_requests_Cons(2)]
    have p2': "pool_events (enrichment_requests repo (pr # prs)) evs2"
      by simp
    from t1 t2 p1' p2' c1 c2 show ?thesis by (simp add: pool_events_append)
  qed
qed

lemma length_GithubService_records [simp]:
  "length (GithubService_records tr repo items w) = length items"
  by (simp add: GithubService_records_def)

lemma length_GitHubClient_records [simp]:
  "length (GitHubClient_records tr repo choices items w) = length items"
  by (simp add: GitHubClient_records_def)

text \<open>The requests of numbered PRs name their numbers.\<close>

lemma numbered_requests:
  "\<lparr>http_method = ''GET'', target = PullDetails repo (JInt k)\<rparr>
     \<in> enrichment_requests repo (map numbered_pr ns) \<Longrightarrow> k \<in> int ` set ns"
  "\<lparr>http_method = ''GET'', target = PullReviews repo (JInt k)\<rparr>
     \<in> enrichment_requests repo (map numbered_pr ns) \<Longrightarrow> k \<in> int ` set ns"
  by (auto simp: enrichment_requests_def GitHubClient_submissions_def numbered_pr_def head_sha_def)

text \<open>
  C7. When the listing request returns a list, either service enriches its first 50
  entries only. The result is made of the records of that prefix, one per entry, so
  min(length, 50) of them: in \<^verbatim>\<open>GithubService\<close> in list order, in
  \<^verbatim>\<open>GitHubClient\<close> in the order in which the pool completes them. After the
  listing every call to the transport, under every interleaving of the pool's threads, is
  a request that a PR of the prefix submits (its details, its reviews, the check runs of
  its head commit), and there are at most 3 of them per PR of the prefix in
  \<^verbatim>\<open>GithubService\<close> and at most 9 (three requests, three attempts each) in
  \<^verbatim>\<open>GitHubClient\<close>: the PRs beyond position 50 contribute no record and trigger no
  fetch. When the PRs of the prefix are objects, the call returns these records.
\<close>

theorem first_fifty_only:
  "(\<forall>prs w1.
      GithubService_fetch_pull_requests tr repo ''open'' w = (Inr (JList prs), w1) \<longrightarrow>
      GithubService_fetch_enriched_pull_requests tr repo w =
        GithubService_enrich_loop tr repo (take 50 prs) [] w1 \<and>
      fst (GithubService_fetch_enriched_pull_requests tr repo w) =
        traverse (\<lambda>r. r) (GithubService_records tr repo (take 50 prs) w1) \<and>
      length (GithubService_records tr repo (take 50 prs) w1) = min (length prs) 50 \<and>
      (\<exists>evs. trace (snd (GithubService_fetch_enriched_pull_requests tr repo w)) = trace w1 @ evs \<and>
         pool_events (enrichment_requests repo (take 50 prs)) evs \<and>
         length (filter is_call evs) \<le> 3 * min (length prs) 50) \<and>
      attempts (snd (GithubService_fetch_enriched_pull_requests tr repo w))
        \<le> attempts w1 + 3 * min (length prs) 50 \<and>
      ((\<forall>pr \<in> set (take 50 prs). is_dict pr) \<longrightarrow>
       (\<exists>results. fst (GithubService_fetch_enriched_pull_requests tr repo w) = Inr results \<and>
          length results = min (length prs) 50))) \<and>
   (\<forall>prs w1.
      GitHubClient_fetch_pull_requests tr repo ''open'' w = (Inr (JList prs), w1) \<longrightarrow>
      fst (GitHubClient_fetch_enriched_pull_requests tr repo choices order w) =
        traverse (\<lambda>r. r) (arrange order (GitHubClient_records tr repo choices (take 50 prs) w1)) \<and>
      length (GitHubClient_records tr repo choices (take 50 prs) w1) = min (length prs) 50 \<and>
      (\<exists>evs. trace (snd (GitHubClient_fetch_enriched_pull_requests tr repo choices order w)) =
               trace w1 @ evs \<and>
         pool_events (enrichment_requests repo (take 50 prs)) evs \<and>
         length (filter is_call evs) \<le> 9 * min (length prs) 50) \<and>
      attempts (snd (GitHubClient_fetch_enriched_pull_requests tr repo choices order w))
        \<le> attempts w1 + 9 * min (length prs) 50 \<and>
      ((\<forall>pr \<in> set (take 50 prs). is_dict pr) \<longrightarrow>
       (\<exists>results.
          fst (GitHubClient_fetch_enriched_pull_requests tr repo choices order w) = Inr results \<and>
          length results = min (length prs) 50)))"
proof (intro conjI allI impI)
  fix prs w1
  assume h: "GithubService_fetch_pull_requests tr repo ''open'' w = (Inr (JList prs), w1)"
  show eq: "GithubService_fetch_enriched_pull_requests tr repo w =
           GithubService_enrich_loop tr repo (take 50 prs) [] w1"
    using h by (simp add: GithubService_fetch_enriched_pull_requests_def)
  show "fst (GithubService_fetch_enriched_pull_requests tr repo w) =
        traverse (\<lambda>r. r) (GithubService_records tr repo (take 50 prs) w1)"
    by (rule GithubService_top_records [OF h])
  show "length (GithubService_records tr repo (take 50 prs) w1) = min (length prs) 50"
    by simp
  obtain res w' where l: "GithubService_enrich_loop tr repo (take 50 prs) [] w1 = (res, w')"
    by (cases "GithubService_enrich_loop tr repo (take 50 prs) [] w1")
  from GithubService_enrich_loop_events [OF l] eq l
  show ev: "\<exists>evs. trace (snd (GithubService_fetch_enriched_pull_requests tr repo w)) = trace w1 @ evs \<and>
         pool_events (enrichment_requests repo (take 50 prs)) evs \<and>
         length (filter is_call evs) \<le> 3 * min (length prs) 50" by simp
  then show "attempts (snd (GithubService_fetch_enriched_pull_requests tr repo w))
        \<le> attempts w1 + 3 * min (length prs) 50"
    by (auto simp: attempts_def)
  {
    assume d: "\<forall>pr \<in> set (take 50 prs). is_dict pr"
    from GithubService_enrich_loop_dicts [OF d, of tr repo "[]" w1]
    obtain out w' where l: "GithubService_enrich_loop tr repo (take 50 prs) [] w1 = (Inr out, w')"
      and n: "length out = length (take 50 prs)" by auto
    from eq l n show "\<exists>results. fst (GithubService_fetch_enriched_pull_requests tr repo w) = Inr results \<and>
         length results = min (length prs) 50" by simp
  }
next
  fix prs w1
  assume l: "GitHubClient_fetch_pull_requests tr repo ''open'' w = (Inr (JList prs), w1)"
  note top = GitHubClient_top_records [OF l, of choices order]
  from top show f: "fst (GitHubClient_fetch_enriched_pull_requests tr repo choices order w) =
        traverse (\<lambda>r. r) (arrange order (GitHubClient_records tr repo choices (take 50 prs) w1))"
    by simp
  show "length (GitHubClient_records tr repo choices (take 50 prs) w1) = min (length prs) 50"
    by simp
  from GitHubClient_pool_events [of tr repo choices "take 50 prs" w1] top
  show ev: "\<exists>evs. trace (snd (GitHubClient_fetch_enriched_pull_requests tr repo choices order w)) =
               trace w1 @ evs \<and>
         pool_events (enrichment_requests repo (take 50 prs)) evs \<and>
         length (filter is_call evs) \<le> 9 * min (length prs) 50" by simp
  then show "attempts (snd (GitHubClient_fetch_enriched_pull_requests tr repo choices order w))
        \<le> attempts w1 + 9 * min (length prs) 50"
    by (auto simp: attempts_def)
  {
    assume d: "\<forall>pr \<in> set (take 50 prs). is_dict pr"
    from GitHubClient_records_dicts [OF d, of tr repo choices w1] obtain recs where
      r: "GitHubClient_records tr repo choices (take 50 prs) w1 = map Inr recs"
      and n: "length recs = length (take 50 prs)" by blast
    from f r have "fst (GitHubClient_fetch_enriched_pull_requests tr repo choices order w) =
        Inr (arrange order recs)"
      by (simp add: arrange_map traverse_Inr)
    with n show "\<exists>results.
         fst (GitHubClient_fetch_enriched_pull_requests tr repo choices order w) = Inr results \<and>
         length results = min (length prs) 50" by simp
  }
qed

text \<open>
  Sixty listed PRs: fifty records, and no request for the details of PR 51, in either
  service.
\<close>

theorem first_fifty_only_witness:
  "(\<exists>results.
      fst (GithubService_fetch_enriched_pull_requests (listing_only sixty_prs) ''o/r'' (start ()))
        = Inr results \<and> length results = 50) \<and>
   attempts (snd (GithubService_fetch_enriched_pull_requests (listing_only sixty_prs) ''o/r'' (start ())))
     \<le> 151 \<and>
   (\<forall>out. Call \<lparr>http_method = ''GET'', target = PullDetails ''o/r'' (JInt 51)\<rparr> out \<notin>
      set (trace (snd (GithubService_fetch_enriched_pull_requests (listing_only sixty_prs) ''o/r'' (start ()))))) \<and>
   (\<exists>results.
      fst (GitHubClient_fetch_enriched_pull_requests (listing_only sixty_prs) ''o/r'' [] [] (start ()))
        = Inr results \<and> length results = 50) \<and>
   attempts (snd (GitHubClient_fetch_enriched_pull_requests (listing_only sixty_prs) ''o/r'' [] [] (start ())))
     \<le> 451 \<and>
   (\<forall>out. Call \<lparr>http_method = ''GET'', target = PullDetails ''o/r'' (JInt 51)\<rparr> out \<notin>
      set (trace (snd (GitHubClient_fetch_enriched_pull_requests (listing_only sixty_prs) ''o/r'' [] [] (start ())))))"
proof -
  let ?listing = "Call \<lparr>http_method = ''GET'', target = Pulls ''o/r'' ''open''\<rparr>
                    (Responds (listing_response sixty_prs))"
  let ?w1 = "\<lparr>net = (), trace = [?listing]\<rparr>"
  let ?rq = "\<lparr>http_method = ''GET'', target = PullDetails ''o/r'' (JInt 51)\<rparr>"
  have hs: "GithubService_fetch_pull_requests (listing_only sixty_prs) ''o/r'' ''open'' (start ()) =
     (Inr (JList sixty_prs), ?w1)"
    by (simp add: GithubService_fetch_pull_requests_def GithubService_request_def send_def start_def
        listing_only_def listing_response_def GithubService_decode_def GithubService_check_def
        rate_limited_def)
  have hc: "GitHubClient_fetch_pull_requests (listing_only sixty_prs) ''o/r'' ''open'' (start ()) =
     (Inr (JList sixty_prs), ?w1)"
    by (simp add: GitHubClient_fetch_pull_requests_def GitHubClient_request_def
        send_def start_def
        listing_only_def listing_response_def GitHubClient_decode_def GitHubClient_check_def
        rate_limited_def)
  have d: "\<forall>pr \<in> set (take 50 sixty_prs). is_dict pr"
    by (auto simp: sixty_prs_def numbered_pr_def dest!: in_set_takeD)
  have n: "min (length sixty_prs) 50 = 50" by (simp add: sixty_prs_def)
  have a1: "attempts ?w1 = 1" by (simp add: attempts_def)
  have t: "take 50 sixty_prs = map numbered_pr [1..<51]"
    by (simp add: sixty_prs_def take_map)
  have out: "?rq \<notin> enrichment_requests ''o/r'' (take 50 sixty_prs)"
    unfolding t using numbered_requests(1) [of "''o/r''" 51 "[1..<51]"] by auto
  have absent: "\<forall>out. Call ?rq out \<notin> set (trace ?w1 @ evs)"
    if "pool_events (enrichment_requests ''o/r'' (take 50 sixty_prs)) evs" for evs
    using that out by (auto simp: pool_events_def split: event.splits)
  note service = first_fifty_only [of "listing_only sixty_prs" "''o/r''" "start ()" "[]" "[]",
      THEN conjunct1, rule_format, OF hs]
  note client = first_fifty_only [of "listing_only sixty_prs" "''o/r''" "start ()" "[]" "[]",
      THEN conjunct2, rule_format, OF hc]
  from service [THEN conjunct2, THEN conjunct2, THEN conjunct2, THEN conjunct2, THEN conjunct2, THEN mp, OF d] have s1: "\<exists>results.
      fst (GithubService_fetch_enriched_pull_requests (listing_only sixty_prs) ''o/r'' (start ()))
        = Inr results \<and> length results = 50"
    unfolding n .
  from service [THEN conjunct2, THEN conjunct2, THEN conjunct2, THEN conjunct2, THEN conjunct1] have s2:
    "attempts (snd (GithubService_fetch_enriched_pull_requests (listing_only sixty_prs) ''o/r'' (start ())))
     \<le> 151"
    unfolding n a1 by simp
  from service [THEN conjunct2, THEN conjunct2, THEN conjunct2, THEN conjunct1] obtain evs where
    e: "trace (snd (GithubService_fetch_enriched_pull_requests (listing_only sixty_prs) ''o/r'' (start ()))) =
          trace ?w1 @ evs"
    and p: "pool_events (enrichment_requests ''o/r'' (take 50 sixty_prs)) evs"
    by blast
  from absent [OF p] have s3:
    "\<forall>out. Call ?rq out \<notin>
      set (trace (snd (GithubService_fetch_enriched_pull_requests (listing_only sixty_prs) ''o/r'' (start ()))))"
    unfolding e .
  from client [THEN conjunct2, THEN conjunct2, THEN conjunct2, THEN conjunct2, THEN mp, OF d] have c1: "\<exists>results.
      fst (GitHubClient_fetch_enriched_pull_requests (listing_only sixty_prs) ''o/r'' [] [] (start ()))
        = Inr results \<and> length results = 50"
    unfolding n .
  from client [THEN conjunct2, THEN conjunct2, THEN conjunct2, THEN conjunct1] have c2:
    "attempts (snd (GitHubClient_fetch_enriched_pull_requests (listing_only sixty_prs) ''o/r'' [] [] (start ())))
     \<le> 451"
    unfolding n a1 by simp
  from client [THEN conjunct2, THEN conjunct2, THEN conjunct1] obtain evs' where
    e': "trace (snd (GitHubClient_fetch_enriched_pull_requests (listing_only sixty_prs) ''o/r'' [] [] (start ()))) =
          trace ?w1 @ evs'"
    and p': "pool_events (enrichment_requests ''o/r'' (take 50 sixty_prs)) evs'"
    by blast
  from absent [OF p'] have c3:
    "\<forall>out. Call ?rq out \<notin>
      set (trace (snd (GitHubClient_fetch_enriched_pull_requests (listing_only sixty_prs) ''o/r'' [] [] (start ()))))"
    unfolding e' .
  from s1 s2 s3 c1 c2 c3 show ?thesis by blast
qed

end
